theory Spec2Isabelle
  imports Main "HOL-Library.Char_ord" "HOL-Library.List_Lexorder"
begin

section \<open>Errors\<close>

text \<open>
  Go errors are values. \<open>Msg\<close> is \<open>fmt.Errorf\<close> (or \<open>errors.New\<close>) without a wrapped
  cause, \<open>Wrap p e\<close> is \<open>fmt.Errorf(p + ": %w", e)\<close>, and \<open>Errno\<close> is an error of the
  operating system. \<open>HTTPStatus n\<close> is the error \<open>HTTP n\<close> of a response whose status is
  not 200.

  The errors of the Go library whose printed form quotes a string with \<open>strconv.Quote\<close>
  are kept as the values they are, with their fields:
  \<^item> \<open>URLError op u e\<close> is \<open>&url.Error{Op: op, URL: u, Err: e}\<close>, printed as \<open>op "u": e\<close>;
  \<^item> \<open>EscapeError s\<close> is \<open>url.EscapeError(s)\<close>, printed as \<open>invalid URL escape "s"\<close>;
  \<^item> \<open>InvalidHostError s\<close> is \<open>url.InvalidHostError(s)\<close>, printed as
    \<open>invalid character "s" in host name\<close>;
  \<^item> \<open>InvalidPort p\<close> is \<open>fmt.Errorf("invalid port %q after host", p)\<close>;
  \<^item> \<open>ParseAddrError s\<close> is the \<open>parseAddrError\<close> of \<open>netip.ParseAddr(s)\<close>, printed as
    \<open>ParseAddr("s"):\<close> followed by the library's diagnosis, which is not kept;
  \<^item> \<open>ExecError name e\<close> is \<open>&exec.Error{Name: name, Err: e}\<close>, printed as
    \<open>exec: "name": e\<close>.
\<close>

datatype errno = ENOENT | EEXIST | ENOTDIR | EISDIR | ELOOP | ENOTEMPTY | EIO

datatype error = Errno errno | HTTPStatus nat | Msg string | Wrap string error
  | URLError string string error | EscapeError string | InvalidHostError string
  | InvalidPort string | ParseAddrError string | ExecError string error

section \<open>Package strings of the Go library\<close>

definition HasPrefix :: "string \<Rightarrow> string \<Rightarrow> bool" where
  "HasPrefix s p = (take (length p) s = p)"

definition HasSuffix :: "string \<Rightarrow> string \<Rightarrow> bool" where
  "HasSuffix s p = (length p \<le> length s \<and> drop (length s - length p) s = p)"

definition TrimPrefix :: "string \<Rightarrow> string \<Rightarrow> string" where
  "TrimPrefix s p = (if HasPrefix s p then drop (length p) s else s)"

definition TrimSuffix :: "string \<Rightarrow> string \<Rightarrow> string" where
  "TrimSuffix s p = (if HasSuffix s p then take (length s - length p) s else s)"

fun Contains :: "string \<Rightarrow> string \<Rightarrow> bool" where
  "Contains [] sub = (sub = [])"
| "Contains (c # s) sub = (HasPrefix (c # s) sub \<or> Contains s sub)"

text \<open>\<open>strings.Index\<close> and \<open>strings.LastIndex\<close>: \<open>None\<close> is Go's \<open>-1\<close>.\<close>

fun Index :: "string \<Rightarrow> string \<Rightarrow> nat option" where
  "Index [] sub = (if sub = [] then Some 0 else None)"
| "Index (c # s) sub =
     (if HasPrefix (c # s) sub then Some 0 else map_option Suc (Index s sub))"

fun LastIndex :: "string \<Rightarrow> string \<Rightarrow> nat option" where
  "LastIndex [] sub = (if sub = [] then Some 0 else None)"
| "LastIndex (c # s) sub =
     (case LastIndex s sub of
        Some i \<Rightarrow> Some (Suc i)
      | None \<Rightarrow> if HasPrefix (c # s) sub then Some 0 else None)"

text \<open>\<open>strings.Split(s, sep)\<close> for a separator of one byte, the only use in the code.\<close>

fun Split :: "string \<Rightarrow> char \<Rightarrow> string list" where
  "Split [] sep = [[]]"
| "Split (c # s) sep =
     (if c = sep then [] # Split s sep
      else (case Split s sep of
              [] \<Rightarrow> [[c]]
            | x # xs \<Rightarrow> (c # x) # xs))"

fun Join :: "string list \<Rightarrow> string \<Rightarrow> string" where
  "Join [] sep = []"
| "Join [x] sep = x"
| "Join (x # y # xs) sep = x @ sep @ Join (y # xs) sep"

definition isUpper :: "char \<Rightarrow> bool" where
  "isUpper c = (65 \<le> (of_char c :: nat) \<and> (of_char c :: nat) \<le> 90)"

definition isLower :: "char \<Rightarrow> bool" where
  "isLower c = (97 \<le> (of_char c :: nat) \<and> (of_char c :: nat) \<le> 122)"

definition isDigit :: "char \<Rightarrow> bool" where
  "isDigit c = (48 \<le> (of_char c :: nat) \<and> (of_char c :: nat) \<le> 57)"

text \<open>\<open>strings.ToLower\<close> on ASCII bytes (a URL scheme holds nothing else).\<close>

definition ToLower :: "string \<Rightarrow> string" where
  "ToLower s = map (\<lambda>c. if isUpper c then char_of ((of_char c :: nat) + 32) else c) s"

section \<open>Package net/url of the Go library\<close>

text \<open>
  \<open>url.Parse\<close>, for the fields the code reads: \<open>Scheme\<close>, \<open>Host\<close> and \<open>Path\<close>
  (\<open>Opaque\<close> holds a rootless rest after a scheme). The model follows the library's
  \<open>Parse\<close>, \<open>parse\<close>, \<open>getScheme\<close>, \<open>parseAuthority\<close>, \<open>parseHost\<close>, \<open>unescape\<close>
  and \<open>shouldEscape\<close>, and \<open>netip.ParseAddr\<close> for the address between the brackets of
  an IP literal, as they stand in the patch releases of Go 1.24, the version the
  repository is built with.
\<close>

record url =
  Scheme :: string
  Opaque :: string
  Host :: string
  Path :: string

datatype encoding = encodePath | encodeHost | encodeZone | encodeUserPassword | encodeFragment

definition ishex :: "char \<Rightarrow> bool" where
  "ishex c = (isDigit c \<or> (97 \<le> (of_char c :: nat) \<and> (of_char c :: nat) \<le> 102)
                        \<or> (65 \<le> (of_char c :: nat) \<and> (of_char c :: nat) \<le> 70))"

definition unhex :: "char \<Rightarrow> nat" where
  "unhex c =
     (if isDigit c then of_char c - 48
      else if 97 \<le> (of_char c :: nat) \<and> (of_char c :: nat) \<le> 102 then of_char c - 97 + 10
      else if 65 \<le> (of_char c :: nat) \<and> (of_char c :: nat) \<le> 70 then of_char c - 65 + 10
      else 0)"

text \<open>\<open>hostByteOk c\<close> is \<open>!shouldEscape(c, encodeHost)\<close>: the bytes a host may hold unescaped.\<close>

definition hostByteOk :: "char \<Rightarrow> bool" where
  "hostByteOk c =
     (isLower c \<or> isUpper c \<or> isDigit c \<or> c \<in> set ''!$&()*+,;=:[]<>-_.~''
      \<or> of_char c = (39 :: nat) \<or> of_char c = (34 :: nat))"

text \<open>
  The first loop of \<open>unescape\<close>, which checks the escapes: in a host only bytes from
  \<open>0x80\<close> on and \<open>%25\<close> may be escaped, in a zone only \<open>%25\<close>, a space and the bytes a
  host may hold.
\<close>

fun unescape_check :: "encoding \<Rightarrow> string \<Rightarrow> error option" where
  "unescape_check mode [] = None"
| "unescape_check mode (c # s) =
     (if c = CHR ''%'' then
        (case s of
           h1 # h2 # t \<Rightarrow>
             if \<not> ishex h1 \<or> \<not> ishex h2 then Some (EscapeError [c, h1, h2])
             else if mode = encodeHost \<and> unhex h1 < 8 \<and> [h1, h2] \<noteq> ''25''
               then Some (EscapeError [c, h1, h2])
             else if mode = encodeZone \<and> [h1, h2] \<noteq> ''25''
                     \<and> unhex h1 * 16 + unhex h2 \<noteq> 32
                     \<and> \<not> hostByteOk (char_of (unhex h1 * 16 + unhex h2))
               then Some (EscapeError [c, h1, h2])
             else unescape_check mode t
         | _ \<Rightarrow> Some (EscapeError (take 3 (c # s))))
      else if (mode = encodeHost \<or> mode = encodeZone) \<and> (of_char c :: nat) < 128
              \<and> \<not> hostByteOk c
        then Some (InvalidHostError [c])
      else unescape_check mode s)"

fun unescape_bytes :: "string \<Rightarrow> string" where
  "unescape_bytes [] = []"
| "unescape_bytes (c # s) =
     (if c = CHR ''%'' then
        (case s of
           h1 # h2 # t \<Rightarrow> char_of (unhex h1 * 16 + unhex h2) # unescape_bytes t
         | _ \<Rightarrow> c # s)
      else c # unescape_bytes s)"

definition unescape :: "string \<Rightarrow> encoding \<Rightarrow> error + string" where
  "unescape s mode =
     (case unescape_check mode s of
        Some e \<Rightarrow> Inl e
      | None \<Rightarrow> Inr (unescape_bytes s))"

definition stringContainsCTLByte :: "string \<Rightarrow> bool" where
  "stringContainsCTLByte s = (\<exists>c \<in> set s. (of_char c :: nat) < 32 \<or> of_char c = (127 :: nat))"

text \<open>The loop of \<open>getScheme\<close>; \<open>i\<close> is the index of the head of the third argument.\<close>

fun getScheme_from :: "string \<Rightarrow> nat \<Rightarrow> string \<Rightarrow> error + (string \<times> string)" where
  "getScheme_from rawURL i [] = Inr ([], rawURL)"
| "getScheme_from rawURL i (c # cs) =
     (if isLower c \<or> isUpper c then getScheme_from rawURL (Suc i) cs
      else if isDigit c \<or> c = CHR ''+'' \<or> c = CHR ''-'' \<or> c = CHR ''.'' then
        (if i = 0 then Inr ([], rawURL) else getScheme_from rawURL (Suc i) cs)
      else if c = CHR '':'' then
        (if i = 0 then Inl (Msg ''missing protocol scheme'')
         else Inr (take i rawURL, drop (Suc i) rawURL))
      else Inr ([], rawURL))"

definition getScheme :: "string \<Rightarrow> error + (string \<times> string)" where
  "getScheme rawURL = getScheme_from rawURL 0 rawURL"

definition validOptionalPort :: "string \<Rightarrow> bool" where
  "validOptionalPort port =
     (case port of
        [] \<Rightarrow> True
      | c # ds \<Rightarrow> c = CHR '':'' \<and> list_all isDigit ds)"

section \<open>Package net/netip of the Go library\<close>

text \<open>
  \<open>netip.ParseAddr\<close>, as far as \<open>parseHost\<close> reads its result: whether the text is an
  address, and of which family.
\<close>

datatype addr = IPv4 | IPv6

text \<open>
  The loop of \<open>parseIPv4Fields\<close>: \<open>val\<close> is the value of the octet being read, \<open>pos\<close>
  the number of octets done, \<open>digLen\<close> the number of digits of the octet being read;
  \<open>first\<close> says that the byte read is the first of the text or follows a dot. The
  result says whether the text is four octets.
\<close>

fun parseIPv4Fields_loop :: "nat \<Rightarrow> nat \<Rightarrow> nat \<Rightarrow> bool \<Rightarrow> string \<Rightarrow> bool" where
  "parseIPv4Fields_loop val pos digLen first [] = (\<not> pos < 3)"
| "parseIPv4Fields_loop val pos digLen first (c # cs) =
     (if isDigit c then
        (if digLen = 1 \<and> val = 0 then False
         else if val * 10 + ((of_char c :: nat) - 48) > 255 then False
         else parseIPv4Fields_loop (val * 10 + ((of_char c :: nat) - 48)) pos (Suc digLen) False cs)
      else if c = CHR ''.'' then
        (if first \<or> cs = [] then False
         else if pos = 3 then False
         else parseIPv4Fields_loop 0 (Suc pos) 0 True cs)
      else False)"

definition parseIPv4Fields :: "string \<Rightarrow> bool" where
  "parseIPv4Fields s = parseIPv4Fields_loop 0 0 0 True s"

definition parseIPv4 :: "string \<Rightarrow> error + addr" where
  "parseIPv4 s = (if parseIPv4Fields s then Inr IPv4 else Inl (ParseAddrError s))"

text \<open>
  The inner loop of \<open>parseIPv6\<close> over the hexadecimal digits of a field: the number of
  digits read, \<open>None\<close> when there are more than four (the value of four digits is below
  \<open>2^16\<close>, so the test of the overflow never fails before).
\<close>

fun hexField :: "nat \<Rightarrow> string \<Rightarrow> nat option" where
  "hexField off [] = Some off"
| "hexField off (c # cs) =
     (if ishex c then (if off > 3 then None else hexField (Suc off) cs)
      else Some off)"

text \<open>
  The outer loop of \<open>parseIPv6\<close>: \<open>i\<close> is the number of bytes of the address filled,
  \<open>ellipsis\<close> the place of \<open>::\<close> when it has been read, \<open>s\<close> the text left. It gives
  the state at the exit of the loop, or \<open>None\<close> where the library returns an error.
\<close>

function parseIPv6_loop :: "nat \<Rightarrow> nat option \<Rightarrow> string \<Rightarrow> (nat \<times> nat option \<times> string) option" where
  "parseIPv6_loop i ellipsis s =
     (if \<not> i < 16 then Some (i, ellipsis, s)
      else
        (case hexField 0 s of
           None \<Rightarrow> None
         | Some off \<Rightarrow>
             if off = 0 then None
             else if off < length s \<and> s ! off = CHR ''.'' then
               (if ellipsis = None \<and> i \<noteq> 12 then None
                else if i + 4 > 16 then None
                else if \<not> parseIPv4Fields s then None
                else Some (i + 4, ellipsis, []))
             else
               (let s1 = drop off s
                in if s1 = [] then Some (i + 2, ellipsis, s1)
                   else if hd s1 \<noteq> CHR '':'' then None
                   else if length s1 = 1 then None
                   else
                     (let s2 = tl s1
                      in if hd s2 = CHR '':'' then
                           (if ellipsis \<noteq> None then None
                            else if tl s2 = [] then Some (i + 2, Some (i + 2), tl s2)
                            else parseIPv6_loop (i + 2) (Some (i + 2)) (tl s2))
                         else parseIPv6_loop (i + 2) ellipsis s2))))"
  by pat_completeness auto
termination
  by (relation "measure (\<lambda>(i, ellipsis, s). 16 - i)") auto

declare parseIPv6_loop.simps [simp del]

definition parseIPv6 :: "string \<Rightarrow> error + addr" where
  "parseIPv6 inp =
     (let s0 = (case Index inp ''%'' of Some i \<Rightarrow> take i inp | None \<Rightarrow> inp);
          zoneEmpty = (case Index inp ''%'' of Some i \<Rightarrow> drop (Suc i) inp = [] | None \<Rightarrow> False);
          leading = (length s0 \<ge> 2 \<and> s0 ! 0 = CHR '':'' \<and> s0 ! 1 = CHR '':'');
          s = (if leading then drop 2 s0 else s0)
      in if zoneEmpty then Inl (ParseAddrError inp)
         else if leading \<and> s = [] then Inr IPv6
         else
           (case parseIPv6_loop 0 (if leading then Some 0 else None) s of
              None \<Rightarrow> Inl (ParseAddrError inp)
            | Some (i, ellipsis, rest) \<Rightarrow>
                if rest \<noteq> [] then Inl (ParseAddrError inp)
                else if i < 16 then
                  (if ellipsis = None then Inl (ParseAddrError inp) else Inr IPv6)
                else if ellipsis \<noteq> None then Inl (ParseAddrError inp)
                else Inr IPv6))"

text \<open>\<open>ParseAddr\<close> decides by the first dot, colon or percent sign of the text.\<close>

definition ParseAddr :: "string \<Rightarrow> error + addr" where
  "ParseAddr s =
     (case find (\<lambda>c. c = CHR ''.'' \<or> c = CHR '':'' \<or> c = CHR ''%'') s of
        None \<Rightarrow> Inl (ParseAddrError s)
      | Some c \<Rightarrow>
          if c = CHR ''.'' then parseIPv4 s
          else if c = CHR '':'' then parseIPv6 s
          else Inl (ParseAddrError s))"

section \<open>Package net/url, continued\<close>

text \<open>
  \<open>parseHost\<close>: a host that holds an opening bracket is an IP literal, whose text
  between the last opening and the last closing bracket must be an IPv6 address, with
  a zone after \<open>%25\<close> when it has one. The port is valid only when no bracket follows
  the closing one, so the opening bracket stands before the closing one where the
  host name is cut out.
\<close>

definition parseHost :: "string \<Rightarrow> error + string" where
  "parseHost host =
     (case LastIndex host ''['' of
        Some openBracketIdx \<Rightarrow>
          (case LastIndex host '']'' of
             None \<Rightarrow> Inl (Msg (''missing '' @ [CHR 0x27] @ '']'' @ [CHR 0x27] @ '' in host''))
           | Some closeBracketIdx \<Rightarrow>
               (let colonPort = drop (Suc closeBracketIdx) host
                in if \<not> validOptionalPort colonPort then Inl (InvalidPort colonPort)
                   else
                     (case unescape colonPort encodeHost of
                        Inl e \<Rightarrow> Inl e
                      | Inr unescapedColonPort \<Rightarrow>
                          (let hostname = take (closeBracketIdx - Suc openBracketIdx)
                                            (drop (Suc openBracketIdx) host);
                               unescaped =
                                 (case Index hostname ''%25'' of
                                    Some zoneIdx \<Rightarrow>
                                      (case unescape (take zoneIdx hostname) encodeHost of
                                         Inl e \<Rightarrow> Inl e
                                       | Inr hostPart \<Rightarrow>
                                           (case unescape (drop zoneIdx hostname) encodeZone of
                                              Inl e \<Rightarrow> Inl e
                                            | Inr zonePart \<Rightarrow> Inr (hostPart @ zonePart)))
                                  | None \<Rightarrow> unescape hostname encodeHost)
                           in case unescaped of
                                Inl e \<Rightarrow> Inl e
                              | Inr unescapedHostname \<Rightarrow>
                                  (case ParseAddr unescapedHostname of
                                     Inl e \<Rightarrow> Inl (Wrap ''invalid host'' e)
                                   | Inr a \<Rightarrow>
                                       if a = IPv4 then Inl (Msg ''invalid IP-literal'')
                                       else Inr (''['' @ unescapedHostname @ '']''
                                                 @ unescapedColonPort))))))
      | None \<Rightarrow>
          (case LastIndex host '':'' of
             Some i \<Rightarrow>
               if \<not> validOptionalPort (drop i host)
               then Inl (InvalidPort (drop i host))
               else unescape host encodeHost
           | None \<Rightarrow> unescape host encodeHost))"

definition validUserinfo :: "string \<Rightarrow> bool" where
  "validUserinfo s =
     list_all (\<lambda>c. isLower c \<or> isUpper c \<or> isDigit c \<or> c \<in> set ''-._:~!$&()*+,;=%@''
                    \<or> of_char c = (39 :: nat)) s"

definition cutAt :: "string \<Rightarrow> string \<Rightarrow> string \<times> string" where
  "cutAt s sep =
     (case Index s sep of
        Some i \<Rightarrow> (take i s, drop (i + length sep) s)
      | None \<Rightarrow> (s, []))"

text \<open>
  \<open>parseAuthority\<close>: the host is what follows the last \<open>@\<close>; the user information
  before it must hold valid bytes only and well-formed escapes, in the user name and in
  the password.
\<close>

definition parseAuthority :: "string \<Rightarrow> error + string" where
  "parseAuthority authority =
     (case LastIndex authority ''@'' of
        None \<Rightarrow> parseHost authority
      | Some i \<Rightarrow>
          (case parseHost (drop (Suc i) authority) of
             Inl e \<Rightarrow> Inl e
           | Inr host \<Rightarrow>
               (let userinfo = take i authority
                in if \<not> validUserinfo userinfo then Inl (Msg ''net/url: invalid userinfo'')
                   else if \<not> Contains userinfo '':'' then
                     (case unescape userinfo encodeUserPassword of
                        Inl e \<Rightarrow> Inl e
                      | Inr user \<Rightarrow> Inr host)
                   else
                     (case unescape (fst (cutAt userinfo '':'')) encodeUserPassword of
                        Inl e \<Rightarrow> Inl e
                      | Inr username \<Rightarrow>
                          (case unescape (snd (cutAt userinfo '':'')) encodeUserPassword of
                             Inl e \<Rightarrow> Inl e
                           | Inr password \<Rightarrow> Inr host)))))"

definition setPath :: "url \<Rightarrow> string \<Rightarrow> error + url" where
  "setPath u p =
     (case unescape p encodePath of
        Inl e \<Rightarrow> Inl e
      | Inr path \<Rightarrow> Inr (u\<lparr>Path := path\<rparr>))"

definition url_parse :: "string \<Rightarrow> error + url" where
  "url_parse rawURL =
     (if stringContainsCTLByte rawURL
      then Inl (Msg ''net/url: invalid control character in URL'')
      else if rawURL = ''*''
      then Inr \<lparr>Scheme = [], Opaque = [], Host = [], Path = ''*''\<rparr>
      else
        (case getScheme rawURL of
           Inl e \<Rightarrow> Inl e
         | Inr (scheme0, rest0) \<Rightarrow>
             let scheme = ToLower scheme0;
                 rest = fst (cutAt rest0 ''?'');
                 u = \<lparr>Scheme = scheme, Opaque = [], Host = [], Path = []\<rparr>
             in if \<not> HasPrefix rest ''/'' \<and> scheme \<noteq> []
                then Inr (u\<lparr>Opaque := rest\<rparr>)
                else if \<not> HasPrefix rest ''/'' \<and> Contains (fst (cutAt rest ''/'')) '':''
                then Inl (Msg ''first path segment in URL cannot contain colon'')
                else if (scheme \<noteq> [] \<or> \<not> HasPrefix rest ''///'') \<and> HasPrefix rest ''//''
                then
                  (let a = drop 2 rest;
                       authority = (case Index a ''/'' of Some i \<Rightarrow> take i a | None \<Rightarrow> a);
                       rest2 = (case Index a ''/'' of Some i \<Rightarrow> drop i a | None \<Rightarrow> [])
                   in case parseAuthority authority of
                        Inl e \<Rightarrow> Inl e
                      | Inr host \<Rightarrow> setPath (u\<lparr>Host := host\<rparr>) rest2)
                else setPath u rest))"

definition url_Parse :: "string \<Rightarrow> error + url" where
  "url_Parse rawURL =
     (let u = fst (cutAt rawURL ''#''); frag = snd (cutAt rawURL ''#'')
      in case url_parse u of
           Inl e \<Rightarrow> Inl (URLError ''parse'' u e)
         | Inr r \<Rightarrow>
             if frag = [] then Inr r
             else (case unescape frag encodeFragment of
                     Inl e \<Rightarrow> Inl (URLError ''parse'' rawURL e)
                   | Inr f \<Rightarrow> Inr r))"

section \<open>internal/manager/fetcher/parser.go\<close>

type_synonym SourceType = string

abbreviation SourceGitHub :: SourceType where "SourceGitHub \<equiv> ''github''"
abbreviation SourceHTTP :: SourceType where "SourceHTTP \<equiv> ''http''"
abbreviation SourceGoogleWellKnown :: SourceType where "SourceGoogleWellKnown \<equiv> ''google-well-known''"
abbreviation SourceLocal :: SourceType where "SourceLocal \<equiv> ''local''"
abbreviation SourceProtodex :: SourceType where "SourceProtodex \<equiv> ''protodex''"

record SourceInfo =
  si_Type :: SourceType
  si_Source :: string
  si_Version :: string
  si_Raw :: string

definition isLocalPath :: "string \<Rightarrow> bool" where
  "isLocalPath input =
     (HasPrefix input ''./'' \<or> HasPrefix input ''../'' \<or> HasPrefix input ''/''
      \<or> (\<not> Contains input ''://'' \<and> \<not> Contains input ''@''))"

definition getDefaultVersion :: "SourceType \<Rightarrow> string" where
  "getDefaultVersion sourceType =
     (if sourceType = SourceGitHub then ''main''
      else if sourceType = SourceProtodex then ''latest''
      else [])"

text \<open>The \<open>switch\<close> of \<open>ParseSource\<close> over the lower-cased scheme; \<open>None\<close> is its default branch.\<close>

definition schemeType :: "string \<Rightarrow> SourceType option" where
  "schemeType s =
     (if s = ''http'' \<or> s = ''https'' then Some SourceHTTP
      else if s = ''github'' then Some SourceGitHub
      else if s = ''google-well-known'' then Some SourceGoogleWellKnown
      else if s = ''protodex'' then Some SourceProtodex
      else if s = ''file'' then Some SourceLocal
      else None)"

definition ParseSource :: "string \<Rightarrow> error + SourceInfo" where
  "ParseSource input =
     (if input = [] then Inl (Msg ''empty source'')
      else if HasPrefix input ''file://''
      then Inr \<lparr>si_Type = SourceLocal, si_Source = TrimPrefix input ''file://'',
                si_Version = [], si_Raw = input\<rparr>
      else if isLocalPath input
      then Inr \<lparr>si_Type = SourceLocal, si_Source = input, si_Version = [], si_Raw = input\<rparr>
      else
        (let baseInput = (case LastIndex input ''@'' of Some i \<Rightarrow> take i input | None \<Rightarrow> input);
             version = (case LastIndex input ''@'' of Some i \<Rightarrow> drop (Suc i) input | None \<Rightarrow> [])
         in case url_Parse baseInput of
              Inl e \<Rightarrow> Inl (Wrap ''invalid source format'' e)
            | Inr parsedURL \<Rightarrow>
                if Scheme parsedURL = [] then Inl (Msg ''missing scheme in source'')
                else (case schemeType (ToLower (Scheme parsedURL)) of
                        None \<Rightarrow> Inl (Msg (''unsupported source type: '' @ Scheme parsedURL))
                      | Some sourceType \<Rightarrow>
                          Inr \<lparr>si_Type = sourceType,
                               si_Source = Host parsedURL @ Path parsedURL,
                               si_Version = (if version \<noteq> [] then version
                                             else getDefaultVersion sourceType),
                               si_Raw = input\<rparr>)))"

section \<open>Package path/filepath of the Go library (Unix)\<close>

text \<open>
  \<open>filepath.Clean\<close> works on the elements between slashes: empty elements and \<open>.\<close> go,
  \<open>..\<close> removes the element before it, is dropped at the root and is kept at the
  start of a relative path.
\<close>

fun clean_elems :: "bool \<Rightarrow> string list \<Rightarrow> string list \<Rightarrow> string list" where
  "clean_elems rooted acc [] = rev acc"
| "clean_elems rooted acc (c # cs) =
     (if c = [] \<or> c = ''.'' then clean_elems rooted acc cs
      else if c = ''..'' then
        (case acc of
           [] \<Rightarrow> if rooted then clean_elems rooted [] cs else clean_elems rooted [c] cs
         | a # as \<Rightarrow> if a = ''..'' then clean_elems rooted (c # acc) cs
                     else clean_elems rooted as cs)
      else clean_elems rooted (c # acc) cs)"

definition IsAbs :: "string \<Rightarrow> bool" where
  "IsAbs path = HasPrefix path ''/''"

definition Clean :: "string \<Rightarrow> string" where
  "Clean path =
     (let elems = clean_elems (IsAbs path) [] (Split path (CHR ''/''))
      in if IsAbs path then ''/'' @ Join elems ''/''
         else if elems = [] then ''.''
         else Join elems ''/'')"

text \<open>\<open>filepath.Join\<close>: the elements from the first non-empty one on, joined and cleaned.\<close>

fun filepath_Join :: "string list \<Rightarrow> string" where
  "filepath_Join [] = []"
| "filepath_Join (e # es) = (if e \<noteq> [] then Clean (Join (e # es) ''/'') else filepath_Join es)"

definition filepath_Dir :: "string \<Rightarrow> string" where
  "filepath_Dir path =
     (case LastIndex path ''/'' of
        None \<Rightarrow> Clean []
      | Some i \<Rightarrow> Clean (take (Suc i) path))"

section \<open>The operating system and the network\<close>

text \<open>
  A zip archive is the list of its entries. \<open>zattrdir\<close> is the directory bit of the
  entry's external attributes; \<open>FileInfo().IsDir()\<close> also holds for a name that ends
  in a slash. \<open>zhealth\<close> says whether \<open>Open\<close> and the copy of the entry's data succeed.
\<close>

datatype zhealth = ZGood | ZOpenFails | ZReadFails

record zentry =
  zname :: string
  zattrdir :: bool
  zdata :: string
  zhealth :: zhealth

definition zIsDir :: "zentry \<Rightarrow> bool" where
  "zIsDir e = (zattrdir e \<or> HasSuffix (zname e) ''/'')"

text \<open>The bytes of a file: a zip archive that \<open>zip.OpenReader\<close> accepts, or anything else.\<close>

datatype content = Raw string | Zip "zentry list"

datatype node = Dir | File content | Symlink string

text \<open>
  An HTTP response: its status, its body, and whether reading the body fails before its
  end. \<open>net\<close> maps a URL to the response a GET receives; a URL it does not hold fails
  in transport.
\<close>

record response =
  status :: nat
  body :: content
  bodyFails :: bool

text \<open>
  The world the program runs in. \<open>files\<close> is the file system: the elements of an
  absolute path, mapped to the node there (the first binding of a path counts; the root
  is a directory and has no binding). \<open>requests\<close> logs the URL of every GET, in order.
  \<open>randCtr\<close> stands for the random number generator of \<open>os.CreateTemp\<close>: each name it
  tries carries the next number.
\<close>

record world =
  files :: "(string list \<times> node) list"
  cwd :: string
  getwdOk :: bool
  tempDir :: string
  net :: "(string \<times> response) list"
  requests :: "string list"
  randCtr :: nat

definition elemsOf :: "string \<Rightarrow> string list" where
  "elemsOf p = filter (\<lambda>e. e \<noteq> []) (Split p (CHR ''/''))"

definition pathOf :: "string list \<Rightarrow> string" where
  "pathOf es = ''/'' @ Join es ''/''"

text \<open>
  Path resolution, as the kernel does it: \<open>cur\<close> is the directory reached, the list
  after it the elements still to walk. A symbolic link is replaced by its target, at most
  \<open>fuel\<close> times; the last element is followed only when \<open>follow\<close> is set, and may be
  missing. The result is the elements of the resolved path.
\<close>

fun walk :: "nat \<Rightarrow> (string list \<times> node) list \<Rightarrow> bool \<Rightarrow> string list \<Rightarrow> string list
    \<Rightarrow> errno + string list" where
  "walk fuel fs follow cur [] = Inr cur"
| "walk fuel fs follow cur (c # cs) =
     (if c = [] \<or> c = ''.'' then walk fuel fs follow cur cs
      else if c = ''..'' then walk fuel fs follow (butlast cur) cs
      else
        (case map_of fs (cur @ [c]) of
           None \<Rightarrow> if cs = [] then Inr (cur @ [c]) else Inl ENOENT
         | Some Dir \<Rightarrow> walk fuel fs follow (cur @ [c]) cs
         | Some (File x) \<Rightarrow> if cs = [] then Inr (cur @ [c]) else Inl ENOTDIR
         | Some (Symlink t) \<Rightarrow>
             if cs = [] \<and> \<not> follow then Inr (cur @ [c])
             else (case fuel of
                     0 \<Rightarrow> Inl ELOOP
                   | Suc k \<Rightarrow>
                       walk k fs follow (if IsAbs t then [] else cur)
                         (Split t (CHR ''/'') @ cs))))"

definition resolve :: "world \<Rightarrow> bool \<Rightarrow> string \<Rightarrow> errno + string list" where
  "resolve w follow p =
     (if p = [] then Inl ENOENT
      else walk 40 (files w) follow []
             (Split (if IsAbs p then p else cwd w @ ''/'' @ p) (CHR ''/'')))"

definition nodeAt :: "world \<Rightarrow> string list \<Rightarrow> node option" where
  "nodeAt w es = (if es = [] then Some Dir else map_of (files w) es)"

definition putNode :: "string list \<Rightarrow> node \<Rightarrow> world \<Rightarrow> world" where
  "putNode es n w = w\<lparr>files := (es, n) # filter (\<lambda>(k, v). k \<noteq> es) (files w)\<rparr>"

definition dropNode :: "string list \<Rightarrow> world \<Rightarrow> world" where
  "dropNode es w = w\<lparr>files := filter (\<lambda>(k, v). k \<noteq> es) (files w)\<rparr>"

text \<open>The names in a directory, sorted as \<open>os.ReadDir\<close> returns them.\<close>

definition childNames :: "world \<Rightarrow> string list \<Rightarrow> string list" where
  "childNames w es =
     sort (remdups (map (\<lambda>(k, v). last k)
                        (filter (\<lambda>(k, v). k \<noteq> [] \<and> butlast k = es) (files w))))"

text \<open>\<open>os.Stat\<close> follows symbolic links; \<open>os.IsNotExist\<close> recognises \<open>ENOENT\<close>.\<close>

definition os_Stat :: "world \<Rightarrow> string \<Rightarrow> errno + node" where
  "os_Stat w p =
     (case resolve w True p of
        Inl e \<Rightarrow> Inl e
      | Inr es \<Rightarrow> (case nodeAt w es of None \<Rightarrow> Inl ENOENT | Some n \<Rightarrow> Inr n))"

definition os_Lstat :: "world \<Rightarrow> string \<Rightarrow> errno + node" where
  "os_Lstat w p =
     (case resolve w False p of
        Inl e \<Rightarrow> Inl e
      | Inr es \<Rightarrow> (case nodeAt w es of None \<Rightarrow> Inl ENOENT | Some n \<Rightarrow> Inr n))"

definition IsNotExist :: "errno + 'a \<Rightarrow> bool" where
  "IsNotExist r = (case r of Inl e \<Rightarrow> e = ENOENT | Inr x \<Rightarrow> False)"

text \<open>A directory entry: its name and whether the entry itself is a directory.\<close>

record dirent =
  d_Name :: string
  d_IsDir :: bool

definition os_ReadDir :: "world \<Rightarrow> string \<Rightarrow> errno + dirent list" where
  "os_ReadDir w p =
     (case resolve w True p of
        Inl e \<Rightarrow> Inl e
      | Inr es \<Rightarrow>
          (case nodeAt w es of
             None \<Rightarrow> Inl ENOENT
           | Some Dir \<Rightarrow>
               Inr (map (\<lambda>n. \<lparr>d_Name = n, d_IsDir = (nodeAt w (es @ [n]) = Some Dir)\<rparr>)
                        (childNames w es))
           | Some x \<Rightarrow> Inl ENOTDIR))"

definition os_Symlink :: "world \<Rightarrow> string \<Rightarrow> string \<Rightarrow> errno option \<times> world" where
  "os_Symlink w oldname newname =
     (case resolve w False newname of
        Inl e \<Rightarrow> (Some e, w)
      | Inr es \<Rightarrow>
          (case nodeAt w es of
             Some n \<Rightarrow> (Some EEXIST, w)
           | None \<Rightarrow> (None, putNode es (Symlink oldname) w)))"

definition os_Mkdir :: "world \<Rightarrow> string \<Rightarrow> errno option \<times> world" where
  "os_Mkdir w p =
     (case resolve w False p of
        Inl e \<Rightarrow> (Some e, w)
      | Inr es \<Rightarrow>
          (case nodeAt w es of
             Some n \<Rightarrow> (Some EEXIST, w)
           | None \<Rightarrow> (None, putNode es Dir w)))"

text \<open>
  \<open>os.MkdirAll\<close> on the elements of a path (\<open>rooted\<close> for an absolute one), last
  element first: done when the path is a directory, an error when it is another node,
  and otherwise the parent is made first and then the directory itself.
\<close>

fun mkdirAll_rev :: "world \<Rightarrow> bool \<Rightarrow> string list \<Rightarrow> errno option \<times> world" where
  "mkdirAll_rev w rooted [] = (None, w)"
| "mkdirAll_rev w rooted (c # cs) =
     (let p = (if rooted then ''/'' else []) @ Join (rev (c # cs)) ''/''
      in case os_Stat w p of
           Inr Dir \<Rightarrow> (None, w)
         | Inr x \<Rightarrow> (Some ENOTDIR, w)
         | Inl e \<Rightarrow>
             (case mkdirAll_rev w rooted cs of
                (Some e1, w1) \<Rightarrow> (Some e1, w1)
              | (None, w1) \<Rightarrow>
                  (case os_Mkdir w1 p of
                     (None, w2) \<Rightarrow> (None, w2)
                   | (Some e2, w2) \<Rightarrow>
                       (case os_Lstat w2 p of
                          Inr Dir \<Rightarrow> (None, w2)
                        | x \<Rightarrow> (Some e2, w2)))))"

definition os_MkdirAll :: "world \<Rightarrow> string \<Rightarrow> errno option \<times> world" where
  "os_MkdirAll w p =
     (if p = [] then (Some ENOENT, w)
      else mkdirAll_rev w (IsAbs p) (rev (filter (\<lambda>e. e \<noteq> []) (Split p (CHR ''/'')))))"

text \<open>
  \<open>os.Create\<close> opens for writing, creating or truncating; the result is the place of
  the open file. \<open>writeTo\<close> is what \<open>io.Copy\<close> into the open file and \<open>Close\<close> leave.
\<close>

definition os_Create :: "world \<Rightarrow> string \<Rightarrow> (errno + string list) \<times> world" where
  "os_Create w p =
     (case resolve w True p of
        Inl e \<Rightarrow> (Inl e, w)
      | Inr es \<Rightarrow>
          (case nodeAt w es of
             Some Dir \<Rightarrow> (Inl EISDIR, w)
           | Some (Symlink t) \<Rightarrow> (Inl ELOOP, w)
           | x \<Rightarrow> (Inr es, putNode es (File (Raw [])) w)))"

definition writeTo :: "world \<Rightarrow> string list \<Rightarrow> content \<Rightarrow> world" where
  "writeTo w es c = putNode es (File c) w"

definition os_Remove :: "world \<Rightarrow> string \<Rightarrow> errno option \<times> world" where
  "os_Remove w p =
     (case resolve w False p of
        Inl e \<Rightarrow> (Some e, w)
      | Inr es \<Rightarrow>
          (case nodeAt w es of
             None \<Rightarrow> (Some ENOENT, w)
           | Some n \<Rightarrow>
               if es = [] \<or> (n = Dir \<and> childNames w es \<noteq> []) then (Some ENOTEMPTY, w)
               else (None, dropNode es w)))"

text \<open>
  \<open>os.CreateTemp dir pattern\<close>, the pattern given as the text before and after its
  \<open>*\<close>: an exclusive create of a randomly named file in \<open>dir\<close> (the temporary
  directory when \<open>dir\<close> is empty), tried again on a name that exists, up to \<open>tries\<close>
  times. The result is the name of the file and its place in the file system.
\<close>

function decimal :: "nat \<Rightarrow> string" where
  "decimal n =
     (if n < 10 then [char_of (48 + n)]
      else decimal (n div 10) @ [char_of (48 + n mod 10)])"
  by pat_completeness auto
termination
  by (relation "measure id") auto

declare decimal.simps [simp del]

fun createTemp_try :: "nat \<Rightarrow> world \<Rightarrow> string \<Rightarrow> string \<Rightarrow> string
    \<Rightarrow> (errno + string \<times> string list) \<times> world" where
  "createTemp_try 0 w dir pre suf = (Inl EEXIST, w)"
| "createTemp_try (Suc k) w dir pre suf =
     (let name = filepath_Join [dir, pre @ decimal (randCtr w) @ suf];
          w1 = w\<lparr>randCtr := Suc (randCtr w)\<rparr>
      in case resolve w1 False name of
           Inl e \<Rightarrow> (Inl e, w1)
         | Inr es \<Rightarrow>
             (case nodeAt w1 es of
                Some n \<Rightarrow> createTemp_try k w1 dir pre suf
              | None \<Rightarrow> (Inr (name, es), putNode es (File (Raw [])) w1)))"

definition os_CreateTemp :: "world \<Rightarrow> string \<Rightarrow> string \<Rightarrow> string
    \<Rightarrow> (errno + string \<times> string list) \<times> world" where
  "os_CreateTemp w dir pre suf =
     createTemp_try 10000 w (if dir = [] then tempDir w else dir) pre suf"

definition filepath_Abs :: "world \<Rightarrow> string \<Rightarrow> errno + string" where
  "filepath_Abs w path =
     (if IsAbs path then Inr (Clean path)
      else if getwdOk w then Inr (filepath_Join [cwd w, path])
      else Inl ENOENT)"

text \<open>\<open>zip.OpenReader\<close>: the entries of the archive in the named file.\<close>

definition zip_OpenReader :: "world \<Rightarrow> string \<Rightarrow> error + zentry list" where
  "zip_OpenReader w p =
     (case os_Stat w p of
        Inl e \<Rightarrow> Inl (Errno e)
      | Inr (File (Zip es)) \<Rightarrow> Inr es
      | Inr (File (Raw x)) \<Rightarrow> Inl (Msg ''zip: not a valid zip file'')
      | Inr x \<Rightarrow> Inl (Errno EISDIR))"

text \<open>\<open>client.Get\<close>: the request is logged, then answered from \<open>net\<close>.\<close>

definition http_Get :: "world \<Rightarrow> string \<Rightarrow> (error + response) \<times> world" where
  "http_Get w u =
     (let w1 = w\<lparr>requests := requests w @ [u]\<rparr>
      in case map_of (net w) u of
           None \<Rightarrow> (Inl (Msg (''Get '' @ u @ '': transport failure'')), w1)
         | Some r \<Rightarrow> (Inr r, w1))"

section \<open>The fetcher (package fetcher)\<close>

text \<open>
  Every function that touches the file system or the network takes the world and returns
  the world it leaves, beside its error (\<open>None\<close> is Go's \<open>nil\<close>). What the code prints
  is left out. A deferred call runs on the world the function body leaves.
\<close>

definition FetchedMarkerFile :: string where
  "FetchedMarkerFile = ''.protodex_fetched''"

record Fetcher =
  f_SourceType :: SourceType
  f_Source :: string
  f_Version :: string
  f_Dest :: string

text \<open>\<open>cmp.Or\<close> on two strings: the first that is not empty.\<close>

definition cmp_Or :: "string \<Rightarrow> string \<Rightarrow> string" where
  "cmp_Or a b = (if a \<noteq> [] then a else b)"

definition NewFetcher :: "SourceType \<Rightarrow> string \<Rightarrow> string \<Rightarrow> string \<Rightarrow> error + Fetcher" where
  "NewFetcher sourceType source version dest =
     (let dest1 = (if sourceType = SourceLocal then cmp_Or dest source else dest)
      in Inr \<lparr>f_SourceType = sourceType, f_Source = source, f_Version = version,
               f_Dest = dest1\<rparr>)"

definition NewFetcherFromURL :: "string \<Rightarrow> string \<Rightarrow> error + Fetcher" where
  "NewFetcherFromURL sourceURL dest =
     (case ParseSource sourceURL of
        Inl e \<Rightarrow> Inl (Wrap ''failed to parse source URL'' e)
      | Inr sourceInfo \<Rightarrow>
          NewFetcher (si_Type sourceInfo) (si_Source sourceInfo) (si_Version sourceInfo) dest)"

definition localFetch :: "world \<Rightarrow> Fetcher \<Rightarrow> error option \<times> world" where
  "localFetch w f =
     (case filepath_Abs w (f_Source f) of
        Inl e \<Rightarrow> (Some (Wrap ''failed to get absolute path of source'' (Errno e)), w)
      | Inr absSourcePath \<Rightarrow>
          if IsNotExist (os_Stat w absSourcePath)
          then (Some (Msg (''source path does not exist: '' @ absSourcePath)), w)
          else
            (case filepath_Abs w (f_Dest f) of
               Inl e \<Rightarrow> (Some (Wrap ''failed to get absolute path of destination'' (Errno e)), w)
             | Inr destAbsolute \<Rightarrow>
                 if absSourcePath = destAbsolute then (None, w)
                 else
                   (case os_Symlink w absSourcePath (f_Dest f) of
                      (Some e, w1) \<Rightarrow>
                        (Some (Wrap (''failed to create symlink from '' @ absSourcePath
                                      @ '' to '' @ f_Dest f) (Errno e)), w1)
                    | (None, w1) \<Rightarrow> (None, w1))))"

definition isFetched :: "world \<Rightarrow> string \<Rightarrow> bool" where
  "isFetched w path =
     (if IsNotExist (os_Stat w path) then False
      else
        (case os_ReadDir w path of
           Inl e \<Rightarrow> False
         | Inr entries \<Rightarrow>
             if length entries = 0 then False
             else if IsNotExist (os_Stat w (filepath_Join [path, FetchedMarkerFile])) then False
             else True))"

text \<open>
  \<open>download\<close>: the GET, the status check, the temporary file, the copy of the body into
  it. A body whose read fails leaves the temporary file as created.
\<close>

definition download :: "world \<Rightarrow> string \<Rightarrow> (error + string) \<times> world" where
  "download w u =
     (case http_Get w u of
        (Inl e, w1) \<Rightarrow> (Inl e, w1)
      | (Inr resp, w1) \<Rightarrow>
          if status resp \<noteq> 200 then (Inl (HTTPStatus (status resp)), w1)
          else
            (case os_CreateTemp w1 [] ''protodex-download-'' ''.zip'' of
               (Inl e, w2) \<Rightarrow> (Inl (Errno e), w2)
             | (Inr (name, place), w2) \<Rightarrow>
                 if bodyFails resp then (Inl (Errno EIO), w2)
                 else (Inr name, writeTo w2 place (body resp))))"

definition markAsFetched :: "world \<Rightarrow> Fetcher \<Rightarrow> error option \<times> world" where
  "markAsFetched w f =
     (case os_Create w (filepath_Join [f_Dest f, FetchedMarkerFile]) of
        (Inl e, w1) \<Rightarrow> (Some (Wrap ''failed to create fetched marker'' (Errno e)), w1)
      | (Inr place, w1) \<Rightarrow> (None, w1))"

text \<open>The loop of \<open>extractZip\<close> over the entries of the archive.\<close>

fun extractZip_loop :: "world \<Rightarrow> string \<Rightarrow> zentry list \<Rightarrow> error option \<times> world" where
  "extractZip_loop w destPath [] = (None, w)"
| "extractZip_loop w destPath (file # rest) =
     (if zIsDir file then extractZip_loop w destPath rest
      else if zhealth file = ZOpenFails then (Some (Msg ''zip: cannot open entry''), w)
      else
        (let destFile = filepath_Join [destPath, zname file]
         in case os_MkdirAll w (filepath_Dir destFile) of
              (Some e, w1) \<Rightarrow> (Some (Errno e), w1)
            | (None, w1) \<Rightarrow>
                (case os_Create w1 destFile of
                   (Inl e, w2) \<Rightarrow> (Some (Errno e), w2)
                 | (Inr place, w2) \<Rightarrow>
                     if zhealth file = ZReadFails then (Some (Errno EIO), w2)
                     else extractZip_loop (writeTo w2 place (Raw (zdata file))) destPath rest)))"

definition extractZip :: "world \<Rightarrow> string \<Rightarrow> string \<Rightarrow> error option \<times> world" where
  "extractZip w zipPath destPath =
     (case zip_OpenReader w zipPath of
        Inl e \<Rightarrow> (Some e, w)
      | Inr entries \<Rightarrow> extractZip_loop w destPath entries)"

text \<open>\<open>downloadAndExtract\<close>; the removal of the temporary file is deferred once \<open>download\<close> has returned its name.\<close>

definition downloadAndExtract :: "world \<Rightarrow> Fetcher \<Rightarrow> error option \<times> world" where
  "downloadAndExtract w f =
     (case download w (f_Source f) of
        (Inl e, w1) \<Rightarrow> (Some (Wrap ''failed to download from URL'' e), w1)
      | (Inr zipPath, w1) \<Rightarrow>
          (case extractZip w1 zipPath (f_Dest f) of
             (Some e, w2) \<Rightarrow> (Some (Wrap ''failed to extract zip'' e), snd (os_Remove w2 zipPath))
           | (None, w2) \<Rightarrow> (None, snd (os_Remove w2 zipPath))))"

definition urlFetch :: "world \<Rightarrow> Fetcher \<Rightarrow> error option \<times> world" where
  "urlFetch w f =
     (case url_Parse (f_Source f) of
        Inl e \<Rightarrow> (Some (Wrap ''invalid URL'' e), w)
      | Inr parsedURL \<Rightarrow>
          if Scheme parsedURL \<noteq> ''http'' \<and> Scheme parsedURL \<noteq> ''https''
          then (Some (Msg (''unsupported URL scheme: '' @ Scheme parsedURL)), w)
          else if isFetched w (f_Dest f) then (None, w)
          else
            (case downloadAndExtract w f of
               (Some e, w1) \<Rightarrow> (Some (Wrap ''failed to fetch from URL'' e), w1)
             | (None, w1) \<Rightarrow>
                 (case markAsFetched w1 f of
                    (Some e, w2) \<Rightarrow> (None, w2)
                  | (None, w2) \<Rightarrow> (None, w2))))"

subsection \<open>internal/manager/fetcher/github.go\<close>

definition extractFile :: "world \<Rightarrow> zentry \<Rightarrow> string \<Rightarrow> error option \<times> world" where
  "extractFile w file targetPath =
     (if zhealth file = ZOpenFails then (Some (Msg ''zip: cannot open entry''), w)
      else
        (case os_Create w targetPath of
           (Inl e, w1) \<Rightarrow> (Some (Errno e), w1)
         | (Inr place, w1) \<Rightarrow>
             if zhealth file = ZReadFails then (Some (Errno EIO), w1)
             else (None, writeTo w1 place (Raw (zdata file)))))"

text \<open>The first loop of \<open>extractGitHubZip\<close>: the prefix comes from the first entry that is not a directory.\<close>

fun rootPrefixOf :: "zentry list \<Rightarrow> string" where
  "rootPrefixOf [] = []"
| "rootPrefixOf (file # rest) =
     (if \<not> zIsDir file then
        (case Split (zname file) (CHR ''/'') of
           [] \<Rightarrow> rootPrefixOf rest
         | p # ps \<Rightarrow> p @ ''/'')
      else rootPrefixOf rest)"

text \<open>The second loop of \<open>extractGitHubZip\<close>.\<close>

fun extractGitHubZip_loop :: "world \<Rightarrow> string \<Rightarrow> string \<Rightarrow> string \<Rightarrow> zentry list
    \<Rightarrow> error option \<times> world" where
  "extractGitHubZip_loop w rootPrefix targetDir subDir [] = (None, w)"
| "extractGitHubZip_loop w rootPrefix targetDir subDir (file # rest) =
     (if zIsDir file then extractGitHubZip_loop w rootPrefix targetDir subDir rest
      else
        (let relativePath0 = TrimPrefix (zname file) rootPrefix
         in if subDir \<noteq> [] \<and> \<not> HasPrefix relativePath0 (subDir @ ''/'')
            then extractGitHubZip_loop w rootPrefix targetDir subDir rest
            else
              (let relativePath = (if subDir \<noteq> [] then TrimPrefix relativePath0 (subDir @ ''/'')
                                   else relativePath0)
               in if relativePath = []
                  then extractGitHubZip_loop w rootPrefix targetDir subDir rest
                  else
                    (let targetPath = filepath_Join [targetDir, relativePath]
                     in case os_MkdirAll w (filepath_Dir targetPath) of
                          (Some e, w1) \<Rightarrow> (Some (Errno e), w1)
                        | (None, w1) \<Rightarrow>
                            (case extractFile w1 file targetPath of
                               (Some e, w2) \<Rightarrow>
                                 (Some (Wrap (''failed to extract '' @ relativePath) e), w2)
                             | (None, w2) \<Rightarrow>
                                 extractGitHubZip_loop w2 rootPrefix targetDir subDir rest)))))"

definition extractGitHubZip :: "world \<Rightarrow> string \<Rightarrow> string \<Rightarrow> string \<Rightarrow> error option \<times> world" where
  "extractGitHubZip w zipPath targetDir subDir =
     (case zip_OpenReader w zipPath of
        Inl e \<Rightarrow> (Some e, w)
      | Inr entries \<Rightarrow>
          extractGitHubZip_loop w (rootPrefixOf entries) targetDir subDir entries)"

text \<open>\<open>strings.Replace s old new 1\<close>: the first occurrence is replaced.\<close>

definition Replace1 :: "string \<Rightarrow> string \<Rightarrow> string \<Rightarrow> string" where
  "Replace1 s old new =
     (case Index s old of
        None \<Rightarrow> s
      | Some i \<Rightarrow> take i s @ new @ drop (i + length old) s)"

definition downloadAndExtractGithub :: "world \<Rightarrow> Fetcher \<Rightarrow> string \<Rightarrow> string
    \<Rightarrow> error option \<times> world" where
  "downloadAndExtractGithub w f githubURL0 branch =
     (let githubURL1 = TrimSuffix (TrimPrefix (TrimPrefix (TrimPrefix githubURL0 ''https://'')
                          ''http://'') ''git@'') ''.git'';
          githubURL = (if HasPrefix githubURL1 ''github.com:''
                       then Replace1 githubURL1 ''github.com:'' ''github.com/''
                       else githubURL1)
      in if \<not> HasPrefix githubURL ''github.com/''
         then (Some (Msg (''invalid GitHub URL: '' @ githubURL)), w)
         else
           (let parts = Split (TrimPrefix githubURL ''github.com/'') (CHR ''/'')
            in if length parts < 2
               then (Some (Msg (''invalid GitHub source format: '' @ githubURL)), w)
               else
                 (let owner = parts ! 0;
                      repo = parts ! 1;
                      subDir = (if length parts > 2 then Join (drop 2 parts) ''/'' else []);
                      version = (if branch = [] then ''main'' else branch);
                      downloadVersion = TrimPrefix version ''v'';
                      u = (if HasPrefix version ''v''
                           then ''https://github.com/'' @ owner @ ''/'' @ repo
                                @ ''/archive/refs/tags/'' @ version @ ''.zip''
                           else ''https://github.com/'' @ owner @ ''/'' @ repo
                                @ ''/archive/refs/heads/'' @ downloadVersion @ ''.zip'')
                  in case download w u of
                       (Inl e, w1) \<Rightarrow> (Some e, w1)
                     | (Inr zipPath, w1) \<Rightarrow>
                         (case extractGitHubZip w1 zipPath (f_Dest f) subDir of
                            (r, w2) \<Rightarrow> (r, snd (os_Remove w2 zipPath))))))"

text \<open>
  In \<open>githubFetch\<close> the test \<open>isFetched\<close> guards a print only: neither of its branches
  returns, and the function goes on to download in both.
\<close>

definition githubFetch :: "world \<Rightarrow> Fetcher \<Rightarrow> error option \<times> world" where
  "githubFetch w f =
     (let ref = (if f_Version f = [] then ''main'' else f_Version f);
          gitURL = f_Source f
      in if gitURL = [] then (Some (Msg ''github source URL is required''), w)
         else
           (case (let printed = isFetched w (f_Dest f) in downloadAndExtractGithub w f (''github.com/'' @ gitURL) ref) of
              (Some e, w1) \<Rightarrow> (Some (Wrap ''failed to fetch from GitHub'' e), w1)
            | (None, w1) \<Rightarrow>
                (case markAsFetched w1 f of
                   (Some e, w2) \<Rightarrow> (Some (Wrap ''failed to mark as fetched'' e), w2)
                 | (None, w2) \<Rightarrow> (None, w2))))"

text \<open>
  \<open>protodexFetch\<close> hands over to the registry client; its \<open>PullVersion\<close> is the parameter
  \<open>pull\<close> (package name, version, output directory).
\<close>

type_synonym puller = "string \<Rightarrow> string \<Rightarrow> string \<Rightarrow> world \<Rightarrow> error option \<times> world"

definition protodexFetch :: "puller \<Rightarrow> world \<Rightarrow> Fetcher \<Rightarrow> error option \<times> world" where
  "protodexFetch pull w f = pull (f_Source f) (f_Version f) (f_Dest f) w"

definition Fetch :: "puller \<Rightarrow> world \<Rightarrow> Fetcher \<Rightarrow> error option \<times> world" where
  "Fetch pull w f =
     (if f_SourceType f = SourceLocal then localFetch w f
      else if f_SourceType f = SourceGitHub then githubFetch w f
      else if f_SourceType f = SourceProtodex then protodexFetch pull w f
      else if f_SourceType f = SourceHTTP then urlFetch w f
      else if f_SourceType f = SourceGoogleWellKnown then urlFetch w f
      else (Some (Msg (''unsupported source type: '' @ f_SourceType f)), w))"

section \<open>The dependency resolver (package dependency)\<close>

record Config =
  c_Name :: string
  c_Type :: SourceType
  c_Source :: string
  c_Version :: string
  c_Path :: string

record Resolver =
  outputPath :: string

definition googleProtocVersion :: string where
  "googleProtocVersion = ''v32.0''"

definition isCached :: "world \<Rightarrow> string \<Rightarrow> bool" where
  "isCached w path =
     (if IsNotExist (os_Stat w path) then False
      else
        (case os_ReadDir w path of
           Inl e \<Rightarrow> False
         | Inr entries \<Rightarrow> length entries > 0))"

text \<open>\<open>extractFile\<close> of google.go, which returns the errors as they are.\<close>

fun extractIncludes_loop :: "world \<Rightarrow> string \<Rightarrow> zentry list \<Rightarrow> error option \<times> world" where
  "extractIncludes_loop w targetDir [] = (None, w)"
| "extractIncludes_loop w targetDir (file # rest) =
     (if \<not> HasPrefix (zname file) ''include/'' then extractIncludes_loop w targetDir rest
      else if zIsDir file then extractIncludes_loop w targetDir rest
      else
        (let relativePath = TrimPrefix (TrimPrefix (zname file) ''include/'') ''google/protobuf/'';
             targetPath = filepath_Join [targetDir, relativePath]
         in case os_MkdirAll w (filepath_Dir targetPath) of
              (Some e, w1) \<Rightarrow> (Some (Errno e), w1)
            | (None, w1) \<Rightarrow>
                (case extractFile w1 file targetPath of
                   (Some e, w2) \<Rightarrow> (Some e, w2)
                 | (None, w2) \<Rightarrow> extractIncludes_loop w2 targetDir rest)))"

definition extractIncludes :: "world \<Rightarrow> string \<Rightarrow> string \<Rightarrow> error option \<times> world" where
  "extractIncludes w zipPath targetDir =
     (case zip_OpenReader w zipPath of
        Inl e \<Rightarrow> (Some e, w)
      | Inr entries \<Rightarrow> extractIncludes_loop w targetDir entries)"

text \<open>\<open>os.WriteFile\<close>: create or truncate, then write.\<close>

definition os_WriteFile :: "world \<Rightarrow> string \<Rightarrow> string \<Rightarrow> errno option \<times> world" where
  "os_WriteFile w p d =
     (case os_Create w p of
        (Inl e, w1) \<Rightarrow> (Some e, w1)
      | (Inr place, w1) \<Rightarrow> (None, writeTo w1 place (Raw d)))"

text \<open>
  \<open>resolveGoogleWellKnownProtos\<close>; here the removal of the temporary file is deferred as
  soon as the file is created, before the body is copied.
\<close>

definition resolveGoogleWellKnownProtos :: "world \<Rightarrow> Resolver \<Rightarrow> Config \<Rightarrow> error option \<times> world" where
  "resolveGoogleWellKnownProtos w dc dep =
     (let targetDir = filepath_Join [outputPath dc, c_Name dep]
      in if isCached w targetDir then (None, w)
         else
           (let version = (if c_Version dep = [] then googleProtocVersion else c_Version dep);
                versionWithoutPrefix = TrimPrefix version ''v'';
                u = ''https://github.com/protocolbuffers/protobuf/releases/download/'' @ version
                    @ ''/protoc-'' @ versionWithoutPrefix @ ''-linux-x86_64.zip''
            in case http_Get w u of
                 (Inl e, w1) \<Rightarrow> (Some (Wrap ''failed to download includes'' e), w1)
               | (Inr resp, w1) \<Rightarrow>
                   if status resp \<noteq> 200
                   then (Some (Wrap ''failed to download includes'' (HTTPStatus (status resp))), w1)
                   else
                     (case os_CreateTemp w1 [] ''protoc-includes-'' ''.zip'' of
                        (Inl e, w2) \<Rightarrow> (Some (Errno e), w2)
                      | (Inr (name, place), w2) \<Rightarrow>
                          (case
                             (if bodyFails resp then (Some (Errno EIO), w2)
                              else
                                (case extractIncludes (writeTo w2 place (body resp)) name targetDir of
                                   (Some e, w3) \<Rightarrow> (Some e, w3)
                                 | (None, w3) \<Rightarrow>
                                     (case os_WriteFile w3
                                             (filepath_Join [targetDir, ''.protodex-complete''])
                                             googleProtocVersion of
                                        (Some e, w4) \<Rightarrow> (Some (Errno e), w4)
                                      | (None, w4) \<Rightarrow> (None, w4))))
                           of (r, w5) \<Rightarrow> (r, snd (os_Remove w5 name))))))"

definition resolveDependency_generic :: "puller \<Rightarrow> world \<Rightarrow> Resolver \<Rightarrow> Config
    \<Rightarrow> error option \<times> world" where
  "resolveDependency_generic pull w dc dep =
     (let targetDir = filepath_Join [outputPath dc, c_Name dep]
      in case NewFetcher (c_Type dep) (c_Source dep) (c_Version dep) targetDir of
           Inl e \<Rightarrow> (Some (Wrap ''failed to create fetcher'' e), w)
         | Inr fch \<Rightarrow> Fetch pull w fch)"

definition resolveDependency :: "puller \<Rightarrow> world \<Rightarrow> Resolver \<Rightarrow> Config \<Rightarrow> error option \<times> world" where
  "resolveDependency pull w dc dep =
     (if c_Type dep = SourceGoogleWellKnown then resolveGoogleWellKnownProtos w dc dep
      else resolveDependency_generic pull w dc dep)"

fun ResolveDependencies :: "puller \<Rightarrow> world \<Rightarrow> Resolver \<Rightarrow> Config list \<Rightarrow> error option \<times> world" where
  "ResolveDependencies pull w dc [] = (None, w)"
| "ResolveDependencies pull w dc (dep # deps) =
     (case resolveDependency pull w dc dep of
        (Some e, w1) \<Rightarrow> (Some (Wrap (''failed to resolve dependency '' @ c_Name dep) e), w1)
      | (None, w1) \<Rightarrow> ResolveDependencies pull w1 dc deps)"

definition ListCached :: "world \<Rightarrow> Resolver \<Rightarrow> error + string list" where
  "ListCached w dc =
     (case os_ReadDir w (outputPath dc) of
        Inl e \<Rightarrow> if e = ENOENT then Inr [] else Inl (Errno e)
      | Inr entries \<Rightarrow> Inr (map d_Name (filter d_IsDir entries)))"

section \<open>The toolchain (package protoc and the plugin configuration)\<close>

text \<open>
  What the toolchain code sees of its environment: \<open>lookPath\<close> is the search of
  \<open>exec.LookPath\<close> for a command (\<open>None\<close> when it is found, else the cause the library
  reports), \<open>runCmd\<close> runs an external command to its end
  (its error, or the environment it leaves when it succeeds), \<open>downloadProtoc\<close> is the
  download and installation of the compiler, with the same results. The shell state adds the log of the commands run, in
  order, and the lines printed.
\<close>

datatype toolenv =
  ToolEnv (lookPath: "string \<Rightarrow> error option")
          (runCmd: "string list \<Rightarrow> error + toolenv")
          (downloadProtoc: "error + toolenv")

datatype pline = Line string | LineErr string error

record shell =
  env :: toolenv
  spawned :: "string list list"
  printed :: "pline list"

definition say :: "pline \<Rightarrow> shell \<Rightarrow> shell" where
  "say l sh = sh\<lparr>printed := printed sh @ [l]\<rparr>"

text \<open>
  \<open>exec.LookPath\<close>: \<open>None\<close> when the command is found, else the error
  \<open>&exec.Error{file, cause}\<close>. \<open>ErrNotFound\<close> is the cause for a command that no directory
  of the search path holds.
\<close>

definition ErrNotFound :: error where
  "ErrNotFound = Msg ''executable file not found in $PATH''"

definition exec_LookPath :: "shell \<Rightarrow> string \<Rightarrow> error option" where
  "exec_LookPath sh file =
     (case lookPath (env sh) file of
        None \<Rightarrow> None
      | Some cause \<Rightarrow> Some (ExecError file cause))"

text \<open>\<open>cmd.Run()\<close> of a command given as its program followed by its arguments.\<close>

definition cmd_Run :: "shell \<Rightarrow> string list \<Rightarrow> error option \<times> shell" where
  "cmd_Run sh cmd =
     (case runCmd (env sh) cmd of
        Inl e \<Rightarrow> (Some e, sh\<lparr>spawned := spawned sh @ [cmd]\<rparr>)
      | Inr env1 \<Rightarrow> (None, sh\<lparr>env := env1, spawned := spawned sh @ [cmd]\<rparr>))"

subsection \<open>internal/protoc/plugin.go\<close>

text \<open>The \<open>Options\<close> map of a plugin is the list of its entries in the order the \<open>range\<close> loop visits them.\<close>

record CustomPlugin =
  cp_Name :: string
  cp_Command :: string
  cp_OutputDir :: string
  cp_Options :: "(string \<times> string) list"
  cp_Required :: bool

record Info =
  i_Name :: string
  i_CheckCmd :: "string list option"
  i_DownloadCmd :: "string list option"
  i_Filename :: string

definition installPlugin :: "shell \<Rightarrow> Info \<Rightarrow> error option \<times> shell" where
  "installPlugin sh plugin =
     (case i_DownloadCmd plugin of
        Some cmd \<Rightarrow>
          (case cmd_Run (say (Line (''Installing '' @ i_Name plugin @ '' using command: ''
                                     @ Join cmd '' '')) sh) cmd of
             (Some e, sh1) \<Rightarrow>
               (Some (Wrap (''failed to run install command for '' @ i_Name plugin) e), sh1)
           | (None, sh1) \<Rightarrow> (None, sh1))
      | None \<Rightarrow> (Some (Msg (''no download method for plugin '' @ i_Name plugin)), sh))"

text \<open>
  \<open>ensurePlugin\<close>: found on the search path, or its check command (when it has one)
  succeeds, or it is installed.
\<close>

definition ensurePlugin :: "shell \<Rightarrow> Info \<Rightarrow> error option \<times> shell" where
  "ensurePlugin sh plugin =
     (if exec_LookPath sh (i_Name plugin) = None then (None, sh)
      else
        (let install = (\<lambda>sh1.
               case installPlugin (say (Line (''Downloading '' @ i_Name plugin @ ''...'')) sh1)
                      plugin of
                 (Some e1, sh2) \<Rightarrow>
                   (Some (Wrap (''failed to download and install '' @ i_Name plugin) e1), sh2)
               | (None, sh2) \<Rightarrow> (None, sh2))
         in case i_CheckCmd plugin of
              None \<Rightarrow> install sh
            | Some cmd \<Rightarrow>
                (case cmd_Run sh cmd of
                   (None, sh1) \<Rightarrow> (None, sh1)
                 | (Some e, sh1) \<Rightarrow> install sh1)))"

definition ensureWrapped :: "shell \<Rightarrow> Info \<Rightarrow> error option \<times> shell" where
  "ensureWrapped sh plugin =
     (case ensurePlugin sh plugin of
        (Some e, sh1) \<Rightarrow> (Some (Wrap (''failed to ensure '' @ i_Name plugin) e), sh1)
      | (None, sh1) \<Rightarrow> (None, sh1))"

definition ensureSwiftPlugins :: "shell \<Rightarrow> error option \<times> shell" where
  "ensureSwiftPlugins sh =
     ensureWrapped sh \<lparr>i_Name = ''protoc-gen-swift'', i_CheckCmd = None,
       i_DownloadCmd = Some [''brew'', ''install'', ''swift-protobuf''],
       i_Filename = ''protoc-gen-swift''\<rparr>"

definition ensureTypeScriptPlugins :: "shell \<Rightarrow> error option \<times> shell" where
  "ensureTypeScriptPlugins sh =
     ensureWrapped sh \<lparr>i_Name = ''protoc-gen-ts'', i_CheckCmd = None,
       i_DownloadCmd = Some [''npm'', ''install'', ''-g'', ''ts-proto''],
       i_Filename = ''protoc-gen-ts''\<rparr>"

definition ensureJavaScriptPlugins :: "shell \<Rightarrow> error option \<times> shell" where
  "ensureJavaScriptPlugins sh =
     ensureWrapped sh \<lparr>i_Name = ''protoc-gen-es'', i_CheckCmd = None,
       i_DownloadCmd = Some [''npm'', ''install'', ''-g'', ''@bufbuild/protoc-gen-es''],
       i_Filename = ''protoc-gen-es''\<rparr>"

definition ensureDartPlugins :: "shell \<Rightarrow> error option \<times> shell" where
  "ensureDartPlugins sh =
     ensureWrapped sh \<lparr>i_Name = ''protoc-gen-dart'', i_CheckCmd = None,
       i_DownloadCmd = Some [''dart'', ''pub'', ''global'', ''activate'', ''protoc_plugin''],
       i_Filename = ''protoc-gen-dart''\<rparr>"

definition ensureGoPlugins :: "shell \<Rightarrow> error option \<times> shell" where
  "ensureGoPlugins sh =
     ensureWrapped sh \<lparr>i_Name = ''protoc-gen-go'', i_CheckCmd = None,
       i_DownloadCmd = Some [''go'', ''install'',
                             ''google.golang.org/protobuf/cmd/protoc-gen-go@latest''],
       i_Filename = ''protoc-gen-go''\<rparr>"

definition ensureRustPlugins :: "shell \<Rightarrow> error option \<times> shell" where
  "ensureRustPlugins sh =
     ensureWrapped sh \<lparr>i_Name = ''protoc-gen-rs'', i_CheckCmd = None,
       i_DownloadCmd = Some [''cargo'', ''install'', ''protobuf-codegen''],
       i_Filename = ''protoc-gen-rs''\<rparr>"

definition ensureLanguagePlugins :: "shell \<Rightarrow> string \<Rightarrow> error option \<times> shell" where
  "ensureLanguagePlugins sh language =
     (let l = ToLower language
      in if l = ''go'' then ensureGoPlugins sh
         else if l = ''dart'' then ensureDartPlugins sh
         else if l = ''rust'' then ensureRustPlugins sh
         else if l = ''swift'' then ensureSwiftPlugins sh
         else if l = ''ts'' then ensureTypeScriptPlugins sh
         else if l = ''js'' then ensureJavaScriptPlugins sh
         else (None, sh))"

definition ensureCustomPlugin :: "shell \<Rightarrow> CustomPlugin \<Rightarrow> error option" where
  "ensureCustomPlugin sh plugin =
     (case exec_LookPath sh (cp_Command plugin) of
        Some e \<Rightarrow>
          Some (Wrap (''plugin command '' @ [CHR 0x27] @ cp_Command plugin @ [CHR 0x27]
                      @ '' not found in PATH'') e)
      | None \<Rightarrow> None)"

text \<open>The loop of \<open>Process\<close> over the custom plugins; \<open>args\<close> is the vector built so far.\<close>

fun Process_loop :: "shell \<Rightarrow> string \<Rightarrow> string list \<Rightarrow> CustomPlugin list
    \<Rightarrow> (error + string list) \<times> shell" where
  "Process_loop sh outputDir args [] = (Inr args, sh)"
| "Process_loop sh outputDir args (plugin # rest) =
     (case ensureCustomPlugin sh plugin of
        Some e \<Rightarrow>
          if cp_Required plugin
          then (Inl (Wrap (''failed to ensure custom plugin '' @ cp_Name plugin) e), sh)
          else Process_loop
                 (say (LineErr (''Warning: Skipping optional plugin '' @ cp_Name plugin) e) sh)
                 outputDir args rest
      | None \<Rightarrow>
          (let dir = (if cp_OutputDir plugin = [] then outputDir else cp_OutputDir plugin)
           in Process_loop sh outputDir
                (args @ [''--'' @ cp_Name plugin @ ''_out='' @ dir]
                      @ map (\<lambda>(k, v). ''--'' @ k @ ''='' @ v) (cp_Options plugin))
                rest))"

definition Process :: "shell \<Rightarrow> string \<Rightarrow> string \<Rightarrow> CustomPlugin list
    \<Rightarrow> (error + string list) \<times> shell" where
  "Process sh language outputDir customPlugins =
     (case ensureLanguagePlugins sh language of
        (Some e, sh1) \<Rightarrow>
          (Inl (Wrap (''failed to ensure language plugins for '' @ language) e), sh1)
      | (None, sh1) \<Rightarrow>
          Process_loop sh1 outputDir [''--'' @ language @ ''_out='' @ outputDir] customPlugins)"

subsection \<open>internal/protoc/protoc.go and generator.go\<close>

record Executor =
  version :: string
  protocPath :: string
  depsPath :: string

record GenerateOptions =
  go_ProjectPath :: string
  go_Options :: "(string \<times> string) list"
  go_CustomPlugins :: "CustomPlugin list"

definition ensureProtoc :: "Executor \<Rightarrow> shell \<Rightarrow> error option \<times> shell" where
  "ensureProtoc e sh =
     (if protocPath e = [] then (Some (Msg ''protoc binary path is not set''), sh)
      else
        (case exec_LookPath sh (protocPath e) of
           None \<Rightarrow> (None, sh)
         | Some err \<Rightarrow>
             (let sh1 = say (Line (''protoc binary not found in '' @ filepath_Dir (protocPath e)
                                   @ '', downloading...'')) sh
              in case downloadProtoc (env sh1) of
                   Inl downloadErr \<Rightarrow>
                     (Some (Wrap ''protoc not found and download failed'' downloadErr), sh1)
                 | Inr env2 \<Rightarrow>
                     (case exec_LookPath (sh1\<lparr>env := env2\<rparr>) (protocPath e) of
                        Some err2 \<Rightarrow>
                          (Some (Wrap ''protoc still not executable after download'' err2),
                           sh1\<lparr>env := env2\<rparr>)
                      | None \<Rightarrow> (None, sh1\<lparr>env := env2\<rparr>)))))"

definition Run :: "Executor \<Rightarrow> shell \<Rightarrow> string list \<Rightarrow> string list \<Rightarrow> error option \<times> shell" where
  "Run e sh protoFiles args =
     (case ensureProtoc e sh of
        (Some err, sh1) \<Rightarrow> (Some err, sh1)
      | (None, sh1) \<Rightarrow>
          (let protocArgs0 = (if depsPath e \<noteq> [] then [''--proto_path='' @ depsPath e] else []);
               protocArgs = protocArgs0 @ args @ protoFiles
           in cmd_Run sh1 (protocPath e # protocArgs)))"

definition GenerateCode :: "Executor \<Rightarrow> shell \<Rightarrow> string \<Rightarrow> string list \<Rightarrow> string
    \<Rightarrow> GenerateOptions \<Rightarrow> error option \<times> shell" where
  "GenerateCode e sh language protoFiles outputDir options =
     (case ensureProtoc e sh of
        (Some err, sh1) \<Rightarrow> (Some err, sh1)
      | (None, sh1) \<Rightarrow>
          (case Process sh1 language outputDir (go_CustomPlugins options) of
             (Inl err, sh2) \<Rightarrow> (Some (Wrap ''failed to process plugins'' err), sh2)
           | (Inr pluginArgs, sh2) \<Rightarrow>
               Run e sh2 protoFiles
                 (pluginArgs @ [''--proto_path='' @ go_ProjectPath options]
                    @ map (\<lambda>(k, v). ''--'' @ k @ ''='' @ v) (go_Options options))))"

subsection \<open>internal/manager/config.go\<close>

record PluginConfig =
  pc_Name :: string
  pc_Command :: string
  pc_Options :: "(string \<times> string) list"
  pc_OutputDir :: string
  pc_Required :: bool

record LanguageConfig =
  lc_Name :: string
  lc_OutputDir :: string
  lc_Options :: "(string \<times> string) list"
  lc_Plugins :: "PluginConfig list"

text \<open>Of \<open>ProjectConfig\<close>, the languages of its generation section and its global plugins.\<close>

record ProjectConfig =
  Languages :: "LanguageConfig list"
  Plugins :: "PluginConfig list"

definition GetLanguage :: "ProjectConfig \<Rightarrow> string \<Rightarrow> LanguageConfig option" where
  "GetLanguage pc lang = find (\<lambda>l. lc_Name l = lang) (Languages pc)"

definition GetAllPlugins :: "ProjectConfig \<Rightarrow> string \<Rightarrow> PluginConfig list" where
  "GetAllPlugins pc lang =
     Plugins pc @ (case GetLanguage pc lang of None \<Rightarrow> [] | Some langConfig \<Rightarrow> lc_Plugins langConfig)"

text \<open>The conversion loop of \<open>Manager.Generate\<close>, which hands the plugins of the configuration to the executor.\<close>

definition customPluginsOf :: "ProjectConfig \<Rightarrow> string \<Rightarrow> CustomPlugin list" where
  "customPluginsOf pc lang =
     map (\<lambda>plugin. \<lparr>cp_Name = pc_Name plugin, cp_Command = pc_Command plugin,
                     cp_OutputDir = pc_OutputDir plugin, cp_Options = pc_Options plugin,
                     cp_Required = pc_Required plugin\<rparr>)
         (GetAllPlugins pc lang)"

text \<open>Whether \<open>exec.LookPath\<close> finds the command of a custom plugin.\<close>

definition pluginFound :: "shell \<Rightarrow> CustomPlugin \<Rightarrow> bool" where
  "pluginFound sh p = (lookPath (env sh) (cp_Command p) = None)"

section \<open>The extraction of a GitHub archive, in the words of the specification\<close>

text \<open>
  \<open>githubRelative root subDir file\<close> is the path, relative to the destination, under
  which an entry of the archive is extracted: the name without the top-level directory
  \<open>root\<close>, and without the requested subdirectory when there is one. It is \<open>None\<close> for
  an entry that produces no file: a directory entry, an entry outside the requested
  subdirectory, an entry whose path is empty after stripping.
\<close>

definition githubRelative :: "string \<Rightarrow> string \<Rightarrow> zentry \<Rightarrow> string option" where
  "githubRelative root subDir file =
     (if zIsDir file then None
      else if \<not> HasPrefix (zname file) (root @ ''/'') then None
      else
        (let stripped = drop (length root + 1) (zname file)
         in if subDir = [] then (if stripped = [] then None else Some stripped)
            else if HasPrefix stripped (subDir @ ''/'') \<and> length subDir + 1 < length stripped
              then Some (drop (length subDir + 1) stripped)
            else None))"

text \<open>Writing the selected entries in order: the parent directories, then the file itself.\<close>

fun writeEntries :: "world \<Rightarrow> string \<Rightarrow> (string \<times> zentry) list \<Rightarrow> error option \<times> world" where
  "writeEntries w targetDir [] = (None, w)"
| "writeEntries w targetDir ((rel, file) # rest) =
     (case os_MkdirAll w (filepath_Dir (filepath_Join [targetDir, rel])) of
        (Some e, w1) \<Rightarrow> (Some (Errno e), w1)
      | (None, w1) \<Rightarrow>
          (case extractFile w1 file (filepath_Join [targetDir, rel]) of
             (Some e, w2) \<Rightarrow> (Some (Wrap (''failed to extract '' @ rel) e), w2)
           | (None, w2) \<Rightarrow> writeEntries w2 targetDir rest))"

section \<open>What a fetch leaves in place\<close>

text \<open>
  \<open>keeps w w'\<close>: every node of the file system of \<open>w\<close> is still there in \<open>w'\<close>, with
  its kind (a directory is a directory, a file is a file whatever its content, a symbolic
  link has its target), and the working and temporary directories are the same.
\<close>

definition sameKind :: "node \<Rightarrow> node \<Rightarrow> bool" where
  "sameKind a b =
     (case a of
        Dir \<Rightarrow> b = Dir
      | File x \<Rightarrow> (\<exists>y. b = File y)
      | Symlink t \<Rightarrow> b = Symlink t)"

definition keepsFiles :: "(string list \<times> node) list \<Rightarrow> (string list \<times> node) list \<Rightarrow> bool" where
  "keepsFiles fs fs' =
     (\<forall>es n. map_of fs es = Some n \<longrightarrow> (\<exists>n'. map_of fs' es = Some n' \<and> sameKind n n'))"

definition keeps :: "world \<Rightarrow> world \<Rightarrow> bool" where
  "keeps w w' = (cwd w' = cwd w \<and> tempDir w' = tempDir w \<and> keepsFiles (files w) (files w'))"

text \<open>A temporary file: a name that resolves to a place where the world held nothing.\<close>

definition freshAt :: "world \<Rightarrow> string \<Rightarrow> bool" where
  "freshAt w name = (\<exists>place. map_of (files w) place = None \<and> resolve w False name = Inr place)"

text \<open>The assumption on the registry client: its pull removes nothing either.\<close>

definition pullKeeps :: "puller \<Rightarrow> bool" where
  "pullKeeps pull = (\<forall>name ver dir w. keeps w (snd (pull name ver dir w)))"

section \<open>Concrete worlds for the examples\<close>

text \<open>
  A small file system: a source directory with one proto file, a cache root holding one
  fetched dependency (content and marker) and a stray file, and an empty temporary
  directory. The network holds nothing.
\<close>

definition demoWorld :: world where
  "demoWorld =
     \<lparr>files = [([''tmp''], Dir), ([''work''], Dir), ([''src''], Dir), ([''src'', ''a.proto''], File (Raw ''syntax'')),
               ([''cache''], Dir), ([''cache'', ''dep''], Dir),
               ([''cache'', ''dep'', ''.protodex_fetched''], File (Raw [])),
               ([''cache'', ''dep'', ''a.proto''], File (Raw ''old'')),
               ([''cache'', ''stray.txt''], File (Raw ''x''))],
      cwd = ''/work'', getwdOk = True, tempDir = ''/tmp'',
      net = [], requests = [], randCtr = 0\<rparr>"

text \<open>A registry client whose pull does nothing and succeeds.\<close>

definition noPull :: puller where
  "noPull name ver dir w = (None, w)"

text \<open>
  Two local fetchers: one whose source and destination are the same missing path, one
  that links a new cache entry to the source directory.
\<close>

definition missingFetcher :: Fetcher where
  "missingFetcher = \<lparr>f_SourceType = SourceLocal, f_Source = ''/nosuch'', f_Version = [], f_Dest = ''/nosuch''\<rparr>"

definition linkFetcher :: Fetcher where
  "linkFetcher = \<lparr>f_SourceType = SourceLocal, f_Source = ''/src'', f_Version = [], f_Dest = ''/cache/local''\<rparr>"

definition demoResolver :: Resolver where
  "demoResolver = \<lparr>outputPath = ''/cache''\<rparr>"

definition goodLocalDep :: Config where
  "goodLocalDep = \<lparr>c_Name = ''good'', c_Type = SourceLocal, c_Source = ''/src'', c_Version = [], c_Path = []\<rparr>"

definition badLocalDep :: Config where
  "badLocalDep = \<lparr>c_Name = ''bad'', c_Type = SourceLocal, c_Source = ''/nosuch'', c_Version = [], c_Path = []\<rparr>"

definition laterLocalDep :: Config where
  "laterLocalDep = \<lparr>c_Name = ''later'', c_Type = SourceLocal, c_Source = ''/src'', c_Version = [], c_Path = []\<rparr>"

definition demoEnv :: toolenv where
  "demoEnv = ToolEnv (\<lambda>c. if c \<in> set [''protoc'', ''protoc-gen-go'', ''protoc-gen-twirp'']
                          then None else Some ErrNotFound)
                     (\<lambda>cmd. Inl (Msg ''exit status 1''))
                     (Inl (Msg ''offline''))"

definition demoShell :: shell where
  "demoShell = \<lparr>env = demoEnv, spawned = [], printed = []\<rparr>"

definition twirpPlugin :: CustomPlugin where
  "twirpPlugin = \<lparr>cp_Name = ''twirp'', cp_Command = ''protoc-gen-twirp'', cp_OutputDir = [],
                   cp_Options = [(''twirp_opt'', ''paths=source_relative'')], cp_Required = True\<rparr>"

definition optionalPlugin :: CustomPlugin where
  "optionalPlugin = \<lparr>cp_Name = ''docs'', cp_Command = ''protoc-gen-docs'', cp_OutputDir = ''./docs'',
                      cp_Options = [], cp_Required = False\<rparr>"

definition requiredPlugin :: CustomPlugin where
  "requiredPlugin = \<lparr>cp_Name = ''validate'', cp_Command = ''protoc-gen-validate'', cp_OutputDir = [],
                      cp_Options = [], cp_Required = True\<rparr>"

text \<open>
  A project configuration with one global plugin and two entries for the language
  \<open>go\<close>, of which the lookup takes the first, and one entry for \<open>ts\<close>.
\<close>

definition demoConfig :: ProjectConfig where
  "demoConfig =
     \<lparr>Languages =
        [\<lparr>lc_Name = ''ts'', lc_OutputDir = ''./gen/ts'', lc_Options = [], lc_Plugins = []\<rparr>,
         \<lparr>lc_Name = ''go'', lc_OutputDir = ''./gen/go'', lc_Options = [],
          lc_Plugins = [\<lparr>pc_Name = ''twirp'', pc_Command = ''protoc-gen-twirp'',
                         pc_Options = [(''twirp_opt'', ''paths=source_relative'')],
                         pc_OutputDir = [], pc_Required = True\<rparr>]\<rparr>,
         \<lparr>lc_Name = ''go'', lc_OutputDir = ''./other'', lc_Options = [],
          lc_Plugins = [\<lparr>pc_Name = ''validate'', pc_Command = ''protoc-gen-validate'',
                         pc_Options = [], pc_OutputDir = [], pc_Required = True\<rparr>]\<rparr>],
      Plugins = [\<lparr>pc_Name = ''docs'', pc_Command = ''protoc-gen-docs'', pc_Options = [],
                  pc_OutputDir = ''./docs'', pc_Required = False\<rparr>]\<rparr>"

definition demoExecutor :: Executor where
  "demoExecutor = \<lparr>version = ''v32.0'', protocPath = ''protoc'', depsPath = ''/deps''\<rparr>"

definition demoOptions :: GenerateOptions where
  "demoOptions = \<lparr>go_ProjectPath = ''/proj'',
                   go_Options = [(''go_opt'', ''paths=source_relative'')],
                   go_CustomPlugins = [twirpPlugin, optionalPlugin]\<rparr>"

text \<open>
  An archive as GitHub serves it, every entry under one top-level directory, and a world
  that holds it as a downloaded file.
\<close>

definition demoArchive :: "zentry list" where
  "demoArchive =
     [\<lparr>zname = ''schemas-1.2.0/'', zattrdir = True, zdata = [], zhealth = ZGood\<rparr>,
      \<lparr>zname = ''schemas-1.2.0/README.md'', zattrdir = False, zdata = ''readme'', zhealth = ZGood\<rparr>,
      \<lparr>zname = ''schemas-1.2.0/proto/'', zattrdir = False, zdata = [], zhealth = ZGood\<rparr>,
      \<lparr>zname = ''schemas-1.2.0/proto/a.proto'', zattrdir = False, zdata = ''message A'', zhealth = ZGood\<rparr>,
      \<lparr>zname = ''schemas-1.2.0/proto/v1/b.proto'', zattrdir = False, zdata = ''message B'', zhealth = ZGood\<rparr>,
      \<lparr>zname = ''schemas-1.2.0/protobuf/c.proto'', zattrdir = False, zdata = ''message C'', zhealth = ZGood\<rparr>]"

definition archiveWorld :: world where
  "archiveWorld =
     \<lparr>files = [([''tmp''], Dir), ([''tmp'', ''dl.zip''], File (Zip demoArchive)), ([''cache''], Dir)],
      cwd = ''/'', getwdOk = True, tempDir = ''/tmp'', net = [], requests = [], randCtr = 0\<rparr>"

text \<open>
  Worlds with a network: one that serves the archive of the tag \<open>v1.2.0\<close>, and one whose
  responses have status 200 and a body that fails while it is read. With them a GitHub
  fetcher whose destination is the fetched dependency, an HTTP fetcher with a fresh
  destination, and a declaration of the well-known protos.
\<close>

definition githubArchiveURL :: string where
  "githubArchiveURL = ''https://github.com/acme/schemas/archive/refs/tags/v1.2.0.zip''"

definition wellKnownURL :: string where
  "wellKnownURL =
     ''https://github.com/protocolbuffers/protobuf/releases/download/v32.0/protoc-32.0-linux-x86_64.zip''"

definition servedWorld :: world where
  "servedWorld =
     demoWorld\<lparr>net := [(githubArchiveURL, \<lparr>status = 200, body = Zip demoArchive, bodyFails = False\<rparr>)]\<rparr>"

definition brokenWorld :: world where
  "brokenWorld =
     demoWorld\<lparr>net := [(''https://example.com/schemas.zip'',
                          \<lparr>status = 200, body = Zip demoArchive, bodyFails = True\<rparr>),
                        (githubArchiveURL, \<lparr>status = 200, body = Zip demoArchive, bodyFails = True\<rparr>),
                        (wellKnownURL, \<lparr>status = 200, body = Zip demoArchive, bodyFails = True\<rparr>)]\<rparr>"

definition githubFetcher :: Fetcher where
  "githubFetcher = \<lparr>f_SourceType = SourceGitHub, f_Source = ''acme/schemas/proto'',
                     f_Version = ''v1.2.0'', f_Dest = ''/cache/dep''\<rparr>"

definition httpFetcher :: Fetcher where
  "httpFetcher = \<lparr>f_SourceType = SourceHTTP, f_Source = ''https://example.com/schemas.zip'',
                   f_Version = [], f_Dest = ''/cache/new''\<rparr>"

definition wellKnownDep :: Config where
  "wellKnownDep = \<lparr>c_Name = ''google'', c_Type = SourceGoogleWellKnown, c_Source = [],
                    c_Version = [], c_Path = []\<rparr>"

section \<open>Properties of the source parser\<close>

lemma LastIndex_absent: "c \<notin> set s \<Longrightarrow> LastIndex s [c] = None"
  by (induction s) (auto simp: HasPrefix_def)

lemma LastIndex_rightmost:
  "c \<notin> set v \<Longrightarrow> LastIndex (b @ c # v) [c] = Some (length b)"
  by (induction b) (auto simp: HasPrefix_def LastIndex_absent)

lemma LastIndex_char:
  "LastIndex s [c] = Some i \<Longrightarrow> i < length s \<and> s ! i = c \<and> c \<notin> set (drop (Suc i) s)"
proof (induction s arbitrary: i)
  case Nil
  then show ?case by simp
next
  case (Cons a s)
  show ?case
  proof (cases "LastIndex s [c]")
    case None
    with Cons.prems have i: "i = 0" and a: "a = c" by (auto simp: HasPrefix_def split: if_splits)
    have "c \<notin> set s"
    proof
      assume "c \<in> set s"
      then obtain b v where "s = b @ c # v" "c \<notin> set v" by (metis split_list_last)
      then have "LastIndex s [c] \<noteq> None"
        by (induction b arbitrary: s) (auto simp: HasPrefix_def LastIndex_absent)
      with None show False by simp
    qed
    with i a show ?thesis by simp
  next
    case (Some j)
    with Cons.prems have "i = Suc j" by simp
    with Cons.IH [OF Some] show ?thesis by simp
  qed
qed

lemma validOptionalPort_bytes:
  "validOptionalPort p \<Longrightarrow> x \<in> set p \<Longrightarrow> x = CHR '':'' \<or> isDigit x"
  by (cases p) (auto simp: validOptionalPort_def list_all_iff)

text \<open>
  Where \<open>parseHost\<close> cuts the host name out of an IP literal, the last opening bracket
  stands before the last closing one: the slice of the library is in range.
\<close>

lemma parseHost_brackets_in_order:
  assumes "LastIndex host ''['' = Some i" and "LastIndex host '']'' = Some j"
    and "validOptionalPort (drop (Suc j) host)"
  shows "i < j"
proof (rule ccontr)
  assume "\<not> i < j"
  from LastIndex_char [OF assms(1)] have i: "i < length host" "host ! i = CHR ''[''" by simp_all
  from LastIndex_char [OF assms(2)] have j: "j < length host" "host ! j = CHR '']''" by simp_all
  from i(2) j(2) have "i \<noteq> j" by auto
  with \<open>\<not> i < j\<close> have "Suc j \<le> i" by simp
  with i(1) have "host ! i \<in> set (drop (Suc j) host)"
    by (auto simp: in_set_conv_nth intro!: exI [of _ "i - Suc j"])
  from validOptionalPort_bytes [OF assms(3) this] i(2) show False
    by (simp add: isDigit_def)
qed

text \<open>
  The URI parser on user information and on IP literals: an ill-formed escape in the
  user information and a bracketed host that is no IPv6 address are errors, which
  \<open>ParseSource\<close> returns as an invalid source format; an IPv6 literal with a port is a
  host.
\<close>

lemma url_Parse_userinfo_escape:
  "url_Parse ''https://us%er@example.com/x.zip'' =
     Inl (URLError ''parse'' ''https://us%er@example.com/x.zip'' (EscapeError ''%er''))"
  by code_simp

lemma ParseSource_userinfo_escape:
  "ParseSource ''https://us%er@example.com/x.zip@v1'' =
     Inl (Wrap ''invalid source format''
            (URLError ''parse'' ''https://us%er@example.com/x.zip'' (EscapeError ''%er'')))"
  by code_simp

lemma url_Parse_bracketed_name:
  "url_Parse ''http://[zz]/x'' =
     Inl (URLError ''parse'' ''http://[zz]/x'' (Wrap ''invalid host'' (ParseAddrError ''zz'')))"
  by code_simp

lemma url_Parse_bracketed_IPv4:
  "url_Parse ''http://[192.0.2.1]/x'' =
     Inl (URLError ''parse'' ''http://[192.0.2.1]/x'' (Msg ''invalid IP-literal''))"
  by code_simp

lemma url_Parse_IPv6_literal:
  "url_Parse ''http://[2001:db8::1]:8080/x.zip'' =
     Inr \<lparr>Scheme = ''http'', Opaque = [], Host = ''[2001:db8::1]:8080'', Path = ''/x.zip''\<rparr>"
  by code_simp

text \<open>
  Claim C5, amended. An input prefixed \<open>file://\<close> is a Local source whose locator is
  the rest of the input, and an input shaped like a local path (it starts with \<open>./\<close>,
  \<open>../\<close> or \<open>/\<close>, or holds neither \<open>://\<close> nor \<open>@\<close>) is a Local source whose locator
  is the input itself; in both cases the version is empty and nothing is split off at
  an \<open>@\<close>. Any other input that is not empty is cut at its rightmost \<open>@\<close>: what
  follows is the version, what precedes is parsed as a URI. The scheme of that URI,
  lower-cased, selects the type through the table of \<open>schemeType\<close>, the source is the
  URI's host followed by its path, and an empty or absent version is replaced by the
  default of the type: \<open>main\<close> for GitHub, \<open>latest\<close> for the registry, empty for every
  other type. In particular \<open>github://acme/schemas@v1.2.0\<close> parses to type GitHub, source
  \<open>acme/schemas\<close> and version \<open>v1.2.0\<close>.
\<close>

theorem ParseSource_version_split:
  "(\<forall>b v u t. CHR ''@'' \<notin> set v \<and> \<not> HasPrefix (b @ ''@'' @ v) ''file://''
       \<and> \<not> isLocalPath (b @ ''@'' @ v)
       \<and> url_Parse b = Inr u \<and> Scheme u \<noteq> [] \<and> schemeType (ToLower (Scheme u)) = Some t
     \<longrightarrow> ParseSource (b @ ''@'' @ v) =
           Inr \<lparr>si_Type = t, si_Source = Host u @ Path u,
                si_Version = (if v = [] then getDefaultVersion t else v),
                si_Raw = b @ ''@'' @ v\<rparr>)
   \<and> (\<forall>s u t. CHR ''@'' \<notin> set s \<and> s \<noteq> [] \<and> \<not> HasPrefix s ''file://'' \<and> \<not> isLocalPath s
       \<and> url_Parse s = Inr u \<and> Scheme u \<noteq> [] \<and> schemeType (ToLower (Scheme u)) = Some t
     \<longrightarrow> ParseSource s =
           Inr \<lparr>si_Type = t, si_Source = Host u @ Path u,
                si_Version = getDefaultVersion t, si_Raw = s\<rparr>)
   \<and> (\<forall>s. HasPrefix s ''file://''
     \<longrightarrow> ParseSource s =
           Inr \<lparr>si_Type = SourceLocal, si_Source = drop (length ''file://'') s, si_Version = [], si_Raw = s\<rparr>)
   \<and> (\<forall>s. s \<noteq> [] \<and> \<not> HasPrefix s ''file://'' \<and> isLocalPath s
     \<longrightarrow> ParseSource s =
           Inr \<lparr>si_Type = SourceLocal, si_Source = s, si_Version = [], si_Raw = s\<rparr>)
   \<and> schemeType ''http'' = Some SourceHTTP \<and> schemeType ''https'' = Some SourceHTTP
   \<and> schemeType ''github'' = Some SourceGitHub
   \<and> schemeType ''google-well-known'' = Some SourceGoogleWellKnown
   \<and> schemeType ''protodex'' = Some SourceProtodex
   \<and> schemeType ''file'' = Some SourceLocal
   \<and> getDefaultVersion SourceGitHub = ''main''
   \<and> getDefaultVersion SourceProtodex = ''latest''
   \<and> (\<forall>t. t \<noteq> SourceGitHub \<and> t \<noteq> SourceProtodex \<longrightarrow> getDefaultVersion t = [])
   \<and> ParseSource ''github://acme/schemas@v1.2.0'' =
        Inr \<lparr>si_Type = SourceGitHub, si_Source = ''acme/schemas'', si_Version = ''v1.2.0'',
             si_Raw = ''github://acme/schemas@v1.2.0''\<rparr>
   \<and> ParseSource ''github://acme/schemas'' =
        Inr \<lparr>si_Type = SourceGitHub, si_Source = ''acme/schemas'', si_Version = ''main'',
             si_Raw = ''github://acme/schemas''\<rparr>
   \<and> ParseSource ''protodex://svc'' =
        Inr \<lparr>si_Type = SourceProtodex, si_Source = ''svc'', si_Version = ''latest'',
             si_Raw = ''protodex://svc''\<rparr>"
proof (intro conjI allI impI)
  fix b v u t
  assume h: "CHR ''@'' \<notin> set v \<and> \<not> HasPrefix (b @ ''@'' @ v) ''file://''
       \<and> \<not> isLocalPath (b @ ''@'' @ v)
       \<and> url_Parse b = Inr u \<and> Scheme u \<noteq> [] \<and> schemeType (ToLower (Scheme u)) = Some t"
  then have li: "LastIndex (b @ ''@'' @ v) ''@'' = Some (length b)"
    using LastIndex_rightmost [of "CHR ''@''" v b] by simp
  from h show "ParseSource (b @ ''@'' @ v) =
           Inr \<lparr>si_Type = t, si_Source = Host u @ Path u,
                si_Version = (if v = [] then getDefaultVersion t else v),
                si_Raw = b @ ''@'' @ v\<rparr>"
    unfolding ParseSource_def li by simp
next
  fix s u t
  assume h: "CHR ''@'' \<notin> set s \<and> s \<noteq> [] \<and> \<not> HasPrefix s ''file://'' \<and> \<not> isLocalPath s
       \<and> url_Parse s = Inr u \<and> Scheme u \<noteq> [] \<and> schemeType (ToLower (Scheme u)) = Some t"
  then have li: "LastIndex s ''@'' = None"
    using LastIndex_absent [of "CHR ''@''" s] by simp
  from h show "ParseSource s =
           Inr \<lparr>si_Type = t, si_Source = Host u @ Path u,
                si_Version = getDefaultVersion t, si_Raw = s\<rparr>"
    unfolding ParseSource_def li by simp
next
  fix s
  assume "HasPrefix s ''file://''"
  moreover from this have "s \<noteq> []" by (auto simp: HasPrefix_def)
  ultimately show "ParseSource s =
           Inr \<lparr>si_Type = SourceLocal, si_Source = drop (length ''file://'') s, si_Version = [], si_Raw = s\<rparr>"
    by (simp add: ParseSource_def TrimPrefix_def)
next
  fix s
  assume "s \<noteq> [] \<and> \<not> HasPrefix s ''file://'' \<and> isLocalPath s"
  then show "ParseSource s =
           Inr \<lparr>si_Type = SourceLocal, si_Source = s, si_Version = [], si_Raw = s\<rparr>"
    by (simp add: ParseSource_def)
next
  fix t :: string
  assume "t \<noteq> SourceGitHub \<and> t \<noteq> SourceProtodex"
  then show "getDefaultVersion t = []" by (simp add: getDefaultVersion_def)
qed (code_simp+)

theorem ParseSource_version_split_witness:
  "CHR ''@'' \<notin> set ''v2.1.0'' \<and> \<not> HasPrefix ''protodex://my-service@v2.1.0'' ''file://''
   \<and> \<not> isLocalPath ''protodex://my-service@v2.1.0''
   \<and> url_Parse ''protodex://my-service'' =
        Inr \<lparr>Scheme = ''protodex'', Opaque = [], Host = ''my-service'', Path = []\<rparr>
   \<and> ParseSource ''protodex://my-service@v2.1.0'' =
        Inr \<lparr>si_Type = SourceProtodex, si_Source = ''my-service'', si_Version = ''v2.1.0'',
             si_Raw = ''protodex://my-service@v2.1.0''\<rparr>
   \<and> CHR ''@'' \<notin> set ''https://example.com/schemas.zip''
   \<and> \<not> HasPrefix ''https://example.com/schemas.zip'' ''file://''
   \<and> \<not> isLocalPath ''https://example.com/schemas.zip''
   \<and> url_Parse ''https://example.com/schemas.zip'' =
        Inr \<lparr>Scheme = ''https'', Opaque = [], Host = ''example.com'', Path = ''/schemas.zip''\<rparr>
   \<and> ParseSource ''https://example.com/schemas.zip'' =
        Inr \<lparr>si_Type = SourceHTTP, si_Source = ''example.com/schemas.zip'', si_Version = [],
             si_Raw = ''https://example.com/schemas.zip''\<rparr>
   \<and> HasPrefix ''file:///abs/protos'' ''file://''
   \<and> ParseSource ''file:///abs/protos'' =
        Inr \<lparr>si_Type = SourceLocal, si_Source = ''/abs/protos'', si_Version = [],
             si_Raw = ''file:///abs/protos''\<rparr>
   \<and> isLocalPath ''../protos@v1'' \<and> \<not> HasPrefix ''../protos@v1'' ''file://''
   \<and> ParseSource ''../protos@v1'' =
        Inr \<lparr>si_Type = SourceLocal, si_Source = ''../protos@v1'', si_Version = [],
             si_Raw = ''../protos@v1''\<rparr>
   \<and> getDefaultVersion SourceHTTP = []"
proof -
  have a: "CHR ''@'' \<notin> set ''v2.1.0''" by simp
  have b: "\<not> HasPrefix (''protodex://my-service'' @ ''@'' @ ''v2.1.0'') ''file://''" by code_simp
  have c: "\<not> isLocalPath (''protodex://my-service'' @ ''@'' @ ''v2.1.0'')" by code_simp
  have d: "url_Parse ''protodex://my-service'' =
        Inr \<lparr>Scheme = ''protodex'', Opaque = [], Host = ''my-service'', Path = []\<rparr>" by code_simp
  have e: "schemeType (ToLower ''protodex'') = Some SourceProtodex" by code_simp
  have r1: "ParseSource (''protodex://my-service'' @ ''@'' @ ''v2.1.0'') =
        Inr \<lparr>si_Type = SourceProtodex, si_Source = ''my-service'' @ [],
             si_Version = (if ''v2.1.0'' = [] then getDefaultVersion SourceProtodex else ''v2.1.0''),
             si_Raw = ''protodex://my-service'' @ ''@'' @ ''v2.1.0''\<rparr>"
    using ParseSource_version_split [THEN conjunct1, rule_format,
        of "''v2.1.0''" "''protodex://my-service''"
           "\<lparr>Scheme = ''protodex'', Opaque = [], Host = ''my-service'', Path = []\<rparr>" SourceProtodex]
      a b c d e by simp
  have a2: "CHR ''@'' \<notin> set ''https://example.com/schemas.zip''" by simp
  have b2: "\<not> HasPrefix ''https://example.com/schemas.zip'' ''file://''" by code_simp
  have c2: "\<not> isLocalPath ''https://example.com/schemas.zip''" by code_simp
  have d2: "url_Parse ''https://example.com/schemas.zip'' =
        Inr \<lparr>Scheme = ''https'', Opaque = [], Host = ''example.com'', Path = ''/schemas.zip''\<rparr>"
    by code_simp
  have e2: "schemeType (ToLower ''https'') = Some SourceHTTP" by code_simp
  have dv: "getDefaultVersion SourceHTTP = []"
    using ParseSource_version_split [THEN conjunct2, THEN conjunct2, THEN conjunct2, THEN conjunct2,
        THEN conjunct2, THEN conjunct2, THEN conjunct2, THEN conjunct2, THEN conjunct2,
        THEN conjunct2, THEN conjunct2, THEN conjunct2, THEN conjunct1, rule_format, of SourceHTTP]
    by simp
  have r2: "ParseSource ''https://example.com/schemas.zip'' =
        Inr \<lparr>si_Type = SourceHTTP, si_Source = ''example.com/schemas.zip'', si_Version = [],
             si_Raw = ''https://example.com/schemas.zip''\<rparr>"
    using ParseSource_version_split [THEN conjunct2, THEN conjunct1, rule_format,
        of "''https://example.com/schemas.zip''"
           "\<lparr>Scheme = ''https'', Opaque = [], Host = ''example.com'', Path = ''/schemas.zip''\<rparr>"
           SourceHTTP]
      a2 b2 c2 d2 e2 dv by simp
  have f3: "HasPrefix ''file:///abs/protos'' ''file://''" by code_simp
  have r3: "ParseSource ''file:///abs/protos'' =
        Inr \<lparr>si_Type = SourceLocal, si_Source = ''/abs/protos'', si_Version = [],
             si_Raw = ''file:///abs/protos''\<rparr>"
    using ParseSource_version_split [THEN conjunct2, THEN conjunct2, THEN conjunct1, rule_format,
        of "''file:///abs/protos''"] f3 by simp
  have l4: "isLocalPath ''../protos@v1''" by code_simp
  have f4: "\<not> HasPrefix ''../protos@v1'' ''file://''" by code_simp
  have r4: "ParseSource ''../protos@v1'' =
        Inr \<lparr>si_Type = SourceLocal, si_Source = ''../protos@v1'', si_Version = [],
             si_Raw = ''../protos@v1''\<rparr>"
    using ParseSource_version_split [THEN conjunct2, THEN conjunct2, THEN conjunct2, THEN conjunct1,
        rule_format, of "''../protos@v1''"] l4 f4 by simp
  from a b c d r1 a2 b2 c2 d2 r2 f3 r3 l4 f4 r4 dv show ?thesis by simp
qed

text \<open>
  Claim C5 as stated fails: in \<open>file://acme/schemas@v1.2.0\<close> the rightmost \<open>@\<close> stands at
  index 19 and what precedes it is a URI of scheme \<open>file\<close>, host \<open>acme\<close> and path
  \<open>/schemas\<close>, a scheme of the table; yet the result keeps \<open>@v1.2.0\<close> in the source and has
  an empty version. The same holds of the local path \<open>./schemas@v1.2.0\<close>.
\<close>

theorem ParseSource_file_prefix_counterexample:
  "LastIndex ''file://acme/schemas@v1.2.0'' ''@'' = Some 19
   \<and> take 19 ''file://acme/schemas@v1.2.0'' = ''file://acme/schemas''
   \<and> url_Parse ''file://acme/schemas'' =
        Inr \<lparr>Scheme = ''file'', Opaque = [], Host = ''acme'', Path = ''/schemas''\<rparr>
   \<and> schemeType ''file'' = Some SourceLocal
   \<and> ParseSource ''file://acme/schemas@v1.2.0'' =
        Inr \<lparr>si_Type = SourceLocal, si_Source = ''acme/schemas@v1.2.0'', si_Version = [],
             si_Raw = ''file://acme/schemas@v1.2.0''\<rparr>
   \<and> ParseSource ''./schemas@v1.2.0'' =
        Inr \<lparr>si_Type = SourceLocal, si_Source = ''./schemas@v1.2.0'', si_Version = [],
             si_Raw = ''./schemas@v1.2.0''\<rparr>"
  by code_simp

section \<open>Nothing but its own temporary file is removed by a fetch\<close>

lemma sameKind_refl [simp]: "sameKind n n"
  by (cases n) (auto simp: sameKind_def)

lemma sameKind_trans: "sameKind a b \<Longrightarrow> sameKind b c \<Longrightarrow> sameKind a c"
  by (cases a; cases b) (auto simp: sameKind_def)

lemma keepsFiles_refl [simp]: "keepsFiles fs fs"
  by (auto simp: keepsFiles_def)

lemma keepsFiles_trans: "keepsFiles a b \<Longrightarrow> keepsFiles b c \<Longrightarrow> keepsFiles a c"
  unfolding keepsFiles_def by (meson sameKind_trans)

lemma keeps_refl [simp]: "keeps w w"
  by (simp add: keeps_def)

lemma keeps_trans: "keeps a b \<Longrightarrow> keeps b c \<Longrightarrow> keeps a c"
  by (auto simp: keeps_def intro: keepsFiles_trans)

lemma keepsFiles_Dir: "keepsFiles fs fs' \<Longrightarrow> map_of fs k = Some Dir \<Longrightarrow> map_of fs' k = Some Dir"
  by (fastforce simp: keepsFiles_def sameKind_def)

lemma keepsFiles_File:
  "keepsFiles fs fs' \<Longrightarrow> map_of fs k = Some (File x) \<Longrightarrow> \<exists>y. map_of fs' k = Some (File y)"
  by (fastforce simp: keepsFiles_def sameKind_def)

lemma keepsFiles_Symlink:
  "keepsFiles fs fs' \<Longrightarrow> map_of fs k = Some (Symlink t) \<Longrightarrow> map_of fs' k = Some (Symlink t)"
  by (fastforce simp: keepsFiles_def sameKind_def)

lemma walk_keeps:
  "keepsFiles fs fs' \<Longrightarrow> walk fuel fs follow cur cs = Inr es \<Longrightarrow>
   \<not> (follow \<and> es \<noteq> [] \<and> map_of fs es = None \<and> (\<exists>t. map_of fs' es = Some (Symlink t))) \<Longrightarrow>
   walk fuel fs' follow cur cs = Inr es"
proof (induction fuel fs follow cur cs arbitrary: es rule: walk.induct)
  case (1 fuel fs follow cur)
  then show ?case by simp
next
  case (2 fuel fs follow cur c cs)
  note K = "2.prems"(1) and W = "2.prems"(2) and C = "2.prems"(3)
  show ?case
  proof (cases "c = [] \<or> c = ''.''")
    case True
    with 2 show ?thesis by simp
  next
    case nd: False
    show ?thesis
    proof (cases "c = ''..''")
      case True
      with nd 2 show ?thesis by simp
    next
      case ndd: False
      show ?thesis
      proof (cases "map_of fs (cur @ [c])")
        case None
        with nd ndd W have cs: "cs = []" and es: "es = cur @ [c]"
          by (auto split: if_splits)
        show ?thesis
        proof (cases "map_of fs' (cur @ [c])")
          case n2: None
          with nd ndd cs es show ?thesis by simp
        next
          case (Some n')
          with nd ndd cs es None C show ?thesis
            by (cases n') auto
        qed
      next
        case (Some n)
        show ?thesis
        proof (cases n)
          case Dir
          with Some K have "map_of fs' (cur @ [c]) = Some Dir" by (simp add: keepsFiles_Dir)
          with nd ndd Some Dir 2 show ?thesis by simp
        next
          case (File x)
          with Some K obtain y where "map_of fs' (cur @ [c]) = Some (File y)"
            using keepsFiles_File by blast
          with nd ndd Some File W show ?thesis by (auto split: if_splits)
        next
          case (Symlink t)
          with Some K have s': "map_of fs' (cur @ [c]) = Some (Symlink t)"
            by (simp add: keepsFiles_Symlink)
          show ?thesis
          proof (cases "cs = [] \<and> \<not> follow")
            case True
            with nd ndd Some Symlink s' W show ?thesis by simp
          next
            case nf: False
            show ?thesis
            proof (cases fuel)
              case 0
              with nd ndd Some Symlink nf W show ?thesis by auto
            next
              case (Suc k)
              with nd ndd Some Symlink nf W
              have "walk k fs follow (if IsAbs t then [] else cur) (Split t (CHR ''/'') @ cs) = Inr es"
                by auto
              from "2.IH"(4) [OF nd ndd Some Symlink _ Suc K this C] nf
              have "walk k fs' follow (if IsAbs t then [] else cur) (Split t (CHR ''/'') @ cs) = Inr es"
                by auto
              with nd ndd s' nf Suc show ?thesis by auto
            qed
          qed
        qed
      qed
    qed
  qed
qed

lemma map_of_filter_key:
  "map_of (filter (\<lambda>(k, v). k \<noteq> es) fs) k = (if k = es then None else map_of fs k)"
  by (induction fs) auto

lemma map_of_putNode:
  "map_of (files (putNode es n w)) k = (if k = es then Some n else map_of (files w) k)"
  by (simp add: putNode_def map_of_filter_key)

lemma map_of_dropNode:
  "map_of (files (dropNode es w)) k = (if k = es then None else map_of (files w) k)"
  by (simp add: dropNode_def map_of_filter_key)

lemma putNode_fields [simp]:
  "cwd (putNode es n w) = cwd w" "tempDir (putNode es n w) = tempDir w"
  by (simp_all add: putNode_def)

lemma dropNode_fields [simp]:
  "cwd (dropNode es w) = cwd w" "tempDir (dropNode es w) = tempDir w"
  by (simp_all add: dropNode_def)

lemma nodeAt_None: "nodeAt w es = None \<Longrightarrow> es \<noteq> [] \<and> map_of (files w) es = None"
  by (auto simp: nodeAt_def split: if_splits)

lemma nodeAt_File: "nodeAt w es = Some (File x) \<Longrightarrow> es \<noteq> [] \<and> map_of (files w) es = Some (File x)"
  by (auto simp: nodeAt_def split: if_splits)

lemma keeps_putNode_new: "map_of (files w) es = None \<Longrightarrow> keeps w (putNode es n w)"
  by (auto simp: keeps_def keepsFiles_def map_of_putNode)

lemma sameKind_File [simp]: "sameKind (File x) (File y)"
  by (simp add: sameKind_def)

lemma keeps_putNode_file:
  "map_of (files w) es = Some (File x) \<Longrightarrow> keeps w (putNode es (File c) w)"
  by (auto simp: keeps_def keepsFiles_def map_of_putNode)

lemma keeps_dropNode_absent:
  "keeps w w' \<Longrightarrow> map_of (files w) es = None \<Longrightarrow> keeps w (dropNode es w')"
  by (auto simp: keeps_def keepsFiles_def map_of_dropNode)

lemma os_Symlink_keeps: "os_Symlink w a b = (r, w') \<Longrightarrow> keeps w w'"
  by (auto simp: os_Symlink_def keeps_putNode_new dest: nodeAt_None split: sum.splits option.splits)

lemma os_Mkdir_keeps: "os_Mkdir w p = (r, w') \<Longrightarrow> keeps w w'"
  by (auto simp: os_Mkdir_def keeps_putNode_new dest: nodeAt_None split: sum.splits option.splits)

lemma mkdirAll_rev_keeps: "mkdirAll_rev w rooted cs = (r, w') \<Longrightarrow> keeps w w'"
proof (induction cs arbitrary: w r w')
  case Nil
  then show ?case by simp
next
  case (Cons c cs)
  let ?p = "(if rooted then ''/'' else []) @ Join (rev (c # cs)) ''/''"
  show ?case
  proof (cases "os_Stat w ?p")
    case (Inr n)
    with Cons.prems show ?thesis by (cases n) (auto simp: Let_def)
  next
    case (Inl e)
    obtain r1 w1 where m: "mkdirAll_rev w rooted cs = (r1, w1)" by (cases "mkdirAll_rev w rooted cs")
    from Cons.IH [OF m] have k1: "keeps w w1" .
    show ?thesis
    proof (cases r1)
      case (Some e1)
      with Inl m Cons.prems k1 show ?thesis by (auto simp: Let_def)
    next
      case None
      obtain r2 w2 where d: "os_Mkdir w1 ?p = (r2, w2)" by (cases "os_Mkdir w1 ?p")
      from os_Mkdir_keeps [OF d] k1 have k2: "keeps w w2" by (rule keeps_trans [rotated])
      from Inl m None d Cons.prems have "w' = w2"
        by (auto simp: Let_def split: option.splits sum.splits node.splits)
      with k2 show ?thesis by simp
    qed
  qed
qed

lemma os_MkdirAll_keeps: "os_MkdirAll w p = (r, w') \<Longrightarrow> keeps w w'"
  by (auto simp: os_MkdirAll_def mkdirAll_rev_keeps split: if_splits)

lemma os_Create_keeps:
  assumes "os_Create w p = (r, w')"
  shows "keeps w w'" and "r = Inr place \<Longrightarrow> \<exists>x. map_of (files w') place = Some (File x)"
proof -
  show "keeps w w'"
  proof (cases "resolve w True p")
    case (Inl e)
    with assms show ?thesis by (simp add: os_Create_def)
  next
    case (Inr es)
    show ?thesis
    proof (cases "nodeAt w es")
      case None
      with Inr assms nodeAt_None [OF None] show ?thesis
        by (auto simp: os_Create_def keeps_putNode_new)
    next
      case (Some n)
      with Inr assms show ?thesis
        by (cases n) (auto simp: os_Create_def keeps_putNode_file dest: nodeAt_File)
    qed
  qed
  show "r = Inr place \<Longrightarrow> \<exists>x. map_of (files w') place = Some (File x)"
    using assms
    by (auto simp: os_Create_def map_of_putNode split: sum.splits option.splits node.splits)
qed

lemma writeTo_keeps: "map_of (files w) place = Some (File x) \<Longrightarrow> keeps w (writeTo w place c)"
  by (simp add: writeTo_def keeps_putNode_file)

lemma extractFile_keeps: "extractFile w ze p = (r, w') \<Longrightarrow> keeps w w'"
proof -
  assume a: "extractFile w ze p = (r, w')"
  obtain r1 w1 where c: "os_Create w p = (r1, w1)" by (cases "os_Create w p")
  note k = os_Create_keeps [OF c]
  show ?thesis
  proof (cases r1)
    case (Inl e)
    with a c k(1) show ?thesis by (auto simp: extractFile_def split: if_splits)
  next
    case (Inr place)
    from k(2) [OF Inr] obtain x where "map_of (files w1) place = Some (File x)" by blast
    from writeTo_keeps [OF this] k(1) have "keeps w (writeTo w1 place (Raw (zdata ze)))"
      by (rule keeps_trans [rotated])
    with a c Inr k(1) show ?thesis by (auto simp: extractFile_def split: if_splits)
  qed
qed

lemma os_WriteFile_keeps: "os_WriteFile w p d = (r, w') \<Longrightarrow> keeps w w'"
proof -
  assume a: "os_WriteFile w p d = (r, w')"
  obtain r1 w1 where c: "os_Create w p = (r1, w1)" by (cases "os_Create w p")
  note k = os_Create_keeps [OF c]
  show ?thesis
  proof (cases r1)
    case (Inl e)
    with a c k(1) show ?thesis by (auto simp: os_WriteFile_def)
  next
    case (Inr place)
    from k(2) [OF Inr] obtain x where "map_of (files w1) place = Some (File x)" by blast
    from writeTo_keeps [OF this] k(1) have "keeps w (writeTo w1 place (Raw d))"
      by (rule keeps_trans [rotated])
    with a c Inr show ?thesis by (auto simp: os_WriteFile_def)
  qed
qed

lemma markAsFetched_keeps: "markAsFetched w f = (r, w') \<Longrightarrow> keeps w w'"
  using os_Create_keeps(1)
  by (fastforce simp: markAsFetched_def split: prod.splits sum.splits)

lemma localFetch_keeps: "localFetch w f = (r, w') \<Longrightarrow> keeps w w'"
  using os_Symlink_keeps
  by (fastforce simp: localFetch_def split: sum.splits if_splits prod.splits option.splits)

lemma extractZip_loop_keeps: "extractZip_loop w destPath entries = (r, w') \<Longrightarrow> keeps w w'"
proof (induction entries arbitrary: w)
  case Nil
  then show ?case by simp
next
  case (Cons ze rest)
  let ?d = "filepath_Join [destPath, zname ze]"
  show ?case
  proof (cases "zIsDir ze \<or> zhealth ze = ZOpenFails")
    case True
    with Cons show ?thesis by (auto split: if_splits)
  next
    case False
    obtain r1 w1 where m: "os_MkdirAll w (filepath_Dir ?d) = (r1, w1)"
      by (cases "os_MkdirAll w (filepath_Dir ?d)")
    note k1 = os_MkdirAll_keeps [OF m]
    show ?thesis
    proof (cases r1)
      case (Some e)
      with False m k1 Cons.prems show ?thesis by (auto simp: Let_def simp del: filepath_Join.simps)
    next
      case None
      obtain r2 w2 where c: "os_Create w1 ?d = (r2, w2)" by (cases "os_Create w1 ?d")
      note k2 = os_Create_keeps [OF c]
      from k1 k2(1) have k12: "keeps w w2" by (rule keeps_trans)
      show ?thesis
      proof (cases r2)
        case (Inl e)
        with False m None c k12 Cons.prems show ?thesis
          by (auto simp: Let_def simp del: filepath_Join.simps)
      next
        case (Inr place)
        from k2(2) [OF Inr] obtain x where "map_of (files w2) place = Some (File x)" by blast
        from writeTo_keeps [OF this] k12 have k3: "keeps w (writeTo w2 place (Raw (zdata ze)))"
          by (rule keeps_trans [rotated])
        show ?thesis
        proof (cases "zhealth ze = ZReadFails")
          case True
          with False m None c Inr k12 Cons.prems show ?thesis
            by (auto simp: Let_def simp del: filepath_Join.simps)
        next
          case nrf: False
          with False m None c Inr Cons.prems
          have "extractZip_loop (writeTo w2 place (Raw (zdata ze))) destPath rest = (r, w')"
            by (auto simp: Let_def simp del: filepath_Join.simps)
          from Cons.IH [OF this] k3 show ?thesis by (rule keeps_trans [rotated])
        qed
      qed
    qed
  qed
qed

lemma writeEntries_keeps: "writeEntries w targetDir sel = (r, w') \<Longrightarrow> keeps w w'"
proof (induction sel arbitrary: w)
  case Nil
  then show ?case by simp
next
  case (Cons a rest)
  obtain rel ze where a: "a = (rel, ze)" by (cases a)
  let ?t = "filepath_Join [targetDir, rel]"
  obtain r1 w1 where m: "os_MkdirAll w (filepath_Dir ?t) = (r1, w1)"
    by (cases "os_MkdirAll w (filepath_Dir ?t)")
  note k1 = os_MkdirAll_keeps [OF m]
  show ?case
  proof (cases r1)
    case (Some e)
    with a m k1 Cons.prems show ?thesis by (auto simp del: filepath_Join.simps)
  next
    case None
    obtain r2 w2 where x: "extractFile w1 ze ?t = (r2, w2)" by (cases "extractFile w1 ze ?t")
    from k1 extractFile_keeps [OF x] have k2: "keeps w w2" by (rule keeps_trans)
    show ?thesis
    proof (cases r2)
      case (Some e)
      with a m None x k2 Cons.prems show ?thesis by (auto simp del: filepath_Join.simps)
    next
      case n2: None
      with a m None x Cons.prems have "writeEntries w2 targetDir rest = (r, w')"
        by (auto simp del: filepath_Join.simps)
      from Cons.IH [OF this] k2 show ?thesis by (rule keeps_trans [rotated])
    qed
  qed
qed

lemma extractGitHubZip_loop_keeps:
  "extractGitHubZip_loop w rp targetDir subDir entries = (r, w') \<Longrightarrow> keeps w w'"
proof (induction entries arbitrary: w)
  case Nil
  then show ?case by simp
next
  case (Cons ze rest)
  define rel0 where "rel0 = TrimPrefix (zname ze) rp"
  define rel where "rel = (if subDir \<noteq> [] then TrimPrefix rel0 (subDir @ ''/'') else rel0)"
  show ?case
  proof (cases "zIsDir ze \<or> (subDir \<noteq> [] \<and> \<not> HasPrefix rel0 (subDir @ ''/'')) \<or> rel = []")
    case True
    with Cons.prems have "extractGitHubZip_loop w rp targetDir subDir rest = (r, w')"
      by (auto simp: Let_def rel0_def rel_def simp del: filepath_Join.simps split: if_splits)
    from Cons.IH [OF this] show ?thesis .
  next
    case False
    let ?t = "filepath_Join [targetDir, rel]"
    obtain r1 w1 where m: "os_MkdirAll w (filepath_Dir ?t) = (r1, w1)"
      by (cases "os_MkdirAll w (filepath_Dir ?t)")
    note k1 = os_MkdirAll_keeps [OF m]
    from False Cons.prems have step:
      "(case os_MkdirAll w (filepath_Dir ?t) of
          (Some e, w1) \<Rightarrow> (Some (Errno e), w1)
        | (None, w1) \<Rightarrow>
            (case extractFile w1 ze ?t of
               (Some e, w2) \<Rightarrow> (Some (Wrap (''failed to extract '' @ rel) e), w2)
             | (None, w2) \<Rightarrow> extractGitHubZip_loop w2 rp targetDir subDir rest)) = (r, w')"
      by (auto simp: Let_def rel0_def rel_def simp del: filepath_Join.simps split: if_splits
          cong: prod.case_cong option.case_cong)
    show ?thesis
    proof (cases r1)
      case (Some e)
      with m k1 step show ?thesis by auto
    next
      case None
      obtain r2 w2 where x: "extractFile w1 ze ?t = (r2, w2)" by (cases "extractFile w1 ze ?t")
      from k1 extractFile_keeps [OF x] have k2: "keeps w w2" by (rule keeps_trans)
      show ?thesis
      proof (cases r2)
        case (Some e)
        with m None x k2 step show ?thesis by auto
      next
        case n2: None
        with m None x step have "extractGitHubZip_loop w2 rp targetDir subDir rest = (r, w')"
          by auto
        from Cons.IH [OF this] k2 show ?thesis by (rule keeps_trans [rotated])
      qed
    qed
  qed
qed

lemma extractIncludes_loop_keeps:
  "extractIncludes_loop w targetDir entries = (r, w') \<Longrightarrow> keeps w w'"
proof (induction entries arbitrary: w)
  case Nil
  then show ?case by simp
next
  case (Cons ze rest)
  show ?case
  proof (cases "\<not> HasPrefix (zname ze) ''include/'' \<or> zIsDir ze")
    case True
    with Cons.prems have "extractIncludes_loop w targetDir rest = (r, w')"
      by (auto split: if_splits)
    from Cons.IH [OF this] show ?thesis .
  next
    case False
    let ?t = "filepath_Join [targetDir,
                TrimPrefix (TrimPrefix (zname ze) ''include/'') ''google/protobuf/'']"
    obtain r1 w1 where m: "os_MkdirAll w (filepath_Dir ?t) = (r1, w1)"
      by (cases "os_MkdirAll w (filepath_Dir ?t)")
    note k1 = os_MkdirAll_keeps [OF m]
    show ?thesis
    proof (cases r1)
      case (Some e)
      with False m k1 Cons.prems show ?thesis by (auto simp: Let_def simp del: filepath_Join.simps)
    next
      case None
      obtain r2 w2 where x: "extractFile w1 ze ?t = (r2, w2)" by (cases "extractFile w1 ze ?t")
      from k1 extractFile_keeps [OF x] have k2: "keeps w w2" by (rule keeps_trans)
      show ?thesis
      proof (cases r2)
        case (Some e)
        with False m None x k2 Cons.prems show ?thesis
          by (auto simp: Let_def simp del: filepath_Join.simps)
      next
        case n2: None
        with False m None x Cons.prems have "extractIncludes_loop w2 targetDir rest = (r, w')"
          by (auto simp: Let_def simp del: filepath_Join.simps)
        from Cons.IH [OF this] k2 show ?thesis by (rule keeps_trans [rotated])
      qed
    qed
  qed
qed

lemma extractZip_keeps: "extractZip w z d = (r, w') \<Longrightarrow> keeps w w'"
  by (auto simp: extractZip_def extractZip_loop_keeps split: sum.splits)

lemma extractGitHubZip_keeps: "extractGitHubZip w z d s = (r, w') \<Longrightarrow> keeps w w'"
  by (auto simp: extractGitHubZip_def extractGitHubZip_loop_keeps split: sum.splits)

lemma extractIncludes_keeps: "extractIncludes w z d = (r, w') \<Longrightarrow> keeps w w'"
  by (auto simp: extractIncludes_def extractIncludes_loop_keeps split: sum.splits)

lemma resolve_cong:
  "files a = files b \<Longrightarrow> cwd a = cwd b \<Longrightarrow> resolve a follow p = resolve b follow p"
  by (simp add: resolve_def)

lemma resolve_keeps:
  assumes "keeps w w'" and "resolve w False p = Inr es"
  shows "resolve w' False p = Inr es"
proof -
  from assms(1) have c: "cwd w' = cwd w" and k: "keepsFiles (files w) (files w')"
    by (simp_all add: keeps_def)
  from assms(2) have ne: "p \<noteq> []" by (auto simp: resolve_def split: if_splits)
  with assms(2) have "walk 40 (files w) False []
      (Split (if IsAbs p then p else cwd w @ ''/'' @ p) (CHR ''/'')) = Inr es"
    by (simp add: resolve_def)
  from walk_keeps [OF k this] have "walk 40 (files w') False []
      (Split (if IsAbs p then p else cwd w @ ''/'' @ p) (CHR ''/'')) = Inr es" by simp
  with ne show ?thesis unfolding resolve_def c by simp
qed

lemma http_Get_keeps: "http_Get w u = (r, w') \<Longrightarrow> files w' = files w \<and> cwd w' = cwd w \<and> tempDir w' = tempDir w"
  by (auto simp: http_Get_def Let_def split: option.splits)

lemma keeps_same_files: "files w' = files w \<Longrightarrow> cwd w' = cwd w \<Longrightarrow> tempDir w' = tempDir w \<Longrightarrow> keeps w w'"
  by (simp add: keeps_def)

lemma createTemp_try_post:
  "createTemp_try k w dir pre suf = (r, w') \<Longrightarrow>
   keeps w w' \<and>
   (\<forall>name place. r = Inr (name, place) \<longrightarrow>
      map_of (files w) place = None \<and> resolve w False name = Inr place
      \<and> (\<exists>x. map_of (files w') place = Some (File x)))"
proof (induction k arbitrary: w)
  case 0
  then show ?case by auto
next
  case (Suc k)
  define name where "name = filepath_Join [dir, pre @ decimal (randCtr w) @ suf]"
  define w1 where "w1 = w\<lparr>randCtr := Suc (randCtr w)\<rparr>"
  have f1: "files w1 = files w" "cwd w1 = cwd w" "tempDir w1 = tempDir w" by (simp_all add: w1_def)
  then have k1: "keeps w w1" by (simp add: keeps_same_files)
  have rc: "\<And>p. resolve w1 False p = resolve w False p" using f1 by (simp add: resolve_def)
  show ?case
  proof (cases "resolve w1 False name")
    case (Inl e)
    with Suc.prems k1 show ?thesis
      by (auto simp: Let_def name_def [symmetric] w1_def [symmetric] simp del: filepath_Join.simps)
  next
    case (Inr es)
    show ?thesis
    proof (cases "nodeAt w1 es")
      case (Some n)
      with Inr Suc.prems have "createTemp_try k w1 dir pre suf = (r, w')"
        by (auto simp: Let_def name_def [symmetric] w1_def [symmetric] simp del: filepath_Join.simps)
      from Suc.IH [OF this] k1 f1 rc show ?thesis
        by (auto intro: keeps_trans)
    next
      case None
      from nodeAt_None [OF None] have n: "es \<noteq> []" "map_of (files w1) es = None" by simp_all
      from None Inr Suc.prems have r: "r = Inr (name, es)" and w': "w' = putNode es (File (Raw [])) w1"
        by (auto simp: Let_def name_def [symmetric] w1_def [symmetric] simp del: filepath_Join.simps)
      from n(2) have "keeps w1 w'" unfolding w' by (rule keeps_putNode_new)
      with k1 have "keeps w w'" by (rule keeps_trans)
      moreover have "map_of (files w') es = Some (File (Raw []))"
        unfolding w' by (simp add: map_of_putNode)
      ultimately show ?thesis using r n f1 Inr rc by auto
    qed
  qed
qed

lemma os_CreateTemp_post:
  "os_CreateTemp w dir pre suf = (r, w') \<Longrightarrow>
   keeps w w' \<and>
   (\<forall>name place. r = Inr (name, place) \<longrightarrow>
      map_of (files w) place = None \<and> resolve w False name = Inr place
      \<and> (\<exists>x. map_of (files w') place = Some (File x)))"
  unfolding os_CreateTemp_def by (rule createTemp_try_post)

lemma freshAt_cong: "files a = files b \<Longrightarrow> cwd a = cwd b \<Longrightarrow> freshAt a n = freshAt b n"
  by (simp add: freshAt_def resolve_cong [of a b])

lemma os_Remove_fresh_keeps:
  assumes "keeps w w'" and "freshAt w name"
  shows "keeps w (snd (os_Remove w' name))"
proof -
  from assms(2) obtain place where p: "map_of (files w) place = None" "resolve w False name = Inr place"
    by (auto simp: freshAt_def)
  from resolve_keeps [OF assms(1) p(2)] have "resolve w' False name = Inr place" .
  then show ?thesis
    using assms(1) p(1) by (auto simp: os_Remove_def keeps_dropNode_absent split: option.splits)
qed

lemma download_post:
  assumes "download w u = (r, w')"
  shows "keeps w w'" and "r = Inr name \<Longrightarrow> freshAt w name"
proof -
  obtain g w1 where g: "http_Get w u = (g, w1)" by (cases "http_Get w u")
  note h = http_Get_keeps [OF g]
  then have k1: "keeps w w1" by (simp add: keeps_same_files)
  have both: "keeps w w' \<and> (r = Inr name \<longrightarrow> freshAt w name)"
  proof (cases g)
    case (Inl e)
    with g assms k1 show ?thesis by (auto simp: download_def)
  next
    case (Inr resp)
    show ?thesis
    proof (cases "status resp \<noteq> 200")
      case True
      with g Inr assms k1 show ?thesis by (auto simp: download_def)
    next
      case False
      obtain t w2 where t: "os_CreateTemp w1 [] ''protodex-download-'' ''.zip'' = (t, w2)"
        by (cases "os_CreateTemp w1 [] ''protodex-download-'' ''.zip''")
      note c = os_CreateTemp_post [OF t]
      from k1 c have k2: "keeps w w2" by (blast intro: keeps_trans)
      show ?thesis
      proof (cases t)
        case (Inl e)
        with g Inr False t assms k2 show ?thesis by (auto simp: download_def)
      next
        case tr: (Inr np)
        obtain nm place where np: "np = (nm, place)" by (cases np)
        from c tr np have fr: "map_of (files w1) place = None" "resolve w1 False nm = Inr place"
          and fl: "\<exists>x. map_of (files w2) place = Some (File x)" by auto
        from fr h have fresh: "freshAt w nm"
          by (auto simp: freshAt_def resolve_cong [of w1 w])
        show ?thesis
        proof (cases "bodyFails resp")
          case True
          with g Inr False t tr np assms k2 show ?thesis by (auto simp: download_def)
        next
          case nb: False
          from fl obtain x where "map_of (files w2) place = Some (File x)" by blast
          from writeTo_keeps [OF this] k2 have "keeps w (writeTo w2 place (body resp))"
            by (rule keeps_trans [rotated])
          with g Inr False t tr np nb assms fresh show ?thesis by (auto simp: download_def)
        qed
      qed
    qed
  qed
  from both show "keeps w w'" by simp
  from both show "r = Inr name \<Longrightarrow> freshAt w name" by simp
qed

lemma downloadAndExtract_keeps:
  assumes "downloadAndExtract w f = (r, w')"
  shows "keeps w w'"
proof -
  obtain d w1 where d: "download w (f_Source f) = (d, w1)" by (cases "download w (f_Source f)")
  note p = download_post [OF d]
  show ?thesis
  proof (cases d)
    case (Inl e)
    with d assms p(1) show ?thesis by (auto simp: downloadAndExtract_def)
  next
    case (Inr zipPath)
    obtain x w2 where x: "extractZip w1 zipPath (f_Dest f) = (x, w2)"
      by (cases "extractZip w1 zipPath (f_Dest f)")
    from p(1) extractZip_keeps [OF x] have "keeps w w2" by (rule keeps_trans)
    from os_Remove_fresh_keeps [OF this p(2) [OF Inr]]
    have "keeps w (snd (os_Remove w2 zipPath))" .
    with d Inr x assms show ?thesis
      by (auto simp: downloadAndExtract_def split: option.splits)
  qed
qed

lemma downloadAndExtractGithub_keeps:
  assumes "downloadAndExtractGithub w f g b = (r, w')"
  shows "keeps w w'"
proof -
  define githubURL1 where "githubURL1 = TrimSuffix (TrimPrefix (TrimPrefix (TrimPrefix g ''https://'')
                          ''http://'') ''git@'') ''.git''"
  define githubURL where "githubURL = (if HasPrefix githubURL1 ''github.com:''
                       then Replace1 githubURL1 ''github.com:'' ''github.com/''
                       else githubURL1)"
  define parts where "parts = Split (TrimPrefix githubURL ''github.com/'') (CHR ''/'')"
  define subDir where "subDir = (if length parts > 2 then Join (drop 2 parts) ''/'' else [])"
  define version where "version = (if b = [] then ''main'' else b)"
  define u where "u = (if HasPrefix version ''v''
                           then ''https://github.com/'' @ parts ! 0 @ ''/'' @ parts ! 1
                                @ ''/archive/refs/tags/'' @ version @ ''.zip''
                           else ''https://github.com/'' @ parts ! 0 @ ''/'' @ parts ! 1
                                @ ''/archive/refs/heads/'' @ TrimPrefix version ''v'' @ ''.zip'')"
  show ?thesis
  proof (cases "\<not> HasPrefix githubURL ''github.com/'' \<or> length parts < 2")
    case True
    with assms show ?thesis
      unfolding downloadAndExtractGithub_def Let_def githubURL1_def [symmetric]
        githubURL_def [symmetric] parts_def [symmetric]
      by (auto split: if_splits)
  next
    case False
    with assms have eq: "(case download w u of
                       (Inl e, w1) \<Rightarrow> (Some e, w1)
                     | (Inr zipPath, w1) \<Rightarrow>
                         (case extractGitHubZip w1 zipPath (f_Dest f) subDir of
                            (r, w2) \<Rightarrow> (r, snd (os_Remove w2 zipPath)))) = (r, w')"
      unfolding downloadAndExtractGithub_def Let_def githubURL1_def [symmetric]
        githubURL_def [symmetric] parts_def [symmetric] subDir_def [symmetric]
        version_def [symmetric] u_def [symmetric]
      by (simp split: if_splits)
    obtain d w1 where d: "download w u = (d, w1)" by (cases "download w u")
    note p = download_post [OF d]
    show ?thesis
    proof (cases d)
      case (Inl e)
      with d eq p(1) show ?thesis by auto
    next
      case (Inr zipPath)
      obtain x w2 where x: "extractGitHubZip w1 zipPath (f_Dest f) subDir = (x, w2)"
        by (cases "extractGitHubZip w1 zipPath (f_Dest f) subDir")
      from p(1) extractGitHubZip_keeps [OF x] have "keeps w w2" by (rule keeps_trans)
      from os_Remove_fresh_keeps [OF this p(2) [OF Inr]]
      have "keeps w (snd (os_Remove w2 zipPath))" .
      with d Inr x eq show ?thesis by auto
    qed
  qed
qed

lemma urlFetch_keeps:
  assumes "urlFetch w f = (r, w')"
  shows "keeps w w'"
proof (cases "url_Parse (f_Source f)")
  case (Inl e)
  with assms show ?thesis by (simp add: urlFetch_def)
next
  case (Inr u)
  show ?thesis
  proof (cases "(Scheme u \<noteq> ''http'' \<and> Scheme u \<noteq> ''https'') \<or> isFetched w (f_Dest f)")
    case True
    with Inr assms show ?thesis by (auto simp: urlFetch_def split: if_splits)
  next
    case False
    obtain d w1 where d: "downloadAndExtract w f = (d, w1)" by (cases "downloadAndExtract w f")
    note k1 = downloadAndExtract_keeps [OF d]
    show ?thesis
    proof (cases d)
      case (Some e)
      with Inr False d k1 assms show ?thesis by (auto simp: urlFetch_def)
    next
      case None
      obtain m w2 where m: "markAsFetched w1 f = (m, w2)" by (cases "markAsFetched w1 f")
      from k1 markAsFetched_keeps [OF m] have "keeps w w2" by (rule keeps_trans)
      with Inr False d None m assms show ?thesis
        by (auto simp: urlFetch_def split: option.splits)
    qed
  qed
qed

lemma githubFetch_keeps:
  assumes "githubFetch w f = (r, w')"
  shows "keeps w w'"
proof (cases "f_Source f = []")
  case True
  with assms show ?thesis by (simp add: githubFetch_def Let_def)
next
  case False
  define ref where "ref = (if f_Version f = [] then ''main'' else f_Version f)"
  obtain d w1 where d: "downloadAndExtractGithub w f (''github.com/'' @ f_Source f) ref = (d, w1)"
    by (cases "downloadAndExtractGithub w f (''github.com/'' @ f_Source f) ref")
  note k1 = downloadAndExtractGithub_keeps [OF d]
  show ?thesis
  proof (cases d)
    case (Some e)
    with False d k1 assms show ?thesis by (auto simp: githubFetch_def Let_def ref_def)
  next
    case None
    obtain m w2 where m: "markAsFetched w1 f = (m, w2)" by (cases "markAsFetched w1 f")
    from k1 markAsFetched_keeps [OF m] have "keeps w w2" by (rule keeps_trans)
    with False d None m assms show ?thesis
      by (auto simp: githubFetch_def Let_def ref_def split: option.splits)
  qed
qed

lemma Fetch_keeps:
  assumes "pullKeeps pull" and "Fetch pull w f = (r, w')"
  shows "keeps w w'"
proof -
  from assms(1) have "keeps w (snd (protodexFetch pull w f))"
    by (simp add: pullKeeps_def protodexFetch_def)
  with assms(2) show ?thesis
    by (auto simp: Fetch_def localFetch_keeps githubFetch_keeps urlFetch_keeps split: if_splits)
qed

lemma resolveGoogleWellKnownProtos_keeps:
  assumes "resolveGoogleWellKnownProtos w dc dep = (r, w')"
  shows "keeps w w'"
proof -
  define targetDir where "targetDir = filepath_Join [outputPath dc, c_Name dep]"
  define version where "version = (if c_Version dep = [] then googleProtocVersion else c_Version dep)"
  define u where "u = ''https://github.com/protocolbuffers/protobuf/releases/download/'' @ version
                    @ ''/protoc-'' @ TrimPrefix version ''v'' @ ''-linux-x86_64.zip''"
  note unf = resolveGoogleWellKnownProtos_def Let_def targetDir_def [symmetric]
    version_def [symmetric] u_def [symmetric]
  show ?thesis
  proof (cases "isCached w targetDir")
    case True
    with assms show ?thesis unfolding unf by simp
  next
    case False
    obtain g w1 where g: "http_Get w u = (g, w1)" by (cases "http_Get w u")
    note h = http_Get_keeps [OF g]
    then have k1: "keeps w w1" by (simp add: keeps_same_files)
    show ?thesis
    proof (cases g)
      case (Inl e)
      with False g k1 assms show ?thesis unfolding unf by auto
    next
      case (Inr resp)
      show ?thesis
      proof (cases "status resp \<noteq> 200")
        case True
        with False g Inr k1 assms show ?thesis unfolding unf by auto
      next
        case ok: False
        obtain t w2 where t: "os_CreateTemp w1 [] ''protoc-includes-'' ''.zip'' = (t, w2)"
          by (cases "os_CreateTemp w1 [] ''protoc-includes-'' ''.zip''")
        note c = os_CreateTemp_post [OF t]
        from k1 c have k2: "keeps w w2" by (blast intro: keeps_trans)
        show ?thesis
        proof (cases t)
          case (Inl e)
          with False g Inr ok t k2 assms show ?thesis unfolding unf by auto
        next
          case tr: (Inr np)
          obtain nm place where np: "np = (nm, place)" by (cases np)
          from c tr np have fr: "map_of (files w1) place = None" "resolve w1 False nm = Inr place"
            and fl: "\<exists>x. map_of (files w2) place = Some (File x)" by auto
          from fr h have fresh: "freshAt w nm"
            by (auto simp: freshAt_def resolve_cong [of w1 w])
          define body5 where "body5 =
             (if bodyFails resp then (Some (Errno EIO), w2)
              else
                (case extractIncludes (writeTo w2 place (body resp)) nm targetDir of
                   (Some e, w3) \<Rightarrow> (Some e, w3)
                 | (None, w3) \<Rightarrow>
                     (case os_WriteFile w3 (filepath_Join [targetDir, ''.protodex-complete''])
                             googleProtocVersion of
                        (Some e, w4) \<Rightarrow> (Some (Errno e), w4)
                      | (None, w4) \<Rightarrow> (None, w4))))"
          have k5: "keeps w (snd body5)"
          proof (cases "bodyFails resp")
            case True
            with k2 show ?thesis by (simp add: body5_def)
          next
            case nb: False
            from fl obtain x where "map_of (files w2) place = Some (File x)" by blast
            from writeTo_keeps [OF this] k2 have k3: "keeps w (writeTo w2 place (body resp))"
              by (rule keeps_trans [rotated])
            obtain x3 w3 where x3: "extractIncludes (writeTo w2 place (body resp)) nm targetDir = (x3, w3)"
              by (cases "extractIncludes (writeTo w2 place (body resp)) nm targetDir")
            from k3 extractIncludes_keeps [OF x3] have k4: "keeps w w3" by (rule keeps_trans)
            show ?thesis
            proof (cases x3)
              case (Some e)
              with nb x3 k4 show ?thesis by (simp add: body5_def)
            next
              case None
              obtain x4 w4 where x4: "os_WriteFile w3 (filepath_Join [targetDir, ''.protodex-complete''])
                             googleProtocVersion = (x4, w4)"
                by (cases "os_WriteFile w3 (filepath_Join [targetDir, ''.protodex-complete''])
                             googleProtocVersion")
              from k4 os_WriteFile_keeps [OF x4] have "keeps w w4" by (rule keeps_trans)
              with nb x3 None x4 show ?thesis
                by (auto simp: body5_def simp del: filepath_Join.simps split: option.splits)
            qed
          qed
          from os_Remove_fresh_keeps [OF k5 fresh] have k6: "keeps w (snd (os_Remove (snd body5) nm))" .
          from False g Inr ok t tr np assms have "w' = snd (os_Remove (snd body5) nm)"
            unfolding unf body5_def
            by (auto simp del: filepath_Join.simps split: prod.splits)
          with k6 show ?thesis by simp
        qed
      qed
    qed
  qed
qed

lemma resolveDependency_keeps:
  assumes "pullKeeps pull" and "resolveDependency pull w dc d = (r, w')"
  shows "keeps w w'"
  using assms Fetch_keeps [OF assms(1)] resolveGoogleWellKnownProtos_keeps
  by (auto simp: resolveDependency_def resolveDependency_generic_def NewFetcher_def Let_def
      simp del: filepath_Join.simps split: if_splits)

lemma ResolveDependencies_keeps:
  assumes "pullKeeps pull"
  shows "ResolveDependencies pull w dc deps = (r, w') \<Longrightarrow> keeps w w'"
proof (induction deps arbitrary: w)
  case Nil
  then show ?case by simp
next
  case (Cons d deps)
  obtain r1 w1 where s: "resolveDependency pull w dc d = (r1, w1)"
    by (cases "resolveDependency pull w dc d")
  note k1 = resolveDependency_keeps [OF assms s]
  show ?case
  proof (cases r1)
    case (Some e)
    with s Cons.prems k1 show ?thesis by auto
  next
    case None
    with s Cons.prems have "ResolveDependencies pull w1 dc deps = (r, w')" by simp
    from Cons.IH [OF this] k1 show ?thesis by (rule keeps_trans [rotated])
  qed
qed

lemma keepsFiles_member:
  assumes "keepsFiles fs fs'" and "(k, v) \<in> set fs"
  shows "\<exists>v'. (k, v') \<in> set fs'"
proof -
  from assms(2) obtain n where "map_of fs k = Some n"
    by (metis weak_map_of_SomeI)
  with assms(1) obtain n' where "map_of fs' k = Some n'" by (auto simp: keepsFiles_def)
  then show ?thesis by (blast dest: map_of_SomeD)
qed

lemma set_childNames:
  "set (childNames w es) = (\<lambda>kv. last (fst kv)) ` {kv \<in> set (files w). fst kv \<noteq> [] \<and> butlast (fst kv) = es}"
  by (force simp: childNames_def)

lemma childNames_keeps:
  assumes "keeps w w'" and "childNames w es \<noteq> []"
  shows "childNames w' es \<noteq> []"
proof -
  from assms(2) have "set (childNames w es) \<noteq> {}" by simp
  then obtain k v where kv: "(k, v) \<in> set (files w)" "k \<noteq> []" "butlast k = es"
    unfolding set_childNames by auto
  from assms(1) have "keepsFiles (files w) (files w')" by (simp add: keeps_def)
  from keepsFiles_member [OF this kv(1)] obtain v' where "(k, v') \<in> set (files w')" by blast
  with kv have "last k \<in> set (childNames w' es)" unfolding set_childNames by force
  then show ?thesis by auto
qed

lemma isCached_keeps:
  assumes "keeps w w'" and "isCached w p"
  shows "isCached w' p"
proof -
  from assms(2) obtain es where es: "resolve w True p = Inr es" "nodeAt w es = Some Dir"
      "childNames w es \<noteq> []"
    by (auto simp: isCached_def os_ReadDir_def split: if_splits sum.splits option.splits node.splits)
  from assms(1) have c: "cwd w' = cwd w" and k: "keepsFiles (files w) (files w')"
    by (simp_all add: keeps_def)
  from es(1) have ne: "p \<noteq> []" by (auto simp: resolve_def split: if_splits)
  with es(1) have wk: "walk 40 (files w) True []
      (Split (if IsAbs p then p else cwd w @ ''/'' @ p) (CHR ''/'')) = Inr es"
    by (simp add: resolve_def)
  have nd: "nodeAt w' es = Some Dir"
    using es(2) k by (auto simp: nodeAt_def keepsFiles_Dir split: if_splits)
  have cond: "\<not> (True \<and> es \<noteq> [] \<and> map_of (files w) es = None
      \<and> (\<exists>t. map_of (files w') es = Some (Symlink t)))"
    using es(2) by (auto simp: nodeAt_def split: if_splits)
  from walk_keeps [OF k wk cond] have "walk 40 (files w') True []
      (Split (if IsAbs p then p else cwd w @ ''/'' @ p) (CHR ''/'')) = Inr es" .
  with ne have r': "resolve w' True p = Inr es" unfolding resolve_def c by simp
  from childNames_keeps [OF assms(1) es(3)] have "childNames w' es \<noteq> []" .
  with r' nd show ?thesis
    by (simp add: isCached_def os_ReadDir_def os_Stat_def IsNotExist_def)
qed

section \<open>Properties of the dependency cache listing\<close>

lemma ReadDir_ListCached:
  "os_ReadDir w (outputPath dc) = Inr entries \<Longrightarrow>
   ListCached w dc = Inr (map d_Name (filter d_IsDir entries))"
  by (simp add: ListCached_def)

lemma Stat_missing_ReadDir:
  "IsNotExist (os_Stat w p) \<Longrightarrow> os_ReadDir w p = Inl ENOENT"
  by (auto simp: IsNotExist_def os_Stat_def os_ReadDir_def split: sum.splits option.splits)

lemma filter_map_dirent:
  "map d_Name (filter d_IsDir (map (\<lambda>n. \<lparr>d_Name = n, d_IsDir = P n\<rparr>) ns)) = filter P ns"
  by (induction ns) auto

text \<open>
  Claim C10. \<open>ListCached\<close> returns the names of those entries of the cache root that
  are directories themselves, in the order of the directory listing; entries that are
  not directories (a stray file) are left out. When the cache root does not exist the
  result is the empty list and no error.
\<close>

theorem ListCached_directories:
  "(\<forall>entries. os_ReadDir w (outputPath dc) = Inr entries
       \<longrightarrow> ListCached w dc = Inr (map d_Name (filter d_IsDir entries)))
   \<and> (\<forall>es. resolve w True (outputPath dc) = Inr es \<and> nodeAt w es = Some Dir
       \<longrightarrow> ListCached w dc =
             Inr (filter (\<lambda>n. nodeAt w (es @ [n]) = Some Dir) (childNames w es)))
   \<and> (IsNotExist (os_Stat w (outputPath dc)) \<longrightarrow> ListCached w dc = Inr [])"
proof (intro conjI allI impI)
  fix entries
  assume "os_ReadDir w (outputPath dc) = Inr entries"
  then show "ListCached w dc = Inr (map d_Name (filter d_IsDir entries))"
    by (rule ReadDir_ListCached)
next
  fix es
  assume h: "resolve w True (outputPath dc) = Inr es \<and> nodeAt w es = Some Dir"
  then have "os_ReadDir w (outputPath dc) =
      Inr (map (\<lambda>n. \<lparr>d_Name = n, d_IsDir = (nodeAt w (es @ [n]) = Some Dir)\<rparr>) (childNames w es))"
    by (simp add: os_ReadDir_def)
  then show "ListCached w dc =
      Inr (filter (\<lambda>n. nodeAt w (es @ [n]) = Some Dir) (childNames w es))"
    by (simp add: ListCached_def filter_map_dirent)
next
  assume "IsNotExist (os_Stat w (outputPath dc))"
  then show "ListCached w dc = Inr []"
    by (simp add: ListCached_def Stat_missing_ReadDir)
qed

theorem ListCached_directories_witness:
  "os_ReadDir demoWorld ''/cache'' =
     Inr [\<lparr>d_Name = ''dep'', d_IsDir = True\<rparr>, \<lparr>d_Name = ''stray.txt'', d_IsDir = False\<rparr>]
   \<and> ListCached demoWorld \<lparr>outputPath = ''/cache''\<rparr> = Inr [''dep'']
   \<and> IsNotExist (os_Stat demoWorld ''/nocache'')
   \<and> ListCached demoWorld \<lparr>outputPath = ''/nocache''\<rparr> = Inr []"
proof -
  have a: "os_ReadDir demoWorld (outputPath \<lparr>outputPath = ''/cache''\<rparr>) =
     Inr [\<lparr>d_Name = ''dep'', d_IsDir = True\<rparr>, \<lparr>d_Name = ''stray.txt'', d_IsDir = False\<rparr>]"
    by code_simp
  have b: "IsNotExist (os_Stat demoWorld (outputPath \<lparr>outputPath = ''/nocache''\<rparr>))"
    by code_simp
  from ListCached_directories [of demoWorld "\<lparr>outputPath = ''/cache''\<rparr>", THEN conjunct1, rule_format, OF a]
  have c: "ListCached demoWorld \<lparr>outputPath = ''/cache''\<rparr> = Inr [''dep'']" by simp
  from ListCached_directories [of demoWorld "\<lparr>outputPath = ''/nocache''\<rparr>", THEN conjunct2, THEN conjunct2, rule_format, OF b]
  have d: "ListCached demoWorld \<lparr>outputPath = ''/nocache''\<rparr> = Inr []" .
  from a b c d show ?thesis by simp
qed

section \<open>Properties of the fetcher constructor\<close>

lemma localFetch_same_path:
  assumes "filepath_Abs w s = Inr p" and "\<not> IsNotExist (os_Stat w p)"
  shows "localFetch w \<lparr>f_SourceType = t, f_Source = s, f_Version = v, f_Dest = s\<rparr> = (None, w)"
  using assms by (simp add: localFetch_def)

text \<open>
  Claim C9. \<open>NewFetcher\<close> for a Local source with an empty destination stores the
  source string as the destination, and \<open>Fetch\<close> on that fetcher succeeds and leaves
  the world as it is whenever the absolute source path is not reported missing. For
  every other source type, and for a Local source with a destination, the destination
  is stored as given.
\<close>

theorem NewFetcher_local_default_dest:
  "NewFetcher SourceLocal source ver [] =
     Inr \<lparr>f_SourceType = SourceLocal, f_Source = source, f_Version = ver, f_Dest = source\<rparr>
   \<and> (\<forall>w p pull. filepath_Abs w source = Inr p \<and> \<not> IsNotExist (os_Stat w p)
        \<longrightarrow> (\<exists>f. NewFetcher SourceLocal source ver [] = Inr f \<and> Fetch pull w f = (None, w)))
   \<and> (\<forall>t dest. t \<noteq> SourceLocal
        \<longrightarrow> NewFetcher t source ver dest =
              Inr \<lparr>f_SourceType = t, f_Source = source, f_Version = ver, f_Dest = dest\<rparr>)
   \<and> (\<forall>dest. dest \<noteq> []
        \<longrightarrow> NewFetcher SourceLocal source ver dest =
              Inr \<lparr>f_SourceType = SourceLocal, f_Source = source, f_Version = ver, f_Dest = dest\<rparr>)"
proof (intro conjI allI impI)
  show "NewFetcher SourceLocal source ver [] =
     Inr \<lparr>f_SourceType = SourceLocal, f_Source = source, f_Version = ver, f_Dest = source\<rparr>"
    by (simp add: NewFetcher_def cmp_Or_def)
next
  fix w p pull
  assume h: "filepath_Abs w source = Inr p \<and> \<not> IsNotExist (os_Stat w p)"
  have "NewFetcher SourceLocal source ver [] =
     Inr \<lparr>f_SourceType = SourceLocal, f_Source = source, f_Version = ver, f_Dest = source\<rparr>"
    by (simp add: NewFetcher_def cmp_Or_def)
  moreover have "Fetch pull w \<lparr>f_SourceType = SourceLocal, f_Source = source, f_Version = ver,
      f_Dest = source\<rparr> = (None, w)"
    using h localFetch_same_path [of w source p] by (simp add: Fetch_def)
  ultimately show "\<exists>f. NewFetcher SourceLocal source ver [] = Inr f \<and> Fetch pull w f = (None, w)"
    by blast
next
  fix t :: string and dest
  assume "t \<noteq> SourceLocal"
  then show "NewFetcher t source ver dest =
              Inr \<lparr>f_SourceType = t, f_Source = source, f_Version = ver, f_Dest = dest\<rparr>"
    by (simp add: NewFetcher_def)
next
  fix dest :: string
  assume "dest \<noteq> []"
  then show "NewFetcher SourceLocal source ver dest =
              Inr \<lparr>f_SourceType = SourceLocal, f_Source = source, f_Version = ver, f_Dest = dest\<rparr>"
    by (simp add: NewFetcher_def cmp_Or_def)
qed

theorem NewFetcher_local_default_dest_witness:
  "filepath_Abs demoWorld ''/src'' = Inr ''/src''
   \<and> os_Stat demoWorld ''/src'' = Inr Dir
   \<and> (\<exists>f. NewFetcher SourceLocal ''/src'' [] [] = Inr f \<and> f_Dest f = ''/src''
           \<and> Fetch noPull demoWorld f = (None, demoWorld))
   \<and> NewFetcher SourceGitHub ''acme/schemas'' ''main'' [] =
        Inr \<lparr>f_SourceType = SourceGitHub, f_Source = ''acme/schemas'', f_Version = ''main'',
             f_Dest = []\<rparr>"
proof -
  have a: "filepath_Abs demoWorld ''/src'' = Inr ''/src''" by code_simp
  have b: "os_Stat demoWorld ''/src'' = Inr Dir" by code_simp
  then have b': "\<not> IsNotExist (os_Stat demoWorld ''/src'')" by (simp add: IsNotExist_def)
  note T = NewFetcher_local_default_dest [of "''/src''" "[]"]
  from T [THEN conjunct2, THEN conjunct1, rule_format, of demoWorld "''/src''" noPull] a b'
  obtain f where f: "NewFetcher SourceLocal ''/src'' [] [] = Inr f"
      "Fetch noPull demoWorld f = (None, demoWorld)" by blast
  from f(1) T [THEN conjunct1] have "f_Dest f = ''/src''" by auto
  with f have c: "\<exists>f. NewFetcher SourceLocal ''/src'' [] [] = Inr f \<and> f_Dest f = ''/src''
           \<and> Fetch noPull demoWorld f = (None, demoWorld)" by blast
  have d: "NewFetcher SourceGitHub ''acme/schemas'' ''main'' [] =
        Inr \<lparr>f_SourceType = SourceGitHub, f_Source = ''acme/schemas'', f_Version = ''main'',
             f_Dest = []\<rparr>"
    using NewFetcher_local_default_dest [of "''acme/schemas''" "''main''", THEN conjunct2, THEN conjunct2,
        THEN conjunct1, rule_format, of SourceGitHub "[]"] by simp
  from a b c d show ?thesis by blast
qed

section \<open>Properties of the local fetch\<close>

lemma os_Symlink_places_link:
  assumes "os_Symlink w old new = (None, w1)"
  shows "\<exists>es. resolve w False new = Inr es \<and> nodeAt w es = None
              \<and> w1 = putNode es (Symlink old) w \<and> nodeAt w1 es = Some (Symlink old)"
proof -
  from assms obtain es where es: "resolve w False new = Inr es" "nodeAt w es = None"
      "w1 = putNode es (Symlink old) w"
    by (auto simp: os_Symlink_def split: sum.splits option.splits)
  from es(2) have "es \<noteq> []" by (auto simp: nodeAt_def split: if_splits)
  then have "nodeAt w1 es = Some (Symlink old)"
    using es(3) by (simp add: nodeAt_def putNode_def)
  with es show ?thesis by blast
qed

text \<open>
  Claim C6, amended. \<open>localFetch\<close> resolves the source to an absolute path and fails
  with the source-not-found error when that path does not exist, whatever the
  destination. Only then it resolves the destination: when the two absolute paths are
  equal it succeeds and changes nothing, otherwise it makes a symbolic link at the
  destination that points to the absolute source path, and returns the error of the
  link creation when that fails.
\<close>

theorem localFetch_source_checked_first:
  "(\<forall>e. filepath_Abs w (f_Source f) = Inl e
       \<longrightarrow> localFetch w f =
             (Some (Wrap ''failed to get absolute path of source'' (Errno e)), w))
   \<and> (\<forall>src. filepath_Abs w (f_Source f) = Inr src \<and> IsNotExist (os_Stat w src)
       \<longrightarrow> localFetch w f = (Some (Msg (''source path does not exist: '' @ src)), w))
   \<and> (\<forall>src e. filepath_Abs w (f_Source f) = Inr src \<and> \<not> IsNotExist (os_Stat w src)
         \<and> filepath_Abs w (f_Dest f) = Inl e
       \<longrightarrow> localFetch w f =
             (Some (Wrap ''failed to get absolute path of destination'' (Errno e)), w))
   \<and> (\<forall>src. filepath_Abs w (f_Source f) = Inr src \<and> \<not> IsNotExist (os_Stat w src)
         \<and> filepath_Abs w (f_Dest f) = Inr src
       \<longrightarrow> localFetch w f = (None, w))
   \<and> (\<forall>src dst w1. filepath_Abs w (f_Source f) = Inr src \<and> \<not> IsNotExist (os_Stat w src)
         \<and> filepath_Abs w (f_Dest f) = Inr dst \<and> src \<noteq> dst
         \<and> os_Symlink w src (f_Dest f) = (None, w1)
       \<longrightarrow> localFetch w f = (None, w1)
           \<and> (\<exists>es. resolve w False (f_Dest f) = Inr es \<and> nodeAt w es = None
                    \<and> w1 = putNode es (Symlink src) w \<and> nodeAt w1 es = Some (Symlink src)))
   \<and> (\<forall>src dst w1 e. filepath_Abs w (f_Source f) = Inr src \<and> \<not> IsNotExist (os_Stat w src)
         \<and> filepath_Abs w (f_Dest f) = Inr dst \<and> src \<noteq> dst
         \<and> os_Symlink w src (f_Dest f) = (Some e, w1)
       \<longrightarrow> localFetch w f =
             (Some (Wrap (''failed to create symlink from '' @ src @ '' to '' @ f_Dest f)
                      (Errno e)), w1))"
  using os_Symlink_places_link [of w _ "f_Dest f"]
  by (auto simp: localFetch_def)

text \<open>
  Claim C6 as stated fails: with source and destination the same missing path, the two
  absolute paths are equal, and the fetch is not a no-op success but the
  source-not-found error.
\<close>

theorem localFetch_same_missing_path_counterexample:
  "filepath_Abs demoWorld (f_Source missingFetcher) = Inr ''/nosuch''
   \<and> filepath_Abs demoWorld (f_Dest missingFetcher) = Inr ''/nosuch''
   \<and> Fetch noPull demoWorld missingFetcher =
        (Some (Msg ''source path does not exist: /nosuch''), demoWorld)"
  by code_simp

theorem localFetch_source_checked_first_witness:
  "filepath_Abs demoWorld (f_Source missingFetcher) = Inr ''/nosuch''
   \<and> IsNotExist (os_Stat demoWorld ''/nosuch'')
   \<and> localFetch demoWorld missingFetcher =
        (Some (Msg ''source path does not exist: /nosuch''), demoWorld)
   \<and> filepath_Abs demoWorld (f_Source linkFetcher) = Inr ''/src''
   \<and> filepath_Abs demoWorld (f_Dest linkFetcher) = Inr ''/cache/local''
   \<and> fst (localFetch demoWorld linkFetcher) = None
   \<and> nodeAt (snd (localFetch demoWorld linkFetcher)) [''cache'', ''local''] = Some (Symlink ''/src'')"
proof -
  have a: "filepath_Abs demoWorld (f_Source missingFetcher) = Inr ''/nosuch''" by code_simp
  have b: "IsNotExist (os_Stat demoWorld ''/nosuch'')" by code_simp
  have c: "localFetch demoWorld missingFetcher =
        (Some (Msg (''source path does not exist: '' @ ''/nosuch'')), demoWorld)"
    using localFetch_source_checked_first [of demoWorld missingFetcher, THEN conjunct2, THEN conjunct1,
        rule_format, of "''/nosuch''"] a b by blast
  have d: "filepath_Abs demoWorld (f_Source linkFetcher) = Inr ''/src''" by code_simp
  have e: "\<not> IsNotExist (os_Stat demoWorld ''/src'')" by code_simp
  have g: "filepath_Abs demoWorld (f_Dest linkFetcher) = Inr ''/cache/local''" by code_simp
  have h: "os_Symlink demoWorld ''/src'' (f_Dest linkFetcher) =
      (None, putNode [''cache'', ''local''] (Symlink ''/src'') demoWorld)" by code_simp
  have i: "''/src'' \<noteq> ''/cache/local''" by simp
  have k: "localFetch demoWorld linkFetcher =
      (None, putNode [''cache'', ''local''] (Symlink ''/src'') demoWorld)"
    using localFetch_source_checked_first [of demoWorld linkFetcher, THEN conjunct2, THEN conjunct2,
        THEN conjunct2, THEN conjunct2, THEN conjunct1, rule_format,
        of "''/src''" "''/cache/local''" "putNode [''cache'', ''local''] (Symlink ''/src'') demoWorld"]
      d e g h i by blast
  have l: "nodeAt (putNode [''cache'', ''local''] (Symlink ''/src'') demoWorld) [''cache'', ''local'']
      = Some (Symlink ''/src'')" by (simp add: nodeAt_def putNode_def)
  from a b c d g k l show ?thesis by simp
qed

section \<open>Properties of the batch resolution\<close>

lemma ResolveDependencies_append:
  "ResolveDependencies pull w dc (xs @ ys) =
     (case ResolveDependencies pull w dc xs of
        (None, w1) \<Rightarrow> ResolveDependencies pull w1 dc ys
      | (Some e, w1) \<Rightarrow> (Some e, w1))"
  by (induction xs arbitrary: w) (auto split: prod.splits option.splits)

text \<open>
  Claim C3. \<open>ResolveDependencies\<close> resolves the declarations one after the other in the
  order of the list. When the declarations before \<open>d\<close> resolve and \<open>d\<close> fails, the
  result is the error of \<open>d\<close> wrapped with the name of \<open>d\<close>, and the world is the one
  the failed attempt left on top of what the earlier declarations wrote: nothing is
  rolled back and no declaration after \<open>d\<close> is attempted, whatever follows. The
  failed attempt itself removes nothing but its own temporary file (the registry client
  assumed to remove nothing either): every node the earlier declarations left is still
  there, and a cache directory that was populated stays populated.
\<close>

theorem ResolveDependencies_fail_fast:
  "(\<forall>w1 w2 e. ResolveDependencies pull w dc pre = (None, w1)
        \<and> resolveDependency pull w1 dc d = (Some e, w2)
      \<longrightarrow> ResolveDependencies pull w dc (pre @ d # post) =
            (Some (Wrap (''failed to resolve dependency '' @ c_Name d) e), w2)
          \<and> (pullKeeps pull
               \<longrightarrow> keeps w1 w2
                   \<and> (\<forall>p \<in> set pre. isCached w1 (filepath_Join [outputPath dc, c_Name p])
                          \<longrightarrow> isCached w2 (filepath_Join [outputPath dc, c_Name p]))))
   \<and> ResolveDependencies pull w dc (pre @ post) =
       (case ResolveDependencies pull w dc pre of
          (None, w1) \<Rightarrow> ResolveDependencies pull w1 dc post
        | (Some e, w1) \<Rightarrow> (Some e, w1))
   \<and> ResolveDependencies pull w dc [d] =
       (case resolveDependency pull w dc d of
          (None, w1) \<Rightarrow> (None, w1)
        | (Some e, w1) \<Rightarrow> (Some (Wrap (''failed to resolve dependency '' @ c_Name d) e), w1))"
proof (intro conjI allI impI)
  fix w1 w2 e
  assume h: "ResolveDependencies pull w dc pre = (None, w1)
        \<and> resolveDependency pull w1 dc d = (Some e, w2)"
  then show "ResolveDependencies pull w dc (pre @ d # post) =
            (Some (Wrap (''failed to resolve dependency '' @ c_Name d) e), w2)"
    by (simp add: ResolveDependencies_append)
  assume pk: "pullKeeps pull"
  from h have "resolveDependency pull w1 dc d = (Some e, w2)" by simp
  from resolveDependency_keeps [OF pk this] show k: "keeps w1 w2" .
  show "\<forall>p \<in> set pre. isCached w1 (filepath_Join [outputPath dc, c_Name p])
                          \<longrightarrow> isCached w2 (filepath_Join [outputPath dc, c_Name p])"
    using isCached_keeps [OF k] by blast
next
  show "ResolveDependencies pull w dc (pre @ post) =
       (case ResolveDependencies pull w dc pre of
          (None, w1) \<Rightarrow> ResolveDependencies pull w1 dc post
        | (Some e, w1) \<Rightarrow> (Some e, w1))"
    by (rule ResolveDependencies_append)
next
  show "ResolveDependencies pull w dc [d] =
       (case resolveDependency pull w dc d of
          (None, w1) \<Rightarrow> (None, w1)
        | (Some e, w1) \<Rightarrow> (Some (Wrap (''failed to resolve dependency '' @ c_Name d) e), w1))"
    by (auto split: prod.splits option.splits)
qed

theorem ResolveDependencies_fail_fast_witness:
  "ResolveDependencies noPull demoWorld demoResolver [goodLocalDep] =
     (None, putNode [''cache'', ''good''] (Symlink ''/src'') demoWorld)
   \<and> resolveDependency noPull (putNode [''cache'', ''good''] (Symlink ''/src'') demoWorld)
        demoResolver badLocalDep =
       (Some (Msg ''source path does not exist: /nosuch''),
        putNode [''cache'', ''good''] (Symlink ''/src'') demoWorld)
   \<and> pullKeeps noPull
   \<and> isCached (putNode [''cache'', ''good''] (Symlink ''/src'') demoWorld)
        (filepath_Join [outputPath demoResolver, c_Name goodLocalDep])
   \<and> ResolveDependencies noPull demoWorld demoResolver [goodLocalDep, badLocalDep, laterLocalDep] =
       (Some (Wrap ''failed to resolve dependency bad'' (Msg ''source path does not exist: /nosuch'')),
        putNode [''cache'', ''good''] (Symlink ''/src'') demoWorld)
   \<and> os_Lstat (putNode [''cache'', ''good''] (Symlink ''/src'') demoWorld) ''/cache/later'' = Inl ENOENT"
proof -
  let ?w1 = "putNode [''cache'', ''good''] (Symlink ''/src'') demoWorld"
  have a: "ResolveDependencies noPull demoWorld demoResolver [goodLocalDep] = (None, ?w1)"
    by code_simp
  have b: "resolveDependency noPull ?w1 demoResolver badLocalDep =
       (Some (Msg ''source path does not exist: /nosuch''), ?w1)"
    by code_simp
  have pk: "pullKeeps noPull" by (simp add: pullKeeps_def noPull_def)
  note T = ResolveDependencies_fail_fast [of noPull demoWorld demoResolver "[goodLocalDep]" badLocalDep
        "[laterLocalDep]", THEN conjunct1, rule_format, OF conjI [OF a b]]
  have c: "ResolveDependencies noPull demoWorld demoResolver ([goodLocalDep] @ badLocalDep # [laterLocalDep]) =
       (Some (Wrap (''failed to resolve dependency '' @ c_Name badLocalDep)
                (Msg ''source path does not exist: /nosuch'')), ?w1)"
    using T by blast
  have d0: "isCached ?w1 (filepath_Join [outputPath demoResolver, c_Name goodLocalDep])" by code_simp
  have d: "isCached ?w1 (filepath_Join [outputPath demoResolver, c_Name goodLocalDep])"
    using T [THEN conjunct2, rule_format, OF pk, THEN conjunct2, rule_format, of goodLocalDep] d0
    by simp
  have e: "os_Lstat ?w1 ''/cache/later'' = Inl ENOENT" by code_simp
  have n: "c_Name badLocalDep = ''bad''" by (simp add: badLocalDep_def)
  from a b pk c d e n show ?thesis by simp
qed

section \<open>Properties of the plugin argument vector\<close>

lemma pluginFound_say [simp]: "pluginFound (say l sh) p = pluginFound sh p"
  by (simp add: pluginFound_def say_def)

lemma env_say [simp]: "env (say l sh) = env sh"
  by (simp add: say_def)

lemma ensureCustomPlugin_found:
  "pluginFound sh p \<Longrightarrow> ensureCustomPlugin sh p = None"
  by (simp add: ensureCustomPlugin_def exec_LookPath_def pluginFound_def)

lemma ensureCustomPlugin_missing:
  "\<not> pluginFound sh p \<Longrightarrow>
   ensureCustomPlugin sh p =
     Some (Wrap (''plugin command '' @ [CHR 0x27] @ cp_Command p @ [CHR 0x27] @ '' not found in PATH'')
             (ExecError (cp_Command p) (the (lookPath (env sh) (cp_Command p)))))"
  by (auto simp: ensureCustomPlugin_def exec_LookPath_def pluginFound_def split: option.splits)

lemma ensureCustomPlugin_say [simp]:
  "ensureCustomPlugin (say l sh) p = ensureCustomPlugin sh p"
  by (simp add: ensureCustomPlugin_def exec_LookPath_def say_def)

lemma Process_loop_all_usable:
  "\<forall>p \<in> set ps. pluginFound sh p \<or> \<not> cp_Required p \<Longrightarrow>
   fst (Process_loop sh outputDir args ps) =
     Inr (args @ concat (map (\<lambda>p. (''--'' @ cp_Name p @ ''_out=''
                                      @ (if cp_OutputDir p = [] then outputDir else cp_OutputDir p))
                                    # map (\<lambda>(k, v). ''--'' @ k @ ''='' @ v) (cp_Options p))
                             (filter (pluginFound sh) ps)))
   \<and> printed (snd (Process_loop sh outputDir args ps)) =
       printed sh @ map (\<lambda>p. LineErr (''Warning: Skipping optional plugin '' @ cp_Name p)
                                 (Wrap (''plugin command '' @ [CHR 0x27] @ cp_Command p @ [CHR 0x27] @ '' not found in PATH'')
                                   (ExecError (cp_Command p) (the (lookPath (env sh) (cp_Command p))))))
                        (filter (\<lambda>p. \<not> pluginFound sh p) ps)"
proof (induction ps arbitrary: sh args)
  case Nil
  then show ?case by simp
next
  case (Cons p ps)
  show ?case
  proof (cases "pluginFound sh p")
    case True
    with Cons.prems Cons.IH [of sh] show ?thesis
      by (simp add: ensureCustomPlugin_found)
  next
    case False
    with Cons.prems have opt: "\<not> cp_Required p" by simp
    let ?sh = "say (LineErr (''Warning: Skipping optional plugin '' @ cp_Name p)
                 (Wrap (''plugin command '' @ [CHR 0x27] @ cp_Command p @ [CHR 0x27] @ '' not found in PATH'')
                    (ExecError (cp_Command p) (the (lookPath (env sh) (cp_Command p)))))) sh"
    from Cons.prems have "\<forall>q \<in> set ps. pluginFound ?sh q \<or> \<not> cp_Required q" by simp
    from Cons.IH [OF this, of args] False opt show ?thesis
      by (simp add: ensureCustomPlugin_missing) (simp add: say_def)
  qed
qed

lemma Process_loop_required_missing:
  "\<forall>q \<in> set pre. pluginFound sh q \<or> \<not> cp_Required q \<Longrightarrow>
   \<not> pluginFound sh p \<Longrightarrow> cp_Required p \<Longrightarrow>
   fst (Process_loop sh outputDir args (pre @ p # post)) =
     Inl (Wrap (''failed to ensure custom plugin '' @ cp_Name p)
            (Wrap (''plugin command '' @ [CHR 0x27] @ cp_Command p @ [CHR 0x27] @ '' not found in PATH'')
               (ExecError (cp_Command p) (the (lookPath (env sh) (cp_Command p))))))"
proof (induction pre arbitrary: sh args)
  case Nil
  then show ?case by (simp add: ensureCustomPlugin_missing)
next
  case (Cons q pre)
  show ?case
  proof (cases "pluginFound sh q")
    case True
    with Cons.prems Cons.IH [of sh] show ?thesis
      by (simp add: ensureCustomPlugin_found)
  next
    case False
    with Cons.prems have opt: "\<not> cp_Required q" by simp
    from Cons.prems Cons.IH [of "say l sh" for l] False opt show ?thesis
      by (simp add: ensureCustomPlugin_missing)
  qed
qed

lemma find_first:
  "xs = pre @ x # post \<Longrightarrow> P x \<Longrightarrow> \<forall>y \<in> set pre. \<not> P y \<Longrightarrow> find P xs = Some x"
  by (induction pre arbitrary: xs) auto

lemma find_none: "\<forall>y \<in> set xs. \<not> P y \<Longrightarrow> find P xs = None"
  by (induction xs) auto

lemma GetLanguage_first:
  "Languages pc = pre @ l # post \<Longrightarrow> lc_Name l = lang \<Longrightarrow> \<forall>x \<in> set pre. lc_Name x \<noteq> lang
   \<Longrightarrow> GetLanguage pc lang = Some l"
  unfolding GetLanguage_def by (rule find_first)

lemma GetLanguage_none:
  "\<forall>x \<in> set (Languages pc). lc_Name x \<noteq> lang \<Longrightarrow> GetLanguage pc lang = None"
  unfolding GetLanguage_def by (rule find_none)

text \<open>
  Claim C4. The plugins handed over for a language are the global ones first, then
  those of the first entry of the configuration that bears the name of the language
  (none when no entry does). After the base flag \<open>--<language>_out=<outputDir>\<close>,
  \<open>Process\<close> goes through the custom plugins in order. A plugin whose command is found
  contributes \<open>--<Name>_out=<OutputDir>\<close>, its output directory defaulting to the
  language's when empty, followed by \<open>--<key>=<value>\<close> for every entry of its options.
  A plugin whose command is missing is left out with a printed warning when it is
  optional, and makes the whole call fail, with an error that names it, when it is
  required.
\<close>

theorem Process_custom_plugins:
  "(fst (ensureLanguagePlugins sh language) = None
      \<and> (\<forall>p \<in> set ps. pluginFound (snd (ensureLanguagePlugins sh language)) p \<or> \<not> cp_Required p)
    \<longrightarrow> fst (Process sh language outputDir ps) =
          Inr ((''--'' @ language @ ''_out='' @ outputDir)
               # concat (map (\<lambda>p. (''--'' @ cp_Name p @ ''_out=''
                                     @ (if cp_OutputDir p = [] then outputDir else cp_OutputDir p))
                                   # map (\<lambda>(k, v). ''--'' @ k @ ''='' @ v) (cp_Options p))
                            (filter (pluginFound (snd (ensureLanguagePlugins sh language))) ps)))
        \<and> printed (snd (Process sh language outputDir ps)) =
            printed (snd (ensureLanguagePlugins sh language))
            @ map (\<lambda>p. LineErr (''Warning: Skipping optional plugin '' @ cp_Name p)
                          (Wrap (''plugin command '' @ [CHR 0x27] @ cp_Command p @ [CHR 0x27] @ '' not found in PATH'')
                            (ExecError (cp_Command p)
                               (the (lookPath (env (snd (ensureLanguagePlugins sh language)))
                                       (cp_Command p))))))
                  (filter (\<lambda>p. \<not> pluginFound (snd (ensureLanguagePlugins sh language)) p) ps))
   \<and> (\<forall>pre p post. fst (ensureLanguagePlugins sh language) = None \<and> ps = pre @ p # post
        \<and> (\<forall>q \<in> set pre. pluginFound (snd (ensureLanguagePlugins sh language)) q \<or> \<not> cp_Required q)
        \<and> \<not> pluginFound (snd (ensureLanguagePlugins sh language)) p \<and> cp_Required p
      \<longrightarrow> fst (Process sh language outputDir ps) =
            Inl (Wrap (''failed to ensure custom plugin '' @ cp_Name p)
                   (Wrap (''plugin command '' @ [CHR 0x27] @ cp_Command p @ [CHR 0x27] @ '' not found in PATH'')
                      (ExecError (cp_Command p)
                         (the (lookPath (env (snd (ensureLanguagePlugins sh language)))
                                 (cp_Command p)))))))
   \<and> (\<forall>pre l post. Languages pc = pre @ l # post \<and> lc_Name l = lang
        \<and> (\<forall>x \<in> set pre. lc_Name x \<noteq> lang)
      \<longrightarrow> GetLanguage pc lang = Some l
          \<and> GetAllPlugins pc lang = Plugins pc @ lc_Plugins l
          \<and> customPluginsOf pc lang =
              map (\<lambda>plugin. \<lparr>cp_Name = pc_Name plugin, cp_Command = pc_Command plugin,
                              cp_OutputDir = pc_OutputDir plugin, cp_Options = pc_Options plugin,
                              cp_Required = pc_Required plugin\<rparr>) (Plugins pc @ lc_Plugins l))
   \<and> ((\<forall>x \<in> set (Languages pc). lc_Name x \<noteq> lang)
      \<longrightarrow> GetLanguage pc lang = None
          \<and> GetAllPlugins pc lang = Plugins pc
          \<and> customPluginsOf pc lang =
              map (\<lambda>plugin. \<lparr>cp_Name = pc_Name plugin, cp_Command = pc_Command plugin,
                              cp_OutputDir = pc_OutputDir plugin, cp_Options = pc_Options plugin,
                              cp_Required = pc_Required plugin\<rparr>) (Plugins pc))"
proof (intro conjI allI impI)
  assume h: "fst (ensureLanguagePlugins sh language) = None
      \<and> (\<forall>p \<in> set ps. pluginFound (snd (ensureLanguagePlugins sh language)) p \<or> \<not> cp_Required p)"
  obtain sh1 where s: "ensureLanguagePlugins sh language = (None, sh1)"
    using h by (cases "ensureLanguagePlugins sh language") auto
  with h have ok: "\<forall>p \<in> set ps. pluginFound sh1 p \<or> \<not> cp_Required p" by simp
  note L = Process_loop_all_usable [OF ok, of outputDir "[''--'' @ language @ ''_out='' @ outputDir]"]
  from L s show "fst (Process sh language outputDir ps) =
          Inr ((''--'' @ language @ ''_out='' @ outputDir)
               # concat (map (\<lambda>p. (''--'' @ cp_Name p @ ''_out=''
                                     @ (if cp_OutputDir p = [] then outputDir else cp_OutputDir p))
                                   # map (\<lambda>(k, v). ''--'' @ k @ ''='' @ v) (cp_Options p))
                            (filter (pluginFound (snd (ensureLanguagePlugins sh language))) ps)))"
    by (simp add: Process_def)
  from L s show "printed (snd (Process sh language outputDir ps)) =
            printed (snd (ensureLanguagePlugins sh language))
            @ map (\<lambda>p. LineErr (''Warning: Skipping optional plugin '' @ cp_Name p)
                          (Wrap (''plugin command '' @ [CHR 0x27] @ cp_Command p @ [CHR 0x27] @ '' not found in PATH'')
                            (ExecError (cp_Command p)
                               (the (lookPath (env (snd (ensureLanguagePlugins sh language)))
                                       (cp_Command p))))))
                  (filter (\<lambda>p. \<not> pluginFound (snd (ensureLanguagePlugins sh language)) p) ps)"
    by (simp add: Process_def)
next
  fix pre p post
  assume h: "fst (ensureLanguagePlugins sh language) = None \<and> ps = pre @ p # post
        \<and> (\<forall>q \<in> set pre. pluginFound (snd (ensureLanguagePlugins sh language)) q \<or> \<not> cp_Required q)
        \<and> \<not> pluginFound (snd (ensureLanguagePlugins sh language)) p \<and> cp_Required p"
  obtain sh1 where s: "ensureLanguagePlugins sh language = (None, sh1)"
    using h by (cases "ensureLanguagePlugins sh language") auto
  with h have "\<forall>q \<in> set pre. pluginFound sh1 q \<or> \<not> cp_Required q" "\<not> pluginFound sh1 p" "cp_Required p"
    by simp_all
  from Process_loop_required_missing [OF this, of outputDir "[''--'' @ language @ ''_out='' @ outputDir]" post]
    s h
  show "fst (Process sh language outputDir ps) =
            Inl (Wrap (''failed to ensure custom plugin '' @ cp_Name p)
                   (Wrap (''plugin command '' @ [CHR 0x27] @ cp_Command p @ [CHR 0x27] @ '' not found in PATH'')
                      (ExecError (cp_Command p)
                         (the (lookPath (env (snd (ensureLanguagePlugins sh language)))
                                 (cp_Command p))))))"
    by (simp add: Process_def)
next
  fix pre l post
  assume h: "Languages pc = pre @ l # post \<and> lc_Name l = lang
        \<and> (\<forall>x \<in> set pre. lc_Name x \<noteq> lang)"
  then show g: "GetLanguage pc lang = Some l" by (simp add: GetLanguage_first)
  then show a: "GetAllPlugins pc lang = Plugins pc @ lc_Plugins l" by (simp add: GetAllPlugins_def)
  then show "customPluginsOf pc lang =
              map (\<lambda>plugin. \<lparr>cp_Name = pc_Name plugin, cp_Command = pc_Command plugin,
                              cp_OutputDir = pc_OutputDir plugin, cp_Options = pc_Options plugin,
                              cp_Required = pc_Required plugin\<rparr>) (Plugins pc @ lc_Plugins l)"
    by (simp add: customPluginsOf_def)
next
  assume h: "\<forall>x \<in> set (Languages pc). lc_Name x \<noteq> lang"
  then show g: "GetLanguage pc lang = None" by (rule GetLanguage_none)
  then show a: "GetAllPlugins pc lang = Plugins pc" by (simp add: GetAllPlugins_def)
  then show "customPluginsOf pc lang =
              map (\<lambda>plugin. \<lparr>cp_Name = pc_Name plugin, cp_Command = pc_Command plugin,
                              cp_OutputDir = pc_OutputDir plugin, cp_Options = pc_Options plugin,
                              cp_Required = pc_Required plugin\<rparr>) (Plugins pc)"
    by (simp add: customPluginsOf_def)
qed

theorem Process_custom_plugins_witness:
  "fst (ensureLanguagePlugins demoShell ''go'') = None
   \<and> pluginFound (snd (ensureLanguagePlugins demoShell ''go'')) twirpPlugin
   \<and> \<not> pluginFound (snd (ensureLanguagePlugins demoShell ''go'')) optionalPlugin
   \<and> \<not> cp_Required optionalPlugin
   \<and> fst (Process demoShell ''go'' ''./gen/go'' [twirpPlugin, optionalPlugin]) =
        Inr [''--go_out=./gen/go'', ''--twirp_out=./gen/go'', ''--twirp_opt=paths=source_relative'']
   \<and> printed (snd (Process demoShell ''go'' ''./gen/go'' [twirpPlugin, optionalPlugin])) =
        [LineErr ''Warning: Skipping optional plugin docs''
           (Wrap ''plugin command 'protoc-gen-docs' not found in PATH''
              (ExecError ''protoc-gen-docs'' (Msg ''executable file not found in $PATH'')))]
   \<and> \<not> pluginFound (snd (ensureLanguagePlugins demoShell ''go'')) requiredPlugin
   \<and> cp_Required requiredPlugin
   \<and> fst (Process demoShell ''go'' ''./gen/go'' [twirpPlugin, requiredPlugin, optionalPlugin]) =
        Inl (Wrap ''failed to ensure custom plugin validate''
               (Wrap ''plugin command 'protoc-gen-validate' not found in PATH''
                  (ExecError ''protoc-gen-validate'' (Msg ''executable file not found in $PATH''))))
   \<and> GetLanguage demoConfig ''go'' =
        Some \<lparr>lc_Name = ''go'', lc_OutputDir = ''./gen/go'', lc_Options = [],
              lc_Plugins = [\<lparr>pc_Name = ''twirp'', pc_Command = ''protoc-gen-twirp'',
                             pc_Options = [(''twirp_opt'', ''paths=source_relative'')],
                             pc_OutputDir = [], pc_Required = True\<rparr>]\<rparr>
   \<and> customPluginsOf demoConfig ''go'' = [optionalPlugin, twirpPlugin]
   \<and> customPluginsOf demoConfig ''ts'' = [optionalPlugin]
   \<and> GetLanguage demoConfig ''python'' = None
   \<and> customPluginsOf demoConfig ''python'' = [optionalPlugin]
   \<and> fst (Process demoShell ''go'' ''./gen/go'' (customPluginsOf demoConfig ''go'')) =
        Inr [''--go_out=./gen/go'', ''--twirp_out=./gen/go'', ''--twirp_opt=paths=source_relative'']"
proof -
  let ?sh1 = "snd (ensureLanguagePlugins demoShell ''go'')"
  let ?ts = "\<lparr>lc_Name = ''ts'', lc_OutputDir = ''./gen/ts'', lc_Options = [], lc_Plugins = []\<rparr>"
  let ?go = "\<lparr>lc_Name = ''go'', lc_OutputDir = ''./gen/go'', lc_Options = [],
              lc_Plugins = [\<lparr>pc_Name = ''twirp'', pc_Command = ''protoc-gen-twirp'',
                             pc_Options = [(''twirp_opt'', ''paths=source_relative'')],
                             pc_OutputDir = [], pc_Required = True\<rparr>]\<rparr>"
  let ?go2 = "\<lparr>lc_Name = ''go'', lc_OutputDir = ''./other'', lc_Options = [],
              lc_Plugins = [\<lparr>pc_Name = ''validate'', pc_Command = ''protoc-gen-validate'',
                             pc_Options = [], pc_OutputDir = [], pc_Required = True\<rparr>]\<rparr>"
  have a: "fst (ensureLanguagePlugins demoShell ''go'') = None" by code_simp
  have b: "pluginFound ?sh1 twirpPlugin" by code_simp
  have c: "\<not> pluginFound ?sh1 optionalPlugin" by code_simp
  have d: "\<not> cp_Required optionalPlugin" by code_simp
  have e: "\<not> pluginFound ?sh1 requiredPlugin" by code_simp
  have g: "cp_Required requiredPlugin" by code_simp
  have p0: "printed ?sh1 = []" by code_simp
  have l1: "lookPath (env ?sh1) ''protoc-gen-docs'' = Some (Msg ''executable file not found in $PATH'')"
    by code_simp
  have l2: "lookPath (env ?sh1) ''protoc-gen-validate'' = Some (Msg ''executable file not found in $PATH'')"
    by code_simp
  have ok: "\<forall>p \<in> set [twirpPlugin, optionalPlugin]. pluginFound ?sh1 p \<or> \<not> cp_Required p"
    using b d by simp
  note T1 = Process_custom_plugins [of demoShell "''go''" "[twirpPlugin, optionalPlugin]" "''./gen/go''",
      THEN conjunct1, rule_format, OF conjI [OF a ok]]
  have r1: "fst (Process demoShell ''go'' ''./gen/go'' [twirpPlugin, optionalPlugin]) =
        Inr [''--go_out=./gen/go'', ''--twirp_out=./gen/go'', ''--twirp_opt=paths=source_relative'']"
    using T1 [THEN conjunct1] b c by (simp add: twirpPlugin_def optionalPlugin_def)
  have r2: "printed (snd (Process demoShell ''go'' ''./gen/go'' [twirpPlugin, optionalPlugin])) =
        [LineErr ''Warning: Skipping optional plugin docs''
           (Wrap ''plugin command 'protoc-gen-docs' not found in PATH''
              (ExecError ''protoc-gen-docs'' (Msg ''executable file not found in $PATH'')))]"
    using T1 [THEN conjunct2] b c p0 l1 by (simp add: twirpPlugin_def optionalPlugin_def)
  have pre: "\<forall>q \<in> set [twirpPlugin]. pluginFound ?sh1 q \<or> \<not> cp_Required q" using b by simp
  have r3: "fst (Process demoShell ''go'' ''./gen/go'' [twirpPlugin, requiredPlugin, optionalPlugin]) =
        Inl (Wrap ''failed to ensure custom plugin validate''
               (Wrap ''plugin command 'protoc-gen-validate' not found in PATH''
                  (ExecError ''protoc-gen-validate'' (Msg ''executable file not found in $PATH''))))"
    using Process_custom_plugins [of demoShell "''go''" "[twirpPlugin, requiredPlugin, optionalPlugin]"
        "''./gen/go''", THEN conjunct2, THEN conjunct1, rule_format,
        of "[twirpPlugin]" requiredPlugin "[optionalPlugin]"] a pre e g l2
    by (simp add: requiredPlugin_def)
  have langs: "Languages demoConfig = [?ts] @ ?go # [?go2]" by (simp add: demoConfig_def)
  have nm: "lc_Name ?go = ''go''" by simp
  have before: "\<forall>x \<in> set [?ts]. lc_Name x \<noteq> ''go''" by simp
  note T3 = Process_custom_plugins [THEN conjunct2, THEN conjunct2, THEN conjunct1, rule_format,
      of demoConfig "[?ts]" ?go "[?go2]" "''go''", OF conjI [OF langs conjI [OF nm before]]]
  have r4: "GetLanguage demoConfig ''go'' = Some ?go" using T3 by blast
  have r5: "customPluginsOf demoConfig ''go'' = [optionalPlugin, twirpPlugin]"
    using T3 [THEN conjunct2, THEN conjunct2]
    by (simp add: demoConfig_def optionalPlugin_def twirpPlugin_def)
  have langs2: "Languages demoConfig = [] @ ?ts # [?go, ?go2]" by (simp add: demoConfig_def)
  have r6: "customPluginsOf demoConfig ''ts'' = [optionalPlugin]"
    using Process_custom_plugins [THEN conjunct2, THEN conjunct2, THEN conjunct1, rule_format,
      of demoConfig "[]" ?ts "[?go, ?go2]" "''ts''"] langs2
    by (simp add: demoConfig_def optionalPlugin_def)
  have none: "\<forall>x \<in> set (Languages demoConfig). lc_Name x \<noteq> ''python''"
    by (simp add: demoConfig_def)
  note T4 = Process_custom_plugins [where pc = demoConfig and lang = "''python''",
      THEN conjunct2, THEN conjunct2, THEN conjunct2, THEN mp, OF none]
  have r7: "GetLanguage demoConfig ''python'' = None" using T4 by blast
  have r8: "customPluginsOf demoConfig ''python'' = [optionalPlugin]"
    using T4 [THEN conjunct2, THEN conjunct2] by (simp add: demoConfig_def optionalPlugin_def)
  have r9: "fst (Process demoShell ''go'' ''./gen/go'' (customPluginsOf demoConfig ''go'')) =
        Inr [''--go_out=./gen/go'', ''--twirp_out=./gen/go'', ''--twirp_opt=paths=source_relative'']"
  proof -
    have "fst (Process demoShell ''go'' ''./gen/go'' [optionalPlugin, twirpPlugin]) =
        Inr [''--go_out=./gen/go'', ''--twirp_out=./gen/go'', ''--twirp_opt=paths=source_relative'']"
      by code_simp
    with r5 show ?thesis by simp
  qed
  from a b c d e g r1 r2 r3 r4 r5 r6 r7 r8 r9 show ?thesis by blast
qed

section \<open>Properties of the compiler invocation\<close>

lemma Run_invokes:
  assumes "fst (ensureProtoc e sh) = None"
  shows "spawned (snd (Run e sh protoFiles args)) =
           spawned (snd (ensureProtoc e sh))
           @ [protocPath e # (if depsPath e \<noteq> [] then [''--proto_path='' @ depsPath e] else [])
                             @ args @ protoFiles]"
proof -
  obtain sh1 where s: "ensureProtoc e sh = (None, sh1)"
    using assms by (cases "ensureProtoc e sh") auto
  then show ?thesis
    by (auto simp: Run_def cmd_Run_def Let_def split: sum.splits)
qed

lemma Process_loop_extends:
  "fst (Process_loop sh outputDir args ps) = Inr r \<Longrightarrow> \<exists>rest. r = args @ rest"
proof (induction ps arbitrary: sh args)
  case Nil
  then show ?case by simp
next
  case (Cons p ps)
  then show ?case
    by (fastforce split: option.splits if_splits)
qed

lemma Process_starts_with_base_flag:
  assumes "fst (Process sh language outputDir ps) = Inr r"
  shows "\<exists>rest. r = (''--'' @ language @ ''_out='' @ outputDir) # rest"
proof -
  obtain sh1 where s: "ensureLanguagePlugins sh language = (None, sh1)"
    using assms by (cases "ensureLanguagePlugins sh language") (auto simp: Process_def split: option.splits)
  with assms have "fst (Process_loop sh1 outputDir [''--'' @ language @ ''_out='' @ outputDir] ps) = Inr r"
    by (simp add: Process_def)
  from Process_loop_extends [OF this] show ?thesis by auto
qed

text \<open>
  Claim C2, amended. When \<open>GenerateCode\<close> gets as far as running the compiler, the
  argument vector is, in this order: \<open>--proto_path=<cachePath>\<close> when the dependency
  cache path is not empty, the plugin flags (the first of which is
  \<open>--<language>_out=<outputDir>\<close>), \<open>--proto_path=<projectPath>\<close>, one
  \<open>--<key>=<value>\<close> for every generation option, and last the proto file paths.
\<close>

theorem GenerateCode_argument_vector:
  "fst (ensureProtoc e sh) = None
   \<and> fst (Process (snd (ensureProtoc e sh)) language outputDir (go_CustomPlugins options))
       = Inr pluginArgs
   \<and> fst (ensureProtoc e
            (snd (Process (snd (ensureProtoc e sh)) language outputDir (go_CustomPlugins options))))
       = None
   \<longrightarrow> (\<exists>rest. pluginArgs = (''--'' @ language @ ''_out='' @ outputDir) # rest)
       \<and> spawned (snd (GenerateCode e sh language protoFiles outputDir options)) =
           spawned (snd (ensureProtoc e
              (snd (Process (snd (ensureProtoc e sh)) language outputDir (go_CustomPlugins options)))))
           @ [protocPath e
              # (if depsPath e \<noteq> [] then [''--proto_path='' @ depsPath e] else [])
                @ pluginArgs
                @ [''--proto_path='' @ go_ProjectPath options]
                @ map (\<lambda>(k, v). ''--'' @ k @ ''='' @ v) (go_Options options)
                @ protoFiles]"
proof
  let ?P = "Process (snd (ensureProtoc e sh)) language outputDir (go_CustomPlugins options)"
  assume h: "fst (ensureProtoc e sh) = None \<and> fst ?P = Inr pluginArgs
     \<and> fst (ensureProtoc e (snd ?P)) = None"
  obtain sh1 where s: "ensureProtoc e sh = (None, sh1)"
    using h by (cases "ensureProtoc e sh") auto
  obtain sh2 where p: "Process sh1 language outputDir (go_CustomPlugins options) = (Inr pluginArgs, sh2)"
    using h s by (cases "Process sh1 language outputDir (go_CustomPlugins options)") auto
  from h s p have r: "fst (ensureProtoc e sh2) = None" by simp
  have base: "\<exists>rest. pluginArgs = (''--'' @ language @ ''_out='' @ outputDir) # rest"
    using Process_starts_with_base_flag [of sh1 language outputDir "go_CustomPlugins options" pluginArgs] p
    by simp
  have "GenerateCode e sh language protoFiles outputDir options =
      Run e sh2 protoFiles (pluginArgs @ [''--proto_path='' @ go_ProjectPath options]
                    @ map (\<lambda>(k, v). ''--'' @ k @ ''='' @ v) (go_Options options))"
    using s p by (simp add: GenerateCode_def)
  then have "spawned (snd (GenerateCode e sh language protoFiles outputDir options)) =
         spawned (snd (ensureProtoc e sh2))
         @ [protocPath e
            # (if depsPath e \<noteq> [] then [''--proto_path='' @ depsPath e] else [])
              @ pluginArgs
              @ [''--proto_path='' @ go_ProjectPath options]
              @ map (\<lambda>(k, v). ''--'' @ k @ ''='' @ v) (go_Options options)
              @ protoFiles]"
    using Run_invokes [OF r] by simp
  with base s p show "(\<exists>rest. pluginArgs = (''--'' @ language @ ''_out='' @ outputDir) # rest)
       \<and> spawned (snd (GenerateCode e sh language protoFiles outputDir options)) =
           spawned (snd (ensureProtoc e (snd ?P)))
           @ [protocPath e
              # (if depsPath e \<noteq> [] then [''--proto_path='' @ depsPath e] else [])
                @ pluginArgs
                @ [''--proto_path='' @ go_ProjectPath options]
                @ map (\<lambda>(k, v). ''--'' @ k @ ''='' @ v) (go_Options options)
                @ protoFiles]"
    by simp
qed

theorem GenerateCode_argument_vector_witness:
  "fst (ensureProtoc demoExecutor demoShell) = None
   \<and> fst (Process (snd (ensureProtoc demoExecutor demoShell)) ''go'' ''./gen/go''
             (go_CustomPlugins demoOptions)) =
       Inr [''--go_out=./gen/go'', ''--twirp_out=./gen/go'', ''--twirp_opt=paths=source_relative'']
   \<and> fst (ensureProtoc demoExecutor
            (snd (Process (snd (ensureProtoc demoExecutor demoShell)) ''go'' ''./gen/go''
                    (go_CustomPlugins demoOptions)))) = None
   \<and> spawned (snd (GenerateCode demoExecutor demoShell ''go'' [''a.proto'', ''b.proto'']
                      ''./gen/go'' demoOptions)) =
       [[''protoc'', ''--proto_path=/deps'', ''--go_out=./gen/go'', ''--twirp_out=./gen/go'',
         ''--twirp_opt=paths=source_relative'', ''--proto_path=/proj'',
         ''--go_opt=paths=source_relative'', ''a.proto'', ''b.proto'']]"
proof -
  let ?P = "Process (snd (ensureProtoc demoExecutor demoShell)) ''go'' ''./gen/go''
             (go_CustomPlugins demoOptions)"
  have a: "fst (ensureProtoc demoExecutor demoShell) = None" by code_simp
  have b: "fst ?P =
       Inr [''--go_out=./gen/go'', ''--twirp_out=./gen/go'', ''--twirp_opt=paths=source_relative'']"
    by code_simp
  have c: "fst (ensureProtoc demoExecutor (snd ?P)) = None" by code_simp
  have d: "spawned (snd (ensureProtoc demoExecutor (snd ?P))) = []" by code_simp
  have e: "protocPath demoExecutor = ''protoc''" "depsPath demoExecutor = ''/deps''"
    "go_ProjectPath demoOptions = ''/proj''"
    "go_Options demoOptions = [(''go_opt'', ''paths=source_relative'')]"
    by (simp_all add: demoExecutor_def demoOptions_def)
  from GenerateCode_argument_vector [of demoExecutor demoShell "''go''" "''./gen/go''" demoOptions
      "[''--go_out=./gen/go'', ''--twirp_out=./gen/go'', ''--twirp_opt=paths=source_relative'']"
      "[''a.proto'', ''b.proto'']", rule_format, OF conjI [OF a conjI [OF b c]], THEN conjunct2]
  have "spawned (snd (GenerateCode demoExecutor demoShell ''go'' [''a.proto'', ''b.proto'']
                      ''./gen/go'' demoOptions)) =
       [[''protoc'', ''--proto_path=/deps'', ''--go_out=./gen/go'', ''--twirp_out=./gen/go'',
         ''--twirp_opt=paths=source_relative'', ''--proto_path=/proj'',
         ''--go_opt=paths=source_relative'', ''a.proto'', ''b.proto'']]"
    by (simp add: d e)
  with a b c show ?thesis by blast
qed

text \<open>
  Claim C2 as stated fails: the flag \<open>--proto_path=/proj\<close> of the project path stands
  behind the plugin output flags \<open>--go_out\<close> and \<open>--twirp_out\<close>, not ahead of them.
\<close>

theorem GenerateCode_project_path_counterexample:
  "spawned (snd (GenerateCode demoExecutor demoShell ''go'' [''a.proto'', ''b.proto''] ''./gen/go''
                   demoOptions)) =
     [[''protoc'', ''--proto_path=/deps'', ''--go_out=./gen/go'', ''--twirp_out=./gen/go'',
       ''--twirp_opt=paths=source_relative'', ''--proto_path=/proj'',
       ''--go_opt=paths=source_relative'', ''a.proto'', ''b.proto'']]
   \<and> ''--proto_path=/proj'' \<notin>
       set (takeWhile (\<lambda>a. a \<noteq> ''--go_out=./gen/go'')
             (concat (spawned (snd (GenerateCode demoExecutor demoShell ''go''
                        [''a.proto'', ''b.proto''] ''./gen/go'' demoOptions)))))"
  by code_simp

section \<open>Properties of the GitHub archive extraction\<close>

lemma HasPrefix_append [simp]: "HasPrefix (p @ s) p"
  by (simp add: HasPrefix_def)

lemma TrimPrefix_HasPrefix: "HasPrefix s p \<Longrightarrow> TrimPrefix s p = drop (length p) s"
  by (simp add: TrimPrefix_def)

lemma HasPrefix_length: "HasPrefix s p \<Longrightarrow> length p \<le> length s"
  by (metis HasPrefix_def length_take min.cobounded1)

lemma drop_eq_Nil_length: "length p \<le> length s \<Longrightarrow> (drop (length p) s = []) = (\<not> length p < length s)"
  by auto

lemma extractGitHubZip_loop_step:
  assumes "zIsDir ze \<or> HasPrefix (zname ze) (root @ ''/'')"
  shows "extractGitHubZip_loop w (root @ ''/'') targetDir subDir (ze # rest) =
     (case githubRelative root subDir ze of
        None \<Rightarrow> extractGitHubZip_loop w (root @ ''/'') targetDir subDir rest
      | Some rel \<Rightarrow>
          (case os_MkdirAll w (filepath_Dir (filepath_Join [targetDir, rel])) of
             (Some e, w1) \<Rightarrow> (Some (Errno e), w1)
           | (None, w1) \<Rightarrow>
               (case extractFile w1 ze (filepath_Join [targetDir, rel]) of
                  (Some e, w2) \<Rightarrow> (Some (Wrap (''failed to extract '' @ rel) e), w2)
                | (None, w2) \<Rightarrow> extractGitHubZip_loop w2 (root @ ''/'') targetDir subDir rest)))"
proof (cases "zIsDir ze")
  case True
  then show ?thesis by (simp add: githubRelative_def)
next
  case False
  with assms have pre: "HasPrefix (zname ze) (root @ ''/'')" by simp
  then have tp: "TrimPrefix (zname ze) (root @ ''/'') = drop (length root + 1) (zname ze)"
    by (simp add: TrimPrefix_HasPrefix)
  define s where "s = drop (length root + 1) (zname ze)"
  have tp2: "HasPrefix s (subDir @ ''/'') \<Longrightarrow>
      TrimPrefix s (subDir @ ''/'') = drop (length subDir + 1) s"
    by (simp add: TrimPrefix_HasPrefix)
  have emp: "HasPrefix s (subDir @ ''/'') \<Longrightarrow>
      (drop (length subDir + 1) s = []) = (\<not> length subDir + 1 < length s)"
    using HasPrefix_length [of s "subDir @ ''/''"] by auto
  have gr: "githubRelative root subDir ze =
      (if subDir = [] then (if s = [] then None else Some s)
       else if HasPrefix s (subDir @ ''/'') \<and> length subDir + 1 < length s
         then Some (drop (length subDir + 1) s) else None)"
    using False pre by (simp add: githubRelative_def s_def Let_def)
  show ?thesis
  proof (cases "HasPrefix s (subDir @ ''/'')")
    case hp: True
    note a = tp2 [OF hp] and b = emp [OF hp]
    show ?thesis
      unfolding extractGitHubZip_loop.simps Let_def tp gr s_def [symmetric] a
      using False hp
      by (simp add: b del: filepath_Join.simps cong: prod.case_cong option.case_cong)
  next
    case nhp: False
    show ?thesis
      unfolding extractGitHubZip_loop.simps tp gr s_def [symmetric]
      using False nhp
      by (simp add: Let_def del: filepath_Join.simps cong: prod.case_cong option.case_cong)
  qed
qed

lemma extractGitHubZip_loop_refines:
  "\<forall>file \<in> set entries. \<not> zIsDir file \<longrightarrow> HasPrefix (zname file) (root @ ''/'') \<Longrightarrow>
   extractGitHubZip_loop w (root @ ''/'') targetDir subDir entries =
     writeEntries w targetDir
       (List.map_filter (\<lambda>file. map_option (\<lambda>rel. (rel, file)) (githubRelative root subDir file))
          entries)"
proof (induction entries arbitrary: w)
  case Nil
  then show ?case by (simp add: List.map_filter_simps)
next
  case (Cons ze rest)
  have IH: "\<And>w'. extractGitHubZip_loop w' (root @ ''/'') targetDir subDir rest =
     writeEntries w' targetDir
       (List.map_filter (\<lambda>file. map_option (\<lambda>rel. (rel, file)) (githubRelative root subDir file))
          rest)"
    using Cons by simp
  from Cons.prems have "zIsDir ze \<or> HasPrefix (zname ze) (root @ ''/'')" by auto
  note step = extractGitHubZip_loop_step [OF this]
  show ?case
    unfolding step
    by (cases "githubRelative root subDir ze")
       (simp_all add: IH List.map_filter_simps del: filepath_Join.simps extractGitHubZip_loop.simps
          cong: prod.case_cong option.case_cong)
qed

lemma Split_head_no_sep:
  "sep \<notin> set p \<Longrightarrow> \<exists>xs. Split (p @ sep # r) sep = p # xs"
  by (induction p) (auto split: list.splits)

lemma rootPrefixOf_single_root:
  "CHR ''/'' \<notin> set root \<Longrightarrow>
   \<forall>file \<in> set entries. \<not> zIsDir file \<longrightarrow> HasPrefix (zname file) (root @ ''/'') \<Longrightarrow>
   \<exists>file \<in> set entries. \<not> zIsDir file \<Longrightarrow>
   rootPrefixOf entries = root @ ''/''"
proof (induction entries)
  case Nil
  then show ?case by simp
next
  case (Cons ze rest)
  show ?case
  proof (cases "zIsDir ze")
    case True
    with Cons show ?thesis by simp
  next
    case False
    with Cons.prems have "HasPrefix (zname ze) (root @ ''/'')" by simp
    then have "zname ze = root @ CHR ''/'' # drop (length root + 1) (zname ze)"
      by (metis HasPrefix_def append_take_drop_id append.assoc append_Cons append_Nil length_append_singleton Suc_eq_plus1)
    with Split_head_no_sep [OF Cons.prems(1), of "drop (length root + 1) (zname ze)"]
    obtain xs where "Split (zname ze) (CHR ''/'') = root # xs" by metis
    with False show ?thesis by simp
  qed
qed

lemma extractGitHubZip_loop_all_dirs:
  "\<forall>file \<in> set entries. zIsDir file \<Longrightarrow>
   extractGitHubZip_loop w rp targetDir subDir entries = (None, w)"
  by (induction entries) auto

lemma map_filter_all_dirs:
  "\<forall>file \<in> set entries. zIsDir file \<Longrightarrow>
   List.map_filter (\<lambda>file. map_option (\<lambda>rel. (rel, file)) (githubRelative root subDir file)) entries = []"
  by (induction entries) (auto simp: List.map_filter_simps githubRelative_def)

lemma not_dir_rest_nonempty:
  "\<not> zIsDir ze \<Longrightarrow> zname ze = p @ ''/'' @ rest \<Longrightarrow> rest \<noteq> []"
  by (auto simp: zIsDir_def HasSuffix_def)

lemma githubRelative_under_root:
  "\<not> zIsDir ze \<Longrightarrow> zname ze = root @ ''/'' @ rest \<Longrightarrow> githubRelative root [] ze = Some rest"
  using not_dir_rest_nonempty [of ze root rest]
  by (simp add: githubRelative_def HasPrefix_def)

lemma githubRelative_under_subDir:
  assumes "subDir \<noteq> []" "\<not> zIsDir ze" "zname ze = root @ ''/'' @ subDir @ ''/'' @ rest"
  shows "githubRelative root subDir ze = Some rest"
proof -
  from assms(2,3) have "rest \<noteq> []"
    using not_dir_rest_nonempty [of ze "root @ ''/'' @ subDir" rest] by simp
  with assms show ?thesis
    by (simp add: githubRelative_def HasPrefix_def)
qed

lemma githubRelative_outside_subDir:
  "subDir \<noteq> [] \<Longrightarrow> zname ze = root @ ''/'' @ rest \<Longrightarrow> \<not> HasPrefix rest (subDir @ ''/'') \<Longrightarrow>
   githubRelative root subDir ze = None"
  by (simp add: githubRelative_def)

text \<open>
  Claim C7. For an archive whose entries that are not directories all lie under one
  top-level directory \<open>root\<close>, \<open>extractGitHubZip\<close> writes exactly the entries that
  \<open>githubRelative\<close> selects, in archive order, each at its relative path under the
  destination. Directory entries are skipped; without a subdirectory an entry
  \<open>root/rest\<close> is written at \<open>rest\<close>; with a subdirectory only the entries
  \<open>root/subDir/rest\<close> are written, at \<open>rest\<close>, and an entry outside the subdirectory
  produces no file.
\<close>

theorem extractGitHubZip_selects:
  "(zip_OpenReader w zipPath = Inr entries \<and> CHR ''/'' \<notin> set root
      \<and> (\<forall>file \<in> set entries. \<not> zIsDir file \<longrightarrow> HasPrefix (zname file) (root @ ''/''))
    \<longrightarrow> extractGitHubZip w zipPath targetDir subDir =
          writeEntries w targetDir
            (List.map_filter
               (\<lambda>file. map_option (\<lambda>rel. (rel, file)) (githubRelative root subDir file)) entries))
   \<and> (\<forall>file. zIsDir file \<longrightarrow> githubRelative root subDir file = None)
   \<and> (\<forall>file rest. \<not> zIsDir file \<and> zname file = root @ ''/'' @ rest
        \<longrightarrow> githubRelative root [] file = Some rest)
   \<and> (\<forall>file rest. subDir \<noteq> [] \<and> \<not> zIsDir file
          \<and> zname file = root @ ''/'' @ subDir @ ''/'' @ rest
        \<longrightarrow> githubRelative root subDir file = Some rest)
   \<and> (\<forall>file rest. subDir \<noteq> [] \<and> zname file = root @ ''/'' @ rest
          \<and> \<not> HasPrefix rest (subDir @ ''/'')
        \<longrightarrow> githubRelative root subDir file = None)"
proof (intro conjI allI impI)
  assume h: "zip_OpenReader w zipPath = Inr entries \<and> CHR ''/'' \<notin> set root
      \<and> (\<forall>file \<in> set entries. \<not> zIsDir file \<longrightarrow> HasPrefix (zname file) (root @ ''/''))"
  show "extractGitHubZip w zipPath targetDir subDir =
          writeEntries w targetDir
            (List.map_filter
               (\<lambda>file. map_option (\<lambda>rel. (rel, file)) (githubRelative root subDir file)) entries)"
  proof (cases "\<exists>file \<in> set entries. \<not> zIsDir file")
    case True
    with h have "rootPrefixOf entries = root @ ''/''"
      using rootPrefixOf_single_root [of root entries] by blast
    with h show ?thesis
      using extractGitHubZip_loop_refines [of entries root w targetDir subDir]
      by (simp add: extractGitHubZip_def)
  next
    case False
    then have all: "\<forall>file \<in> set entries. zIsDir file" by blast
    with h show ?thesis
      by (simp add: extractGitHubZip_def extractGitHubZip_loop_all_dirs map_filter_all_dirs)
  qed
next
  fix ze :: zentry
  assume "zIsDir ze"
  then show "githubRelative root subDir ze = None" by (simp add: githubRelative_def)
next
  fix ze :: zentry and rest
  assume "\<not> zIsDir ze \<and> zname ze = root @ ''/'' @ rest"
  then show "githubRelative root [] ze = Some rest"
    using githubRelative_under_root by blast
next
  fix ze :: zentry and rest
  assume "subDir \<noteq> [] \<and> \<not> zIsDir ze \<and> zname ze = root @ ''/'' @ subDir @ ''/'' @ rest"
  then show "githubRelative root subDir ze = Some rest"
    using githubRelative_under_subDir by blast
next
  fix ze :: zentry and rest
  assume "subDir \<noteq> [] \<and> zname ze = root @ ''/'' @ rest \<and> \<not> HasPrefix rest (subDir @ ''/'')"
  then show "githubRelative root subDir ze = None"
    using githubRelative_outside_subDir by blast
qed

theorem extractGitHubZip_selects_witness:
  "zip_OpenReader archiveWorld ''/tmp/dl.zip'' = Inr demoArchive
   \<and> CHR ''/'' \<notin> set ''schemas-1.2.0''
   \<and> list_all (\<lambda>file. zIsDir file \<or> HasPrefix (zname file) ''schemas-1.2.0/'') demoArchive
   \<and> map fst (List.map_filter
        (\<lambda>file. map_option (\<lambda>rel. (rel, file)) (githubRelative ''schemas-1.2.0'' ''proto'' file))
        demoArchive) = [''a.proto'', ''v1/b.proto'']
   \<and> fst (extractGitHubZip archiveWorld ''/tmp/dl.zip'' ''/cache/dep'' ''proto'') = None
   \<and> files (snd (extractGitHubZip archiveWorld ''/tmp/dl.zip'' ''/cache/dep'' ''proto'')) =
       [([''cache'', ''dep'', ''v1'', ''b.proto''], File (Raw ''message B'')),
        ([''cache'', ''dep'', ''v1''], Dir),
        ([''cache'', ''dep'', ''a.proto''], File (Raw ''message A'')),
        ([''cache'', ''dep''], Dir),
        ([''tmp''], Dir), ([''tmp'', ''dl.zip''], File (Zip demoArchive)), ([''cache''], Dir)]"
proof -
  let ?sel = "List.map_filter
        (\<lambda>file. map_option (\<lambda>rel. (rel, file)) (githubRelative ''schemas-1.2.0'' ''proto'' file))
        demoArchive"
  have a: "zip_OpenReader archiveWorld ''/tmp/dl.zip'' = Inr demoArchive" by code_simp
  have b: "CHR ''/'' \<notin> set ''schemas-1.2.0''" by simp
  have c: "list_all (\<lambda>file. zIsDir file \<or> HasPrefix (zname file) ''schemas-1.2.0/'') demoArchive"
    by code_simp
  then have c': "\<forall>file \<in> set demoArchive. \<not> zIsDir file \<longrightarrow> HasPrefix (zname file) (''schemas-1.2.0'' @ ''/'')"
    by (auto simp: list_all_iff)
  have d: "map fst ?sel = [''a.proto'', ''v1/b.proto'']" by code_simp
  have e: "fst (writeEntries archiveWorld ''/cache/dep'' ?sel) = None" by code_simp
  have g: "files (snd (writeEntries archiveWorld ''/cache/dep'' ?sel)) =
       [([''cache'', ''dep'', ''v1'', ''b.proto''], File (Raw ''message B'')),
        ([''cache'', ''dep'', ''v1''], Dir),
        ([''cache'', ''dep'', ''a.proto''], File (Raw ''message A'')),
        ([''cache'', ''dep''], Dir),
        ([''tmp''], Dir), ([''tmp'', ''dl.zip''], File (Zip demoArchive)), ([''cache''], Dir)]"
    by code_simp
  have eq: "extractGitHubZip archiveWorld ''/tmp/dl.zip'' ''/cache/dep'' ''proto'' =
      writeEntries archiveWorld ''/cache/dep'' ?sel"
    using extractGitHubZip_selects [of archiveWorld "''/tmp/dl.zip''" demoArchive "''schemas-1.2.0''"
        "''/cache/dep''" "''proto''", THEN conjunct1] a b c' by blast
  from a b c d e g show ?thesis unfolding eq by blast
qed

section \<open>Repeated fetches\<close>

text \<open>
  Repeated HTTP fetches: with a source that is an \<open>http\<close> or \<open>https\<close> URL and a
  destination that exists, has an entry and holds the marker, \<open>Fetch\<close> succeeds and
  returns the world unchanged: no request, no write.
\<close>

lemma isFetched_from_contents:
  assumes "os_Stat w dest = Inr n" and "os_ReadDir w dest = Inr entries" and "entries \<noteq> []"
    and "os_Stat w (filepath_Join [dest, FetchedMarkerFile]) = Inr m"
  shows "isFetched w dest"
  using assms by (simp add: isFetched_def IsNotExist_def)

lemma urlFetch_idempotent:
  assumes "url_Parse (f_Source f) = Inr u" and "Scheme u = ''http'' \<or> Scheme u = ''https''"
    and "isFetched w (f_Dest f)"
  shows "urlFetch w f = (None, w)"
  using assms by (auto simp: urlFetch_def)

lemma Fetch_http_idempotent:
  assumes "f_SourceType f = SourceHTTP"
    and "url_Parse (f_Source f) = Inr u" and "Scheme u = ''http'' \<or> Scheme u = ''https''"
    and "os_Stat w (f_Dest f) = Inr n" and "os_ReadDir w (f_Dest f) = Inr entries" and "entries \<noteq> []"
    and "os_Stat w (filepath_Join [f_Dest f, FetchedMarkerFile]) = Inr m"
  shows "Fetch pull w f = (None, w)"
  using assms urlFetch_idempotent [of f u w] isFetched_from_contents [of w "f_Dest f" n entries m]
  by (simp add: Fetch_def)

text \<open>
  Claim C1 at a GitHub source whose destination holds content and the marker: \<open>Fetch\<close>
  issues the GET for the archive all the same and overwrites the destination (the file
  \<open>a.proto\<close> changes); without a network the same call fails instead of succeeding.
\<close>

theorem githubFetch_downloads_again:
  "isFetched servedWorld (f_Dest githubFetcher)
   \<and> requests servedWorld = []
   \<and> fst (Fetch noPull servedWorld githubFetcher) = None
   \<and> requests (snd (Fetch noPull servedWorld githubFetcher)) = [githubArchiveURL]
   \<and> os_Stat servedWorld ''/cache/dep/a.proto'' = Inr (File (Raw ''old''))
   \<and> os_Stat (snd (Fetch noPull servedWorld githubFetcher)) ''/cache/dep/a.proto''
       = Inr (File (Raw ''message A''))
   \<and> isFetched demoWorld (f_Dest githubFetcher)
   \<and> fst (Fetch noPull demoWorld githubFetcher) =
       Some (Wrap ''failed to fetch from GitHub''
               (Msg (''Get '' @ githubArchiveURL @ '': transport failure'')))
   \<and> requests (snd (Fetch noPull demoWorld githubFetcher)) = [githubArchiveURL]"
  by code_simp

section \<open>Temporary files of a download\<close>

text \<open>
  Claim C8 at a response whose body fails while it is copied: the HTTP fetch and the
  GitHub fetch return their error and the temporary file \<open>download\<close> created, absent
  before the call, is still there. The well-known path, which defers the removal before
  it copies, leaves the file system as it was.
\<close>

theorem download_leaves_temporary_file:
  "os_Stat brokenWorld ''/tmp/protodex-download-0.zip'' = Inl ENOENT
   \<and> fst (Fetch noPull brokenWorld httpFetcher) =
       Some (Wrap ''failed to fetch from URL'' (Wrap ''failed to download from URL'' (Errno EIO)))
   \<and> os_Stat (snd (Fetch noPull brokenWorld httpFetcher)) ''/tmp/protodex-download-0.zip''
       = Inr (File (Raw []))
   \<and> fst (Fetch noPull brokenWorld (githubFetcher\<lparr>f_Dest := ''/cache/new''\<rparr>)) =
       Some (Wrap ''failed to fetch from GitHub'' (Errno EIO))
   \<and> os_Stat (snd (Fetch noPull brokenWorld (githubFetcher\<lparr>f_Dest := ''/cache/new''\<rparr>)))
         ''/tmp/protodex-download-0.zip'' = Inr (File (Raw []))
   \<and> fst (resolveDependency noPull brokenWorld demoResolver wellKnownDep) = Some (Errno EIO)
   \<and> files (snd (resolveDependency noPull brokenWorld demoResolver wellKnownDep)) = files brokenWorld"
  by code_simp

end
